theory Spec2Isabelle
  imports Complex_Main "HOL-Library.Stream"
begin

section \<open>Numbers and errors\<close>

text \<open>
  The dashboards compute with Python and numpy floats. Numbers are modelled as real
  numbers: rounding and overflow are not modelled. What is modelled is where the two
  kinds of float differ on division by zero: Python's \<^verbatim>\<open>/\<close> raises
  \<^verbatim>\<open>ZeroDivisionError\<close>, numpy's scalar division returns \<^verbatim>\<open>inf\<close>, \<^verbatim>\<open>-inf\<close> or
  \<^verbatim>\<open>nan\<close> (with a warning only), and these values then take part in the arithmetic
  that follows. Zero has no sign in the model.
\<close>

datatype error = KeyError | ZeroDivisionError | UnboundLocalError

datatype npfloat = Finite real | PosInf | NegInf | NaN

text \<open>\<^verbatim>\<open>a / b\<close> on two finite \<^verbatim>\<open>numpy.float64\<close> scalars.\<close>

definition np_truediv :: "real \<Rightarrow> real \<Rightarrow> npfloat" where
  "np_truediv a b =
     (if b = 0 then (if a = 0 then NaN else if 0 < a then PosInf else NegInf)
      else Finite (a / b))"

text \<open>\<^verbatim>\<open>x * c\<close> for a \<^verbatim>\<open>numpy.float64\<close> \<open>x\<close> and a positive finite constant \<open>c\<close>.\<close>

fun np_mul_pos :: "npfloat \<Rightarrow> real \<Rightarrow> npfloat" where
  "np_mul_pos (Finite x) c = Finite (x * c)"
| "np_mul_pos PosInf c = PosInf"
| "np_mul_pos NegInf c = NegInf"
| "np_mul_pos NaN c = NaN"

text \<open>
  Arithmetic on floats that may be infinite or not a number, as IEEE 754 defines it:
  \<open>inf - inf\<close>, \<open>0 * inf\<close>, \<open>0 / 0\<close> and \<open>inf / inf\<close> are \<^verbatim>\<open>nan\<close>, a finite
  number divided by an infinite one is 0, and \<^verbatim>\<open>nan\<close> spreads.
\<close>

fun np_neg :: "npfloat \<Rightarrow> npfloat" where
  "np_neg (Finite a) = Finite (- a)"
| "np_neg PosInf = NegInf"
| "np_neg NegInf = PosInf"
| "np_neg NaN = NaN"

instantiation npfloat :: "{plus, minus, times, inverse}"
begin

fun plus_npfloat :: "npfloat \<Rightarrow> npfloat \<Rightarrow> npfloat" where
  "plus_npfloat (Finite a) (Finite b) = Finite (a + b)"
| "plus_npfloat NaN y = NaN"
| "plus_npfloat x NaN = NaN"
| "plus_npfloat PosInf NegInf = NaN"
| "plus_npfloat NegInf PosInf = NaN"
| "plus_npfloat PosInf y = PosInf"
| "plus_npfloat x PosInf = PosInf"
| "plus_npfloat NegInf y = NegInf"
| "plus_npfloat x NegInf = NegInf"

definition minus_npfloat :: "npfloat \<Rightarrow> npfloat \<Rightarrow> npfloat" where
  "minus_npfloat x y = x + np_neg y"

fun times_npfloat :: "npfloat \<Rightarrow> npfloat \<Rightarrow> npfloat" where
  "times_npfloat (Finite a) (Finite b) = Finite (a * b)"
| "times_npfloat NaN y = NaN"
| "times_npfloat x NaN = NaN"
| "times_npfloat (Finite a) PosInf = (if a = 0 then NaN else if 0 < a then PosInf else NegInf)"
| "times_npfloat (Finite a) NegInf = (if a = 0 then NaN else if 0 < a then NegInf else PosInf)"
| "times_npfloat PosInf (Finite b) = (if b = 0 then NaN else if 0 < b then PosInf else NegInf)"
| "times_npfloat NegInf (Finite b) = (if b = 0 then NaN else if 0 < b then NegInf else PosInf)"
| "times_npfloat PosInf PosInf = PosInf"
| "times_npfloat NegInf NegInf = PosInf"
| "times_npfloat PosInf NegInf = NegInf"
| "times_npfloat NegInf PosInf = NegInf"

text \<open>Division of floats where no error is raised (the division of numpy).\<close>

fun divide_npfloat :: "npfloat \<Rightarrow> npfloat \<Rightarrow> npfloat" where
  "divide_npfloat (Finite a) (Finite b) = np_truediv a b"
| "divide_npfloat NaN y = NaN"
| "divide_npfloat x NaN = NaN"
| "divide_npfloat (Finite a) PosInf = Finite 0"
| "divide_npfloat (Finite a) NegInf = Finite 0"
| "divide_npfloat PosInf (Finite b) = (if 0 \<le> b then PosInf else NegInf)"
| "divide_npfloat NegInf (Finite b) = (if 0 \<le> b then NegInf else PosInf)"
| "divide_npfloat PosInf PosInf = NaN"
| "divide_npfloat PosInf NegInf = NaN"
| "divide_npfloat NegInf PosInf = NaN"
| "divide_npfloat NegInf NegInf = NaN"

definition inverse_npfloat :: "npfloat \<Rightarrow> npfloat" where
  "inverse_npfloat x = divide (Finite 1) x"

instance ..

end

text \<open>
  A number as a Python program holds it: a float (or an \<^verbatim>\<open>int\<close>), with the flag
  \<open>numpy\<close> set when it is a numpy scalar (\<^verbatim>\<open>numpy.float64\<close>) rather than a Python number.
  An operation with a numpy scalar on either side gives a numpy scalar. Python numbers and
  numpy scalars compute alike but for the division by zero, which raises only when both
  sides are Python numbers.
\<close>

datatype number = Number (numpy: bool) (amount: npfloat)

definition py :: "real \<Rightarrow> number" where
  "py x = Number False (Finite x)"

definition np :: "real \<Rightarrow> number" where
  "np x = Number True (Finite x)"

instantiation number :: "{plus, minus, times, inverse}"
begin

definition plus_number :: "number \<Rightarrow> number \<Rightarrow> number" where
  "plus_number x y = Number (numpy x \<or> numpy y) (amount x + amount y)"

definition minus_number :: "number \<Rightarrow> number \<Rightarrow> number" where
  "minus_number x y = Number (numpy x \<or> numpy y) (amount x - amount y)"

definition times_number :: "number \<Rightarrow> number \<Rightarrow> number" where
  "times_number x y = Number (numpy x \<or> numpy y) (amount x * amount y)"

definition divide_number :: "number \<Rightarrow> number \<Rightarrow> number" where
  "divide_number x y = Number (numpy x \<or> numpy y) (amount x / amount y)"

definition inverse_number :: "number \<Rightarrow> number" where
  "inverse_number x = divide (Number False (Finite 1)) x"

instance ..

end

text \<open>\<^verbatim>\<open>x / y\<close> as Python evaluates it: the division of two Python numbers by zero raises
  \<^verbatim>\<open>ZeroDivisionError\<close>; every other division gives the quotient above.\<close>

definition truediv :: "number \<Rightarrow> number \<Rightarrow> error + number" where
  "truediv x y =
     (if \<not> numpy x \<and> \<not> numpy y \<and> amount y = Finite 0 then Inl ZeroDivisionError
      else Inr (x / y))"

text \<open>Sequencing of computations that may raise: the first error is the result.\<close>

definition and_then :: "error + 'a \<Rightarrow> ('a \<Rightarrow> error + 'b) \<Rightarrow> error + 'b" where
  "and_then m f = (case m of Inl e \<Rightarrow> Inl e | Inr x \<Rightarrow> f x)"

text \<open>A loop (or comprehension) that evaluates \<open>f\<close> on each element in order and collects
  the results; an error in an iteration ends the loop.\<close>

fun for_each :: "('a \<Rightarrow> error + 'b) \<Rightarrow> 'a list \<Rightarrow> error + 'b list" where
  "for_each f [] = Inr []"
| "for_each f (x # xs) =
     and_then (f x) (\<lambda>y. and_then (for_each f xs) (\<lambda>ys. Inr (y # ys)))"

text \<open>The loop \<^verbatim>\<open>for param in parameters: ... results[param] = ...\<close> that fills the
  dictionary of results, where \<open>body\<close> computes the value stored for a parameter.\<close>

fun collect_results ::
  "(string \<Rightarrow> error + 'v) \<Rightarrow> string list \<Rightarrow> (string \<rightharpoonup> 'v) \<Rightarrow> error + (string \<rightharpoonup> 'v)" where
  "collect_results body [] results = Inr results"
| "collect_results body (param # ps) results =
     and_then (body param) (\<lambda>r. collect_results body ps (results(param \<mapsto> r)))"

section \<open>The revenue dashboard (\<^verbatim>\<open>forecast_pkg/revenue_dashboard.py\<close>)\<close>

text \<open>
  A \<^verbatim>\<open>pandas.DataFrame\<close> is modelled by its numeric columns: a map from column name
  to the column's values in row order. (The column \<^verbatim>\<open>quarter\<close> of period labels, which
  the analysis never reads, is left out.) In a data frame all columns have one length.
\<close>

type_synonym series = "real list"
type_synonym dataframe = "string \<rightharpoonup> series"

text \<open>\<^verbatim>\<open>df[c]\<close>: a missing column raises \<^verbatim>\<open>KeyError\<close>.\<close>

definition getitem :: "dataframe \<Rightarrow> string \<Rightarrow> error + series" where
  "getitem df c = (case df c of None \<Rightarrow> Inl KeyError | Some s \<Rightarrow> Inr s)"

text \<open>\<^verbatim>\<open>s * k\<close> and \<^verbatim>\<open>s + t\<close> on series of one index, and \<^verbatim>\<open>s.sum()\<close>.\<close>

definition series_mul :: "series \<Rightarrow> real \<Rightarrow> series" where
  "series_mul s k = map (\<lambda>x. x * k) s"

definition series_add :: "series \<Rightarrow> series \<Rightarrow> series" where
  "series_add s t = map2 (+) s t"

definition series_sum :: "series \<Rightarrow> real" where
  "series_sum s = sum_list s"

text \<open>\<^verbatim>\<open>df[c] *= k\<close>: reads column \<open>c\<close> and stores the scaled column under \<open>c\<close>.\<close>

definition imul_column :: "dataframe \<Rightarrow> string \<Rightarrow> real \<Rightarrow> error + dataframe" where
  "imul_column df c k = and_then (getitem df c) (\<lambda>s. Inr (df(c \<mapsto> series_mul s k)))"

text \<open>
  \<^verbatim>\<open>(df['topChannelValue'] + df['monthlyRecurringRevenue'] * 3 + df['newPromotionRevenue']).sum()\<close>,
  the expression every branch of the analysis evaluates on the modified frame.
\<close>

definition revenue_sum :: "dataframe \<Rightarrow> error + real" where
  "revenue_sum df =
     and_then (getitem df ''topChannelValue'') (\<lambda>tcv.
     and_then (getitem df ''monthlyRecurringRevenue'') (\<lambda>mrr.
     and_then (getitem df ''newPromotionRevenue'') (\<lambda>npr.
       Inr (series_sum (series_add (series_add tcv (series_mul mrr 3)) npr)))))"

definition revenue_parameters :: "string list" where
  "revenue_parameters = [''topChannelValue'', ''monthlyRecurringRevenue'', ''newPromotionRevenue'',
                 ''customerAcquisitionCost'', ''customerLifetimeValue'', ''inventoryTurnover'']"

definition variations :: "real list" where
  "variations = [-20, -10, 0, 10, 20]"

text \<open>
  The \<^verbatim>\<open>if\<close>/\<^verbatim>\<open>elif\<close> chain of the inner loop. Its branches differ in the column
  they scale in place and in the factor: \<^verbatim>\<open>modified_data[param] *= (1 + variation / 100)\<close>
  for the three revenue columns, \<^verbatim>\<open>impact = ...; modified_data[column] *= impact\<close> for the
  other three. The chain has no \<^verbatim>\<open>else\<close>; a name outside the chain would leave
  \<^verbatim>\<open>modified_revenue\<close> unassigned, which no element of the list of parameters does.
\<close>

definition perturbation :: "string \<Rightarrow> real \<Rightarrow> error + (string \<times> real)" where
  "perturbation param variation =
     (if param \<in> {''topChannelValue'', ''monthlyRecurringRevenue'', ''newPromotionRevenue''}
      then Inr (param, 1 + variation / 100)
      else if param = ''customerAcquisitionCost''
      then Inr (''newPromotionRevenue'', 1 - variation / 100)
      else if param = ''customerLifetimeValue''
      then Inr (''monthlyRecurringRevenue'', 1 + variation / 100)
      else if param = ''inventoryTurnover''
      then Inr (''topChannelValue'', 1 + variation / 200)
      else Inl UnboundLocalError)"

text \<open>\<^verbatim>\<open>modified_data\<close> after the branch for \<open>param\<close> has run on a copy of
  \<open>base_data\<close>.\<close>

definition modified_data :: "dataframe \<Rightarrow> string \<Rightarrow> real \<Rightarrow> error + dataframe" where
  "modified_data base_data param variation =
     and_then (perturbation param variation) (\<lambda>(column, factor).
       imul_column base_data column factor)"

definition modified_revenue :: "dataframe \<Rightarrow> string \<Rightarrow> real \<Rightarrow> error + real" where
  "modified_revenue base_data param variation =
     and_then (modified_data base_data param variation) revenue_sum"

text \<open>\<^verbatim>\<open>(modified_revenue - base_revenue) / base_revenue * 100\<close> on numpy scalars.\<close>

definition percent_change :: "real \<Rightarrow> real \<Rightarrow> npfloat" where
  "percent_change modified base = np_mul_pos (np_truediv (modified - base) base) 100"

type_synonym impact_table = "string \<rightharpoonup> npfloat list"

definition param_results :: "dataframe \<Rightarrow> real \<Rightarrow> string \<Rightarrow> error + npfloat list" where
  "param_results base_data base_revenue param =
     for_each (\<lambda>variation.
        and_then (modified_revenue base_data param variation) (\<lambda>m.
          Inr (percent_change m base_revenue))) variations"

definition perform_sensitivity_analysis :: "dataframe \<Rightarrow> error + impact_table" where
  "perform_sensitivity_analysis base_data =
     and_then (getitem base_data ''revenueForecast'') (\<lambda>fc.
       collect_results (param_results base_data (series_sum fc)) revenue_parameters Map.empty)"

text \<open>
  The frames \<^verbatim>\<open>generate_sample_data\<close> builds: the three revenue columns, of one
  length, and the column \<^verbatim>\<open>revenueForecast\<close> computed from them row by row as
  \<^verbatim>\<open>topChannelValue + monthlyRecurringRevenue * 3 + newPromotionRevenue\<close>.
\<close>

definition revenue_frame :: "dataframe \<Rightarrow> series \<Rightarrow> series \<Rightarrow> series \<Rightarrow> bool" where
  "revenue_frame df tcv mrr npr \<longleftrightarrow>
     df ''topChannelValue'' = Some tcv \<and>
     df ''monthlyRecurringRevenue'' = Some mrr \<and>
     df ''newPromotionRevenue'' = Some npr \<and>
     length mrr = length tcv \<and> length npr = length tcv \<and>
     df ''revenueForecast'' = Some (series_add (series_add tcv (series_mul mrr 3)) npr)"

subsection \<open>The earlier version (\<^verbatim>\<open>code-v3/revenue-forecast-dashboard-streamlit-1.3.py\<close>)\<close>




section \<open>The cashflow dashboard (\<^verbatim>\<open>forecast_pkg/cashflow_dashboard.py\<close>)\<close>

text \<open>
  The data is a list of dictionaries, one per quarter. A dictionary is modelled by the
  period label stored under \<^verbatim>\<open>'quarter'\<close> and the map of its numeric keys; reading a
  missing key raises \<^verbatim>\<open>KeyError\<close>. A value is a Python number or a numpy scalar: the
  annotations of the functions say \<^verbatim>\<open>float\<close>, and \<^verbatim>\<open>generate_realistic_sample_data\<close>
  stores numpy scalars under the keys it computes from \<^verbatim>\<open>np.sin\<close> (among them
  \<^verbatim>\<open>salesRevenue\<close>) and Python numbers under the others (among them the two day counts).
\<close>

record period =
  quarter :: string
  nums :: "string \<rightharpoonup> number"

record cashflow_entry =
  entry_quarter :: string
  netCashflow :: number

record 'a impact =
  increased :: 'a
  decreased :: 'a

definition item :: "period \<Rightarrow> string \<Rightarrow> error + number" where
  "item q k = (case nums q k of None \<Rightarrow> Inl KeyError | Some x \<Rightarrow> Inr x)"

text \<open>The body of the loop of \<^verbatim>\<open>calculate_cashflow\<close>, in Python's evaluation order.\<close>

definition quarter_cashflow :: "period \<Rightarrow> real \<Rightarrow> error + cashflow_entry" where
  "quarter_cashflow q variation_percentage =
     (let days_in_quarter = py 91;
          variation_factor = py (1 + variation_percentage / 100)
      in
      and_then (item q ''salesRevenue'') (\<lambda>salesRevenue.
      and_then (item q ''accountsReceivableDays'') (\<lambda>accountsReceivableDays.
      and_then (truediv days_in_quarter accountsReceivableDays) (\<lambda>receivable_turns.
      and_then (item q ''customerPrepayments'') (\<lambda>customerPrepayments.
      let cash_inflow = salesRevenue * variation_factor * receivable_turns
                        + customerPrepayments * variation_factor
      in
      and_then (item q ''rawMaterialCosts'') (\<lambda>rawMaterialCosts.
      and_then (item q ''laborCosts'') (\<lambda>laborCosts.
      and_then (item q ''accountsPayableDays'') (\<lambda>accountsPayableDays.
      and_then (truediv days_in_quarter accountsPayableDays) (\<lambda>payable_turns.
      and_then (item q ''capex'') (\<lambda>capex.
      and_then (item q ''operatingExpenses'') (\<lambda>operatingExpenses.
      and_then (item q ''debtRepayments'') (\<lambda>debtRepayments.
      and_then (item q ''taxPayments'') (\<lambda>taxPayments.
      and_then (item q ''dividendPayments'') (\<lambda>dividendPayments.
      let cash_outflow = (rawMaterialCosts + laborCosts) * variation_factor * payable_turns
                         + capex * variation_factor
                         + operatingExpenses * variation_factor
                         + debtRepayments
                         + taxPayments * variation_factor
                         + dividendPayments;
          net_cashflow = cash_inflow - cash_outflow
      in Inr \<lparr>entry_quarter = quarter q, netCashflow = net_cashflow\<rparr>))))))))))))))"

definition calculate_cashflow :: "period list \<Rightarrow> real \<Rightarrow> error + cashflow_entry list" where
  "calculate_cashflow data variation_percentage =
     for_each (\<lambda>q. quarter_cashflow q variation_percentage) data"

definition cashflow_parameters :: "string list" where
  "cashflow_parameters =
     [''salesRevenue'', ''accountsReceivableDays'', ''rawMaterialCosts'', ''laborCosts'',
      ''accountsPayableDays'', ''capex'', ''inventoryTurnover'', ''operatingExpenses'',
      ''debtRepayments'', ''taxPayments'', ''seasonalFactor'', ''customerPrepayments'',
      ''supplierCreditDays'', ''dividendPayments'', ''fxRate'']"

text \<open>
  \<^verbatim>\<open>[{**quarter, param: quarter[param] * factor} for quarter in base_data]\<close>: a new list
  of new dictionaries. The factor is a Python float.
\<close>

definition scaled_quarter :: "string \<Rightarrow> real \<Rightarrow> period \<Rightarrow> error + period" where
  "scaled_quarter param factor q =
     and_then (item q param) (\<lambda>x. Inr (q\<lparr>nums := (nums q)(param \<mapsto> x * py factor)\<rparr>))"

definition increased_data :: "period list \<Rightarrow> string \<Rightarrow> real \<Rightarrow> error + period list" where
  "increased_data base_data param variation_percentage =
     for_each (scaled_quarter param (1 + variation_percentage / 100)) base_data"

definition decreased_data :: "period list \<Rightarrow> string \<Rightarrow> real \<Rightarrow> error + period list" where
  "decreased_data base_data param variation_percentage =
     for_each (scaled_quarter param (1 - variation_percentage / 100)) base_data"

text \<open>\<^verbatim>\<open>sum(q['netCashflow'] for q in cashflow)\<close>: the values are added, in order, to the
  Python number 0.\<close>

definition total_net_cashflow :: "cashflow_entry list \<Rightarrow> number" where
  "total_net_cashflow cashflow = foldl (+) (py 0) (map netCashflow cashflow)"

text \<open>The three totals and the dictionary stored in \<^verbatim>\<open>results[param]\<close>; the value
  for \<^verbatim>\<open>'increased'\<close> is evaluated first.\<close>

definition percentage_impacts ::
  "cashflow_entry list \<Rightarrow> cashflow_entry list \<Rightarrow> cashflow_entry list
     \<Rightarrow> error + number impact" where
  "percentage_impacts base_cashflow increased_cashflow decreased_cashflow =
     (let total_base_net_cashflow = total_net_cashflow base_cashflow;
          total_increased_net_cashflow = total_net_cashflow increased_cashflow;
          total_decreased_net_cashflow = total_net_cashflow decreased_cashflow
      in
      and_then (truediv (total_increased_net_cashflow - total_base_net_cashflow)
                  total_base_net_cashflow) (\<lambda>inc.
      and_then (truediv (total_decreased_net_cashflow - total_base_net_cashflow)
                  total_base_net_cashflow) (\<lambda>dec.
        Inr \<lparr>increased = inc * py 100, decreased = dec * py 100\<rparr>)))"

text \<open>One iteration of the loop over the parameters: the value stored in
  \<^verbatim>\<open>results[param]\<close>.\<close>

definition param_impact :: "period list \<Rightarrow> real \<Rightarrow> string \<Rightarrow> error + number impact" where
  "param_impact base_data variation_percentage param =
     and_then (increased_data base_data param variation_percentage) (\<lambda>inc_data.
     and_then (decreased_data base_data param variation_percentage) (\<lambda>dec_data.
     and_then (calculate_cashflow base_data 0) (\<lambda>base_cashflow.
     and_then (calculate_cashflow inc_data 0) (\<lambda>increased_cashflow.
     and_then (calculate_cashflow dec_data 0) (\<lambda>decreased_cashflow.
       percentage_impacts base_cashflow increased_cashflow decreased_cashflow)))))"

text \<open>\<^verbatim>\<open>sensitivity_analysis(base_data, variation_percentage)\<close>; the dashboard calls it
  with the default \<^verbatim>\<open>variation_percentage = 10\<close>.\<close>

definition cashflow_sensitivity_analysis ::
  "period list \<Rightarrow> real \<Rightarrow> error + (string \<rightharpoonup> number impact)" where
  "cashflow_sensitivity_analysis base_data variation_percentage =
     collect_results (param_impact base_data variation_percentage) cashflow_parameters Map.empty"

text \<open>The aggregate of the cashflow analysis: the total of \<^verbatim>\<open>netCashflow\<close> over the
  result of \<^verbatim>\<open>calculate_cashflow(data)\<close>.\<close>

definition net_cashflow_total :: "period list \<Rightarrow> error + number" where
  "net_cashflow_total data =
     and_then (calculate_cashflow data 0) (\<lambda>cashflow. Inr (total_net_cashflow cashflow))"

text \<open>
  The quarters \<^verbatim>\<open>generate_realistic_sample_data\<close> builds: every parameter is a key of
  the dictionary, and neither of the two day counts, which \<^verbatim>\<open>calculate_cashflow\<close>
  divides by, is the Python number 0.
\<close>

definition cashflow_ready :: "period \<Rightarrow> bool" where
  "cashflow_ready q \<longleftrightarrow>
     (\<forall>k\<in>set cashflow_parameters. nums q k \<noteq> None) \<and>
     nums q ''accountsReceivableDays'' \<noteq> Some (py 0) \<and>
     nums q ''accountsPayableDays'' \<noteq> Some (py 0)"

text \<open>
  The keys \<^verbatim>\<open>calculate_cashflow\<close> reads, in the order of reading. Its result for a
  quarter is a numpy scalar as soon as one of the values read is one.
\<close>

definition cashflow_reads :: "string list" where
  "cashflow_reads =
     [''salesRevenue'', ''accountsReceivableDays'', ''customerPrepayments'',
      ''rawMaterialCosts'', ''laborCosts'', ''accountsPayableDays'', ''capex'',
      ''operatingExpenses'', ''debtRepayments'', ''taxPayments'', ''dividendPayments'']"

definition reads_numpy :: "period \<Rightarrow> bool" where
  "reads_numpy q \<longleftrightarrow> (\<exists>k\<in>set cashflow_reads. \<exists>x. nums q k = Some x \<and> numpy x)"

section \<open>Analyses that draw random numbers\<close>

text \<open>
  \<^verbatim>\<open>np.random\<close> is a generator with hidden global state. The state is modelled by the
  stream of the draws of \<^verbatim>\<open>np.random.random()\<close> still to come, each in \<open>[0, 1)\<close>; a
  draw returns the head and leaves the tail. \<^verbatim>\<open>np.random.uniform(low, high)\<close> is
  \<open>low + (high - low) * random()\<close>.
\<close>

type_synonym rng = "real stream"

definition np_random :: "rng \<Rightarrow> real \<times> rng" where
  "np_random g = (shd g, stl g)"

definition np_uniform :: "real \<Rightarrow> real \<Rightarrow> rng \<Rightarrow> real \<times> rng" where
  "np_uniform low high g = (low + (high - low) * shd g, stl g)"

text \<open>A loop whose body reads and advances the generator.\<close>

fun for_each_rng :: "('a \<Rightarrow> rng \<Rightarrow> 'b \<times> rng) \<Rightarrow> 'a list \<Rightarrow> rng \<Rightarrow> 'b list \<times> rng" where
  "for_each_rng f [] g = ([], g)"
| "for_each_rng f (x # xs) g =
     (let (y, g1) = f x g; (ys, g2) = for_each_rng f xs g1 in (y # ys, g2))"

fun collect_results_rng ::
  "(string \<Rightarrow> rng \<Rightarrow> 'v \<times> rng) \<Rightarrow> string list \<Rightarrow> (string \<rightharpoonup> 'v) \<Rightarrow> rng
     \<Rightarrow> (string \<rightharpoonup> 'v) \<times> rng" where
  "collect_results_rng body [] results g = (results, g)"
| "collect_results_rng body (param # ps) results g =
     (let (r, g1) = body param g in collect_results_rng body ps (results(param \<mapsto> r)) g1)"

subsection \<open>The sample data of the revenue dashboard\<close>

text \<open>
  \<^verbatim>\<open>generate_sample_data\<close> draws six numbers for each quarter, computes
  \<^verbatim>\<open>revenueForecast\<close> from three of them and builds the frame from the list of
  dictionaries. (The label under \<^verbatim>\<open>'quarter'\<close>, made from the current date, is left
  out.) \<^verbatim>\<open>pd.DataFrame(data)\<close>, for dictionaries with the same keys, has one column
  per key, with the values in the order of the list, and no column for an empty list.
\<close>

definition quarter_data :: "rng \<Rightarrow> (string \<rightharpoonup> real) \<times> rng" where
  "quarter_data g =
     (let (topChannelValue, g1) = np_uniform 800000000 1000000000 g;
          (monthlyRecurringRevenue, g2) = np_uniform 200000000 300000000 g1;
          (newPromotionRevenue, g3) = np_uniform 50000000 100000000 g2;
          (customerAcquisitionCost, g4) = np_uniform 1000 2000 g3;
          (customerLifetimeValue, g5) = np_uniform 10000 20000 g4;
          (inventoryTurnover, g6) = np_uniform 4 6 g5;
          quarter_data = [''topChannelValue'' \<mapsto> topChannelValue,
                          ''monthlyRecurringRevenue'' \<mapsto> monthlyRecurringRevenue,
                          ''newPromotionRevenue'' \<mapsto> newPromotionRevenue,
                          ''customerAcquisitionCost'' \<mapsto> customerAcquisitionCost,
                          ''customerLifetimeValue'' \<mapsto> customerLifetimeValue,
                          ''inventoryTurnover'' \<mapsto> inventoryTurnover]
      in (quarter_data(''revenueForecast'' \<mapsto>
            topChannelValue + monthlyRecurringRevenue * 3 + newPromotionRevenue), g6))"

definition data_frame :: "(string \<rightharpoonup> real) list \<Rightarrow> dataframe" where
  "data_frame data = (\<lambda>c. if data = [] then None else those (map (\<lambda>row. row c) data))"

definition generate_sample_data :: "nat \<Rightarrow> rng \<Rightarrow> dataframe \<times> rng" where
  "generate_sample_data quarters g =
     (let (data, g') = for_each_rng (\<lambda>i. quarter_data) [0..<quarters] g
      in (data_frame data, g'))"

subsection \<open>\<^verbatim>\<open>forecast_pkg/expense_dashboard.py\<close>\<close>

definition expense_parameters :: "string list" where
  "expense_parameters = [''payrollCosts'', ''COGS'', ''operatingCost'', ''overheadCost'',
                         ''inventoryValue'', ''RDExpenses'', ''marketingSalesExpenses'']"

text \<open>The body of the inner loop of \<^verbatim>\<open>perform_expense_sensitivity_analysis\<close>: the
  value appended for one variation.\<close>

definition expense_effect :: "real \<Rightarrow> rng \<Rightarrow> real \<times> rng" where
  "expense_effect variation g =
     (let (r1, g1) = np_random g;
          base_effect = variation * (0.5 + r1);
          (r2, g2) = np_random g1;
          random_factor = (r2 - 0.5) * 20;
          effect = base_effect + random_factor;
          effect = max (-50) (min 50 effect)
      in (effect, g2))"

text \<open>The result is the data frame with one column per parameter and one row per
  variation.\<close>

definition perform_expense_sensitivity_analysis :: "rng \<Rightarrow> (string \<rightharpoonup> real list) \<times> rng" where
  "perform_expense_sensitivity_analysis g =
     collect_results_rng (\<lambda>param. for_each_rng expense_effect variations)
       expense_parameters Map.empty g"

subsection \<open>\<^verbatim>\<open>forecast_pkg/balance_sheet_dashboard.py\<close>\<close>

definition balance_sheet_parameters :: "string list" where
  "balance_sheet_parameters =
     [''cash'', ''accountsReceivable'', ''inventory'', ''ppe'', ''accountsPayable'',
      ''shortTermDebt'', ''longTermDebt'', ''retainedEarnings'', ''capex'',
      ''depreciationAmortization'']"

text \<open>\<^verbatim>\<open>(np.random.random() * 15 + 5) * (1 if np.random.random() < 0.5 else -1)\<close>.\<close>

definition random_impact :: "rng \<Rightarrow> real \<times> rng" where
  "random_impact g =
     (let (r1, g1) = np_random g;
          (r2, g2) = np_random g1
      in ((r1 * 15 + 5) * (if r2 < 0.5 then 1 else -1), g2))"

definition balance_sheet_impact :: "string \<Rightarrow> rng \<Rightarrow> real impact \<times> rng" where
  "balance_sheet_impact param g =
     (let (increased_impact, g1) = random_impact g;
          (decreased_impact, g2) = random_impact g1
      in (\<lparr>increased = increased_impact, decreased = decreased_impact\<rparr>, g2))"

definition balance_sheet_sensitivity_analysis ::
  "rng \<Rightarrow> (string \<rightharpoonup> real impact) \<times> rng" where
  "balance_sheet_sensitivity_analysis g =
     collect_results_rng balance_sheet_impact balance_sheet_parameters Map.empty g"

section \<open>Objects in memory\<close>

text \<open>
  The revenue analysis copies the frame and updates the copy in place; the cashflow
  analysis builds new dictionaries from the old ones. To state what a run leaves
  untouched, the two analyses are modelled once more over a store of objects: a reference
  is an address, \<open>cells\<close> gives the object at an address and \<open>fresh\<close> is the next
  address not yet in use. Creating an object takes the fresh address.
\<close>

record 'a heap =
  cells :: "nat \<Rightarrow> 'a"
  fresh :: nat

definition alloc :: "'a \<Rightarrow> 'a heap \<Rightarrow> nat \<times> 'a heap" where
  "alloc x h = (fresh h, h\<lparr>cells := (cells h)(fresh h := x), fresh := Suc (fresh h)\<rparr>)"

text \<open>Sequencing of steps that read and write the store and may raise.\<close>

definition then_heap ::
  "('h \<Rightarrow> (error + 'a) \<times> 'h) \<Rightarrow> ('a \<Rightarrow> 'h \<Rightarrow> (error + 'b) \<times> 'h) \<Rightarrow> 'h \<Rightarrow> (error + 'b) \<times> 'h" where
  "then_heap m f h = (case m h of (Inl e, h1) \<Rightarrow> (Inl e, h1) | (Inr x, h1) \<Rightarrow> f x h1)"

fun for_each_heap ::
  "('a \<Rightarrow> 'h \<Rightarrow> (error + 'b) \<times> 'h) \<Rightarrow> 'a list \<Rightarrow> 'h \<Rightarrow> (error + 'b list) \<times> 'h" where
  "for_each_heap f [] h = (Inr [], h)"
| "for_each_heap f (x # xs) h =
     then_heap (f x) (\<lambda>y. then_heap (for_each_heap f xs) (\<lambda>ys h2. (Inr (y # ys), h2))) h"

fun collect_results_heap ::
  "(string \<Rightarrow> 'h \<Rightarrow> (error + 'v) \<times> 'h) \<Rightarrow> string list \<Rightarrow> (string \<rightharpoonup> 'v) \<Rightarrow> 'h
     \<Rightarrow> (error + (string \<rightharpoonup> 'v)) \<times> 'h" where
  "collect_results_heap body [] results h = (Inr results, h)"
| "collect_results_heap body (param # ps) results h =
     then_heap (body param) (\<lambda>r. collect_results_heap body ps (results(param \<mapsto> r))) h"

text \<open>A later store extends an earlier one when every object of the earlier store is
  still there, unchanged.\<close>

definition extends :: "'a heap \<Rightarrow> 'a heap \<Rightarrow> bool" where
  "extends h h' \<longleftrightarrow> fresh h \<le> fresh h' \<and> (\<forall>a<fresh h. cells h' a = cells h a)"

subsection \<open>The revenue analysis over the store\<close>

text \<open>\<^verbatim>\<open>base_data.copy()\<close> creates a frame with the columns of the frame at \<open>a\<close>;
  \<^verbatim>\<open>df[c] *= k\<close> replaces the frame at \<open>a\<close> by the updated one.\<close>

definition copy_frame :: "nat \<Rightarrow> dataframe heap \<Rightarrow> (error + nat) \<times> dataframe heap" where
  "copy_frame a h = (let (a', h') = alloc (cells h a) h in (Inr a', h'))"

definition imul_column_at ::
  "nat \<Rightarrow> string \<Rightarrow> real \<Rightarrow> dataframe heap \<Rightarrow> (error + unit) \<times> dataframe heap" where
  "imul_column_at a c k h =
     (case imul_column (cells h a) c k of
        Inl e \<Rightarrow> (Inl e, h)
      | Inr df \<Rightarrow> (Inr (), h\<lparr>cells := (cells h)(a := df)\<rparr>))"

text \<open>The body of the inner loop: copy, update the copy in place, total, percentage.\<close>

definition variation_step ::
  "nat \<Rightarrow> real \<Rightarrow> string \<Rightarrow> real \<Rightarrow> dataframe heap \<Rightarrow> (error + npfloat) \<times> dataframe heap" where
  "variation_step base_data base_revenue param variation =
     then_heap (copy_frame base_data) (\<lambda>modified_data.
     then_heap (\<lambda>h. (perturbation param variation, h)) (\<lambda>(column, factor).
     then_heap (imul_column_at modified_data column factor) (\<lambda>_.
     then_heap (\<lambda>h. (revenue_sum (cells h modified_data), h)) (\<lambda>modified_revenue h.
       (Inr (percent_change modified_revenue base_revenue), h)))))"

definition perform_sensitivity_analysis_at ::
  "nat \<Rightarrow> dataframe heap \<Rightarrow> (error + impact_table) \<times> dataframe heap" where
  "perform_sensitivity_analysis_at base_data =
     then_heap (\<lambda>h. (getitem (cells h base_data) ''revenueForecast'', h)) (\<lambda>fc.
       collect_results_heap
         (\<lambda>param. for_each_heap (variation_step base_data (series_sum fc) param) variations)
         revenue_parameters Map.empty)"

subsection \<open>The cashflow analysis over the store\<close>

text \<open>\<^verbatim>\<open>base_data\<close> is a list of references to dictionaries. The comprehension reads
  each dictionary and creates a new one; \<^verbatim>\<open>calculate_cashflow\<close> only reads.\<close>

definition scaled_quarter_at ::
  "string \<Rightarrow> real \<Rightarrow> nat \<Rightarrow> period heap \<Rightarrow> (error + nat) \<times> period heap" where
  "scaled_quarter_at param factor a h =
     (case scaled_quarter param factor (cells h a) of
        Inl e \<Rightarrow> (Inl e, h)
      | Inr q \<Rightarrow> (let (a', h') = alloc q h in (Inr a', h')))"

definition calculate_cashflow_at ::
  "nat list \<Rightarrow> real \<Rightarrow> period heap \<Rightarrow> (error + cashflow_entry list) \<times> period heap" where
  "calculate_cashflow_at data variation_percentage h =
     (calculate_cashflow (map (cells h) data) variation_percentage, h)"

definition param_impact_at ::
  "nat list \<Rightarrow> real \<Rightarrow> string \<Rightarrow> period heap \<Rightarrow> (error + number impact) \<times> period heap" where
  "param_impact_at base_data variation_percentage param =
     then_heap (for_each_heap (scaled_quarter_at param (1 + variation_percentage / 100)) base_data)
       (\<lambda>inc_data.
     then_heap (for_each_heap (scaled_quarter_at param (1 - variation_percentage / 100)) base_data)
       (\<lambda>dec_data.
     then_heap (calculate_cashflow_at base_data 0) (\<lambda>base_cashflow.
     then_heap (calculate_cashflow_at inc_data 0) (\<lambda>increased_cashflow.
     then_heap (calculate_cashflow_at dec_data 0) (\<lambda>decreased_cashflow h.
       (percentage_impacts base_cashflow increased_cashflow decreased_cashflow, h))))))"

definition cashflow_sensitivity_analysis_at ::
  "nat list \<Rightarrow> real \<Rightarrow> period heap \<Rightarrow> (error + (string \<rightharpoonup> number impact)) \<times> period heap" where
  "cashflow_sensitivity_analysis_at base_data variation_percentage =
     collect_results_heap (param_impact_at base_data variation_percentage)
       cashflow_parameters Map.empty"

section \<open>Sample inputs\<close>

text \<open>A revenue frame of two quarters, as \<^verbatim>\<open>generate_sample_data(2)\<close> shapes it, and one
  whose revenue is zero in both quarters.\<close>

definition sample_frame :: dataframe where
  "sample_frame =
     [''topChannelValue'' \<mapsto> [100, 200],
      ''monthlyRecurringRevenue'' \<mapsto> [10, 20],
      ''newPromotionRevenue'' \<mapsto> [30, 40],
      ''customerAcquisitionCost'' \<mapsto> [1500, 1600],
      ''customerLifetimeValue'' \<mapsto> [15000, 16000],
      ''inventoryTurnover'' \<mapsto> [5, 5],
      ''revenueForecast'' \<mapsto> [160, 300]]"

text \<open>A frame of one quarter whose column \<^verbatim>\<open>revenueForecast\<close> is not the sum of the
  three revenue columns, which is 160.\<close>

definition unbalanced_frame :: dataframe where
  "unbalanced_frame =
     [''topChannelValue'' \<mapsto> [100],
      ''monthlyRecurringRevenue'' \<mapsto> [10],
      ''newPromotionRevenue'' \<mapsto> [30],
      ''customerAcquisitionCost'' \<mapsto> [1500],
      ''customerLifetimeValue'' \<mapsto> [15000],
      ''inventoryTurnover'' \<mapsto> [5],
      ''revenueForecast'' \<mapsto> [200]]"

definition zero_frame :: dataframe where
  "zero_frame =
     [''topChannelValue'' \<mapsto> [0, 0],
      ''monthlyRecurringRevenue'' \<mapsto> [0, 0],
      ''newPromotionRevenue'' \<mapsto> [0, 0],
      ''customerAcquisitionCost'' \<mapsto> [1500, 1600],
      ''customerLifetimeValue'' \<mapsto> [15000, 16000],
      ''inventoryTurnover'' \<mapsto> [5, 5],
      ''revenueForecast'' \<mapsto> [0, 0]]"

text \<open>
  Quarters with a revenue and a cost and nothing else that moves cash: the day counts
  equal the 91 days of the quarter, so that collections and payments are the full
  amounts, and the net cashflow of a quarter is revenue minus cost. In the scenario the
  revenue is 100 and the cost 40 in each of two quarters; in the second input revenue
  equals cost, all values being Python numbers; in the third the revenue is a numpy
  scalar, as the sample generator makes it, and again equals the cost.
\<close>

definition flat_quarter :: "string \<Rightarrow> number \<Rightarrow> number \<Rightarrow> period" where
  "flat_quarter label revenue cost =
     \<lparr>quarter = label,
      nums = [''salesRevenue'' \<mapsto> revenue, ''accountsReceivableDays'' \<mapsto> py 91,
              ''rawMaterialCosts'' \<mapsto> cost, ''laborCosts'' \<mapsto> py 0,
              ''accountsPayableDays'' \<mapsto> py 91, ''capex'' \<mapsto> py 0,
              ''inventoryTurnover'' \<mapsto> py 6, ''operatingExpenses'' \<mapsto> py 0,
              ''debtRepayments'' \<mapsto> py 0, ''taxPayments'' \<mapsto> py 0,
              ''seasonalFactor'' \<mapsto> np 1, ''customerPrepayments'' \<mapsto> py 0,
              ''supplierCreditDays'' \<mapsto> py 45, ''dividendPayments'' \<mapsto> py 0,
              ''fxRate'' \<mapsto> py 1]\<rparr>"

definition scenario_data :: "period list" where
  "scenario_data =
     [flat_quarter ''Q3 2024'' (py 100) (py 40), flat_quarter ''Q4 2024'' (py 100) (py 40)]"

definition break_even_data :: "period list" where
  "break_even_data =
     [flat_quarter ''Q3 2024'' (py 100) (py 100), flat_quarter ''Q4 2024'' (py 100) (py 100)]"

definition numpy_break_even_data :: "period list" where
  "numpy_break_even_data =
     [flat_quarter ''Q3 2024'' (np 100) (py 100), flat_quarter ''Q4 2024'' (np 100) (py 100)]"

text \<open>Stores that hold the sample inputs, and a state of the random generator whose
  next 70 draws are 0 and whose later draws are 1/2.\<close>

definition sample_store :: "dataframe heap" where
  "sample_store = \<lparr>cells = (\<lambda>a. Map.empty)(0 := sample_frame), fresh = 1\<rparr>"

definition scenario_store :: "period heap" where
  "scenario_store =
     \<lparr>cells = (\<lambda>a. flat_quarter [] (py 0) (py 0))
                 (0 := flat_quarter ''Q3 2024'' (py 100) (py 40),
                  1 := flat_quarter ''Q4 2024'' (py 100) (py 40)),
      fresh = 2\<rparr>"

definition two_phase_generator :: rng where
  "two_phase_generator = replicate 70 0 @- sconst (1 / 2)"

section \<open>The engine as the specification describes it\<close>

text \<open>
  Modelled from the spec: the perturbed series of the specification's algorithm, which
  multiplies the value of the parameter by \<open>1 + level / 100\<close> on every record and leaves
  every other field, and the order of the records, as they are. It is written once for a
  frame (a record is a row, a parameter a column) and once for a list of dictionaries.
\<close>

definition perturbed_frame :: "dataframe \<Rightarrow> string \<Rightarrow> real \<Rightarrow> dataframe" where
  "perturbed_frame baseline param level =
     (\<lambda>c. if c = param then map_option (map (\<lambda>x. x * (1 + level / 100))) (baseline c)
          else baseline c)"

definition perturbed_series :: "period list \<Rightarrow> string \<Rightarrow> real \<Rightarrow> period list" where
  "perturbed_series baseline param level =
     map (\<lambda>q. q\<lparr>nums := (\<lambda>k. if k = param
                              then map_option (\<lambda>x. x * py (1 + level / 100)) (nums q k)
                              else nums q k)\<rparr>) baseline"

text \<open>
  Modelled from the spec: the aggregation rule of the revenue dashboard,
  ``revenue = topChannelValue + 3 x MRR + newPromotionRevenue, summed over periods''.
  The aggregate of the cashflow dashboard, for which the specification gives no rule, is
  the total \<open>net_cashflow_total\<close> of the code.
\<close>

definition column :: "dataframe \<Rightarrow> string \<Rightarrow> series" where
  "column df c = (case df c of None \<Rightarrow> [] | Some s \<Rightarrow> s)"

definition revenue_aggregate :: "dataframe \<Rightarrow> real" where
  "revenue_aggregate df =
     sum_list (map (\<lambda>(topChannelValue, monthlyRecurringRevenue, newPromotionRevenue).
                      topChannelValue + 3 * monthlyRecurringRevenue + newPromotionRevenue)
                 (zip (column df ''topChannelValue'')
                    (zip (column df ''monthlyRecurringRevenue'')
                       (column df ''newPromotionRevenue''))))"

section \<open>Auxiliary facts\<close>

lemma and_then_Inr [simp]: "and_then (Inr x) f = f x"
  by (simp add: and_then_def)

lemma and_then_Inl [simp]: "and_then (Inl e) f = Inl e"
  by (simp add: and_then_def)

lemma for_each_Inr:
  "(\<And>x. x \<in> set xs \<Longrightarrow> f x = Inr (g x)) \<Longrightarrow> for_each f xs = Inr (map g xs)"
  by (induction xs) simp_all

lemma collect_results_Inr:
  "(\<And>p. p \<in> set ps \<Longrightarrow> body p = Inr (row p)) \<Longrightarrow>
   collect_results body ps results =
     Inr (\<lambda>k. if k \<in> set ps then Some (row k) else results k)"
proof (induction ps arbitrary: results)
  case Nil
  then show ?case by simp
next
  case (Cons p ps)
  have "collect_results body ps (results(p \<mapsto> row p)) =
        Inr (\<lambda>k. if k \<in> set ps then Some (row k) else (results(p \<mapsto> row p)) k)"
    using Cons by simp
  moreover have "(\<lambda>k. if k \<in> set ps then Some (row k) else (results(p \<mapsto> row p)) k) =
        (\<lambda>k. if k \<in> set (p # ps) then Some (row k) else results k)"
    by (rule ext) simp
  ultimately show ?case using Cons.prems by simp
qed

lemma sum_list_map2_add:
  "length xs = length ys \<Longrightarrow> sum_list (map2 (+) xs ys) = sum_list xs + sum_list (ys :: real list)"
  by (induction xs ys rule: list_induct2) simp_all

lemma sum_list_scaled: "sum_list (map (\<lambda>x. x * k) xs) = sum_list xs * (k :: real)"
  by (simp add: sum_list_mult_const)

lemma getitem_Some [simp]: "df c = Some s \<Longrightarrow> getitem df c = Inr s"
  by (simp add: getitem_def)

lemma getitem_None [simp]: "df c = None \<Longrightarrow> getitem df c = Inl KeyError"
  by (simp add: getitem_def)

lemma imul_column_Some: "df c = Some s \<Longrightarrow> imul_column df c k = Inr (df(c \<mapsto> series_mul s k))"
  by (simp add: imul_column_def)

lemma length_series_mul [simp]: "length (series_mul s k) = length s"
  by (simp add: series_mul_def)

lemma series_sum_mul [simp]: "series_sum (series_mul s k) = series_sum s * k"
  by (simp add: series_mul_def series_sum_def sum_list_scaled)

lemma revenue_sum_columns:
  assumes "df ''topChannelValue'' = Some tcv" "df ''monthlyRecurringRevenue'' = Some mrr"
    "df ''newPromotionRevenue'' = Some npr" "length mrr = length tcv" "length npr = length tcv"
  shows "revenue_sum df = Inr (series_sum tcv + 3 * series_sum mrr + series_sum npr)"
  using assms
  by (simp add: revenue_sum_def series_sum_def series_add_def series_mul_def
      sum_list_map2_add sum_list_scaled)

lemma revenue_frame_forecast:
  assumes "revenue_frame df tcv mrr npr"
  shows "getitem df ''revenueForecast'' = Inr fc \<Longrightarrow>
         series_sum fc = series_sum tcv + 3 * series_sum mrr + series_sum npr"
  using assms
  by (auto simp: revenue_frame_def series_sum_def series_add_def series_mul_def
      sum_list_map2_add sum_list_scaled)

text \<open>The total revenue after one of the three revenue columns is scaled by \<open>k\<close>.\<close>

lemma modified_revenue_tcv:
  assumes "revenue_frame df tcv mrr npr"
  shows "and_then (imul_column df ''topChannelValue'' k) revenue_sum =
         Inr (series_sum tcv * k + 3 * series_sum mrr + series_sum npr)"
proof -
  from assms have c: "df ''topChannelValue'' = Some tcv" by (simp add: revenue_frame_def)
  have "revenue_sum (df(''topChannelValue'' \<mapsto> series_mul tcv k)) =
        Inr (series_sum (series_mul tcv k) + 3 * series_sum mrr + series_sum npr)"
    using assms by (intro revenue_sum_columns) (simp_all add: revenue_frame_def)
  then show ?thesis using c by (simp add: imul_column_Some)
qed

lemma modified_revenue_mrr:
  assumes "revenue_frame df tcv mrr npr"
  shows "and_then (imul_column df ''monthlyRecurringRevenue'' k) revenue_sum =
         Inr (series_sum tcv + 3 * (series_sum mrr * k) + series_sum npr)"
proof -
  from assms have c: "df ''monthlyRecurringRevenue'' = Some mrr" by (simp add: revenue_frame_def)
  have "revenue_sum (df(''monthlyRecurringRevenue'' \<mapsto> series_mul mrr k)) =
        Inr (series_sum tcv + 3 * series_sum (series_mul mrr k) + series_sum npr)"
    using assms by (intro revenue_sum_columns) (simp_all add: revenue_frame_def)
  then show ?thesis using c by (simp add: imul_column_Some)
qed

lemma modified_revenue_npr:
  assumes "revenue_frame df tcv mrr npr"
  shows "and_then (imul_column df ''newPromotionRevenue'' k) revenue_sum =
         Inr (series_sum tcv + 3 * series_sum mrr + series_sum npr * k)"
proof -
  from assms have c: "df ''newPromotionRevenue'' = Some npr" by (simp add: revenue_frame_def)
  have "revenue_sum (df(''newPromotionRevenue'' \<mapsto> series_mul npr k)) =
        Inr (series_sum tcv + 3 * series_sum mrr + series_sum (series_mul npr k))"
    using assms by (intro revenue_sum_columns) (simp_all add: revenue_frame_def)
  then show ?thesis using c by (simp add: imul_column_Some)
qed

lemma perturbation_simps:
  "perturbation ''topChannelValue'' v = Inr (''topChannelValue'', 1 + v / 100)"
  "perturbation ''monthlyRecurringRevenue'' v = Inr (''monthlyRecurringRevenue'', 1 + v / 100)"
  "perturbation ''newPromotionRevenue'' v = Inr (''newPromotionRevenue'', 1 + v / 100)"
  "perturbation ''customerAcquisitionCost'' v = Inr (''newPromotionRevenue'', 1 - v / 100)"
  "perturbation ''customerLifetimeValue'' v = Inr (''monthlyRecurringRevenue'', 1 + v / 100)"
  "perturbation ''inventoryTurnover'' v = Inr (''topChannelValue'', 1 + v / 200)"
  by (simp_all add: perturbation_def)


lemma percent_change_nonzero:
  "b \<noteq> 0 \<Longrightarrow> percent_change m b = Finite ((m - b) / b * 100)"
  by (simp add: percent_change_def np_truediv_def)

lemma percent_change_zero:
  "percent_change m 0 = (if m = 0 then NaN else if 0 < m then PosInf else NegInf)"
  by (simp add: percent_change_def np_truediv_def)

lemma modified_revenue_closed:
  assumes "revenue_frame df tcv mrr npr"
    and "b = series_sum tcv + 3 * series_sum mrr + series_sum npr"
  shows "modified_revenue df ''topChannelValue'' v = Inr (b + v * series_sum tcv / 100)"
    and "modified_revenue df ''monthlyRecurringRevenue'' v = Inr (b + v * (3 * series_sum mrr) / 100)"
    and "modified_revenue df ''newPromotionRevenue'' v = Inr (b + v * series_sum npr / 100)"
    and "modified_revenue df ''customerAcquisitionCost'' v = Inr (b - v * series_sum npr / 100)"
    and "modified_revenue df ''customerLifetimeValue'' v = Inr (b + v * (3 * series_sum mrr) / 100)"
    and "modified_revenue df ''inventoryTurnover'' v = Inr (b + v * series_sum tcv / 200)"
  using assms(2)
  by (simp_all add: modified_revenue_def modified_data_def perturbation_simps
      modified_revenue_tcv [OF assms(1)] modified_revenue_mrr [OF assms(1)]
      modified_revenue_npr [OF assms(1)] algebra_simps)

lemma param_results_closed:
  assumes "\<And>v. modified_revenue df p v = Inr (m v)"
  shows "param_results df b p = Inr (map (\<lambda>v. percent_change (m v) b) variations)"
  unfolding param_results_def by (rule for_each_Inr) (simp add: assms)


lemma modified_revenue_total:
  assumes "revenue_frame df tcv mrr npr" and "p \<in> set revenue_parameters"
  shows "modified_revenue df p v = Inr (projr (modified_revenue df p v))"
  using assms(2) modified_revenue_closed [OF assms(1) refl, of v]
  by (auto simp: revenue_parameters_def)

lemma revenue_table:
  assumes "revenue_frame df tcv mrr npr"
    and "b = series_sum tcv + 3 * series_sum mrr + series_sum npr"
  shows "perform_sensitivity_analysis df =
     Inr (\<lambda>k. if k \<in> set revenue_parameters
               then Some (map (\<lambda>v. percent_change (projr (modified_revenue df k v)) b) variations)
               else None)"
proof -
  have fc: "df ''revenueForecast'' = Some (series_add (series_add tcv (series_mul mrr 3)) npr)"
    using assms(1) by (simp add: revenue_frame_def)
  have b: "series_sum (series_add (series_add tcv (series_mul mrr 3)) npr) = b"
    using assms revenue_frame_forecast [OF assms(1), of "series_add (series_add tcv (series_mul mrr 3)) npr"] fc
    by simp
  have "collect_results (param_results df b) revenue_parameters Map.empty =
     Inr (\<lambda>k. if k \<in> set revenue_parameters
               then Some (map (\<lambda>v. percent_change (projr (modified_revenue df k v)) b) variations)
               else Map.empty k)"
    by (rule collect_results_Inr, rule param_results_closed)
       (rule modified_revenue_total [OF assms(1)])
  then show ?thesis
    using fc b by (simp add: perform_sensitivity_analysis_def)
qed

lemma in_revenue_parameters:
  "''topChannelValue'' \<in> set revenue_parameters"
  "''monthlyRecurringRevenue'' \<in> set revenue_parameters"
  "''newPromotionRevenue'' \<in> set revenue_parameters"
  "''customerAcquisitionCost'' \<in> set revenue_parameters"
  "''customerLifetimeValue'' \<in> set revenue_parameters"
  "''inventoryTurnover'' \<in> set revenue_parameters"
  by (simp_all add: revenue_parameters_def)

lemma for_each_modified_revenue:
  assumes "revenue_frame df tcv mrr npr" and "p \<in> set revenue_parameters"
  shows "for_each (modified_revenue df p) variations =
         Inr (map (\<lambda>v. projr (modified_revenue df p v)) variations)"
  by (rule for_each_Inr) (rule modified_revenue_total [OF assms])


lemma sample_frame_shape: "revenue_frame sample_frame [100, 200] [10, 20] [30, 40]"
  by (simp add: revenue_frame_def sample_frame_def series_add_def series_mul_def)

lemma zero_frame_shape: "revenue_frame zero_frame [0, 0] [0, 0] [0, 0]"
  by (simp add: revenue_frame_def zero_frame_def series_add_def series_mul_def)

lemma percent_change_zero_cases: "percent_change m 0 \<in> {NaN, PosInf, NegInf}"
  by (simp add: percent_change_zero)

lemma imul_column_other:
  "imul_column df c k = Inr md \<Longrightarrow> B \<noteq> c \<Longrightarrow> md B = df B"
  by (auto simp: imul_column_def getitem_def and_then_def split: option.splits)



subsection \<open>Python numbers and numpy scalars\<close>

lemma py_zero_iff: "x = py 0 \<longleftrightarrow> \<not> numpy x \<and> amount x = Finite 0"
  by (cases x) (simp add: py_def)

lemma truediv_Inr: "y \<noteq> py 0 \<Longrightarrow> truediv x y = Inr (x / y)"
  by (simp add: truediv_def py_zero_iff)

lemma truediv_py_zero: "\<not> numpy x \<Longrightarrow> truediv x (py 0) = Inl ZeroDivisionError"
  by (simp add: truediv_def py_def)

lemma numpy_arith [simp]:
  "numpy (x + y) = (numpy x \<or> numpy y)" "numpy (x - y) = (numpy x \<or> numpy y)"
  "numpy (x * y) = (numpy x \<or> numpy y)" "numpy (x / y) = (numpy x \<or> numpy y)"
  "numpy (py a) = False" "numpy (np a) = True"
  by (simp_all add: plus_number_def minus_number_def times_number_def divide_number_def
      py_def np_def)

lemma amount_arith:
  "amount (x + y) = amount x + amount y" "amount (x - y) = amount x - amount y"
  "amount (x * y) = amount x * amount y" "amount (x / y) = amount x / amount y"
  "amount (py a) = Finite a" "amount (np a) = Finite a"
  by (simp_all add: plus_number_def minus_number_def times_number_def divide_number_def
      py_def np_def)

lemma py_arith:
  "py a + py b = py (a + b)" "py a - py b = py (a - b)" "py a * py b = py (a * b)"
  "np a + py b = np (a + b)" "np a - py b = np (a - b)" "np a * py b = np (a * b)"
  "py a + np b = np (a + b)" "py a - np b = np (a - b)" "py a * np b = np (a * b)"
  "np a + np b = np (a + b)" "np a - np b = np (a - b)" "np a * np b = np (a * b)"
  by (simp_all add: plus_number_def minus_number_def times_number_def py_def np_def
      minus_npfloat_def)

lemma py_divide:
  "b \<noteq> 0 \<Longrightarrow> py a / py b = py (a / b)" "b \<noteq> 0 \<Longrightarrow> np a / py b = np (a / b)"
  "b \<noteq> 0 \<Longrightarrow> py a / np b = np (a / b)" "b \<noteq> 0 \<Longrightarrow> np a / np b = np (a / b)"
  by (simp_all add: divide_number_def py_def np_def np_truediv_def)

lemma py_eq_iff [simp]: "py a = py b \<longleftrightarrow> a = b" "np a = np b \<longleftrightarrow> a = b" "py a \<noteq> np b" "np a \<noteq> py b"
  by (simp_all add: py_def np_def)

lemma times_py_nonzero: "x \<noteq> py 0 \<Longrightarrow> f \<noteq> 0 \<Longrightarrow> x * py f \<noteq> py 0"
  by (cases x; cases "amount x") (auto simp: py_def times_number_def)

lemma truediv_py_py: "b \<noteq> 0 \<Longrightarrow> truediv (py a) (py b) = Inr (py (a / b))"
  by (simp add: truediv_Inr py_divide)

subsection \<open>The cashflow analysis\<close>

lemma item_Some [simp]: "nums q k = Some x \<Longrightarrow> item q k = Inr x"
  by (simp add: item_def)

lemma item_None [simp]: "nums q k = None \<Longrightarrow> item q k = Inl KeyError"
  by (simp add: item_def)

lemma cashflow_ready_keys:
  assumes "cashflow_ready q"
  shows "\<exists>sr ard cp rm lc apd cx oe dr tp dp.
     nums q ''salesRevenue'' = Some sr \<and> nums q ''accountsReceivableDays'' = Some ard \<and>
     nums q ''customerPrepayments'' = Some cp \<and> nums q ''rawMaterialCosts'' = Some rm \<and>
     nums q ''laborCosts'' = Some lc \<and> nums q ''accountsPayableDays'' = Some apd \<and>
     nums q ''capex'' = Some cx \<and> nums q ''operatingExpenses'' = Some oe \<and>
     nums q ''debtRepayments'' = Some dr \<and> nums q ''taxPayments'' = Some tp \<and>
     nums q ''dividendPayments'' = Some dp \<and> ard \<noteq> py 0 \<and> apd \<noteq> py 0"
proof -
  have "nums q ''salesRevenue'' \<noteq> None" "nums q ''accountsReceivableDays'' \<noteq> None"
    "nums q ''customerPrepayments'' \<noteq> None" "nums q ''rawMaterialCosts'' \<noteq> None"
    "nums q ''laborCosts'' \<noteq> None" "nums q ''accountsPayableDays'' \<noteq> None"
    "nums q ''capex'' \<noteq> None" "nums q ''operatingExpenses'' \<noteq> None"
    "nums q ''debtRepayments'' \<noteq> None" "nums q ''taxPayments'' \<noteq> None"
    "nums q ''dividendPayments'' \<noteq> None"
    using assms by (simp_all add: cashflow_ready_def cashflow_parameters_def)
  moreover have "nums q ''accountsReceivableDays'' \<noteq> Some (py 0)"
    "nums q ''accountsPayableDays'' \<noteq> Some (py 0)"
    using assms by (simp_all add: cashflow_ready_def)
  ultimately show ?thesis by fastforce
qed

lemma quarter_cashflow_ready:
  assumes "cashflow_ready q"
  shows "\<exists>e. quarter_cashflow q vp = Inr e \<and> entry_quarter e = quarter q \<and>
             numpy (netCashflow e) = reads_numpy q"
proof -
  obtain sr ard cp rm lc apd cx oe dr tp dp where
    "nums q ''salesRevenue'' = Some sr" "nums q ''accountsReceivableDays'' = Some ard"
    "nums q ''customerPrepayments'' = Some cp" "nums q ''rawMaterialCosts'' = Some rm"
    "nums q ''laborCosts'' = Some lc" "nums q ''accountsPayableDays'' = Some apd"
    "nums q ''capex'' = Some cx" "nums q ''operatingExpenses'' = Some oe"
    "nums q ''debtRepayments'' = Some dr" "nums q ''taxPayments'' = Some tp"
    "nums q ''dividendPayments'' = Some dp" "ard \<noteq> py 0" "apd \<noteq> py 0"
    using cashflow_ready_keys [OF assms] by blast
  then show ?thesis
    by (simp add: quarter_cashflow_def Let_def truediv_Inr reads_numpy_def cashflow_reads_def
        disj_commute disj_left_commute)
qed

lemma quarter_cashflow_total:
  assumes "cashflow_ready q"
  shows "\<exists>e. quarter_cashflow q vp = Inr e"
  using quarter_cashflow_ready [OF assms] by blast

lemma scaled_quarter_Some:
  "nums q p = Some x \<Longrightarrow>
   scaled_quarter p f q = Inr (q\<lparr>nums := (nums q)(p \<mapsto> x * py f)\<rparr>)"
  by (simp add: scaled_quarter_def)

lemma scaled_quarter_Inr_D:
  assumes "scaled_quarter p f q = Inr q'"
  shows "\<exists>x. nums q p = Some x \<and> q' = q\<lparr>nums := (nums q)(p \<mapsto> x * py f)\<rparr>"
  using assms by (auto simp: scaled_quarter_def item_def split: option.splits)

lemma scaled_quarter_ready:
  assumes "cashflow_ready q" and "f \<noteq> 0" and "scaled_quarter p f q = Inr q'"
  shows "cashflow_ready q'"
proof -
  from assms(3) obtain x where x: "nums q p = Some x" and q': "q' = q\<lparr>nums := (nums q)(p \<mapsto> x * py f)\<rparr>"
    using scaled_quarter_Inr_D by blast
  have "x * py f \<noteq> py 0" if "p = ''accountsReceivableDays'' \<or> p = ''accountsPayableDays''"
  proof -
    have "x \<noteq> py 0" using that assms(1) x by (auto simp: cashflow_ready_def)
    then show ?thesis using assms(2) by (rule times_py_nonzero)
  qed
  then show ?thesis
    using assms(1) unfolding q' cashflow_ready_def by auto
qed

text \<open>Scaling a value other than a day count keeps the quarter ready, whatever the
  factor.\<close>

lemma scaled_quarter_ready_amount:
  assumes "cashflow_ready q" and "p \<noteq> ''accountsReceivableDays''" and "p \<noteq> ''accountsPayableDays''"
    and "scaled_quarter p f q = Inr q'"
  shows "cashflow_ready q'"
proof -
  from assms(4) obtain x where x: "nums q p = Some x" and q': "q' = q\<lparr>nums := (nums q)(p \<mapsto> x * py f)\<rparr>"
    using scaled_quarter_Inr_D by blast
  show ?thesis
    using assms(1,2,3) unfolding q' cashflow_ready_def by auto
qed

lemma scaled_quarter_numpy:
  assumes "scaled_quarter p f q = Inr q'"
  shows "reads_numpy q' = reads_numpy q"
proof -
  from assms obtain x where x: "nums q p = Some x" and q': "q' = q\<lparr>nums := (nums q)(p \<mapsto> x * py f)\<rparr>"
    using scaled_quarter_Inr_D by blast
  have "(\<exists>y. nums q' k = Some y \<and> numpy y) = (\<exists>y. nums q k = Some y \<and> numpy y)" for k
    using x unfolding q' by (cases "k = p") simp_all
  then show ?thesis unfolding reads_numpy_def by simp
qed

lemma for_each_total:
  "(\<And>x. x \<in> set xs \<Longrightarrow> \<exists>y. f x = Inr y) \<Longrightarrow> \<exists>ys. for_each f xs = Inr ys"
proof (induction xs)
  case Nil
  then show ?case by simp
next
  case (Cons x xs)
  then obtain y ys where "f x = Inr y" "for_each f xs = Inr ys"
    by (meson list.set_intros)
  then show ?case by simp
qed

lemma for_each_Inr_D:
  "for_each f xs = Inr ys \<Longrightarrow> length ys = length xs \<and> (\<forall>i<length xs. f (xs ! i) = Inr (ys ! i))"
proof (induction xs arbitrary: ys)
  case Nil
  then show ?case by simp
next
  case (Cons x xs)
  then obtain y ys' where s: "f x = Inr y" "for_each f xs = Inr ys'" "ys = y # ys'"
    by (auto simp: and_then_def split: sum.splits)
  with Cons.IH [OF s(2)] show ?case
    by (auto simp: nth_Cons split: nat.splits)
qed

lemma for_each_cong_Inr:
  assumes "for_each g xs = Inr ys" and "\<And>x y. x \<in> set xs \<Longrightarrow> g x = Inr y \<Longrightarrow> f y = f' x"
  shows "for_each f ys = for_each f' xs"
  using assms
proof (induction xs arbitrary: ys)
  case Nil
  then show ?case by simp
next
  case (Cons x xs)
  then obtain y ys' where s: "g x = Inr y" "for_each g xs = Inr ys'" "ys = y # ys'"
    by (auto simp: and_then_def split: sum.splits)
  have "for_each f ys' = for_each f' xs"
    using Cons.IH [OF s(2)] Cons.prems(2) by simp
  moreover have "f y = f' x" using Cons.prems(2) s(1) by simp
  ultimately show ?case using s(3) by simp
qed

text \<open>A loop over the results of a loop: a property every step gives its result holds
  for the whole list.\<close>

lemma for_each_list_all2:
  assumes "for_each f xs = Inr ys" and "\<And>x y. x \<in> set xs \<Longrightarrow> f x = Inr y \<Longrightarrow> P x y"
  shows "list_all2 P xs ys"
  using assms
proof (induction xs arbitrary: ys)
  case Nil
  then show ?case by simp
next
  case (Cons x xs)
  then obtain y ys' where s: "f x = Inr y" "for_each f xs = Inr ys'" "ys = y # ys'"
    by (auto simp: and_then_def split: sum.splits)
  have "list_all2 P xs ys'" using Cons.IH [OF s(2)] Cons.prems(2) by simp
  moreover have "P x y" using Cons.prems(2) s(1) by simp
  ultimately show ?case using s(3) by simp
qed

lemma list_all2_ex_iff:
  "list_all2 (\<lambda>x y. Q y = P x) xs ys \<Longrightarrow> (\<exists>y\<in>set ys. Q y) = (\<exists>x\<in>set xs. P x)"
  by (induction rule: list_all2_induct) auto

lemma scaled_data_ready:
  assumes "\<forall>q\<in>set base. cashflow_ready q" and "f \<noteq> 0"
    and "for_each (scaled_quarter p f) base = Inr d"
  shows "\<forall>q\<in>set d. cashflow_ready q"
proof -
  have "list_all2 (\<lambda>q q'. cashflow_ready q') base d"
    by (rule for_each_list_all2 [OF assms(3)]) (use assms(1,2) scaled_quarter_ready in blast)
  then show ?thesis by (auto simp: list_all2_conv_all_nth in_set_conv_nth)
qed

lemma scaled_data_ready_amount:
  assumes "\<forall>q\<in>set base. cashflow_ready q"
    and "p \<noteq> ''accountsReceivableDays''" and "p \<noteq> ''accountsPayableDays''"
    and "for_each (scaled_quarter p f) base = Inr d"
  shows "\<forall>q\<in>set d. cashflow_ready q"
proof -
  have "list_all2 (\<lambda>q q'. cashflow_ready q') base d"
    by (rule for_each_list_all2 [OF assms(4)])
      (use assms(1,2,3) scaled_quarter_ready_amount in blast)
  then show ?thesis by (auto simp: list_all2_conv_all_nth in_set_conv_nth)
qed

lemma scaled_data_numpy:
  assumes "for_each (scaled_quarter p f) base = Inr d"
  shows "(\<exists>q\<in>set d. reads_numpy q) = (\<exists>q\<in>set base. reads_numpy q)"
proof -
  have "list_all2 (\<lambda>q q'. reads_numpy q' = reads_numpy q) base d"
    by (rule for_each_list_all2 [OF assms]) (use scaled_quarter_numpy in blast)
  then show ?thesis by (rule list_all2_ex_iff)
qed

lemma scaled_data_total:
  assumes "\<forall>q\<in>set base. cashflow_ready q" and "p \<in> set cashflow_parameters"
  shows "\<exists>d. for_each (scaled_quarter p f) base = Inr d"
proof (rule for_each_total)
  fix q assume "q \<in> set base"
  then have "nums q p \<noteq> None" using assms by (auto simp: cashflow_ready_def)
  then show "\<exists>y. scaled_quarter p f q = Inr y"
    by (auto simp: scaled_quarter_Some)
qed

lemma numpy_foldl_plus:
  "numpy (foldl (+) a xs) = (numpy a \<or> (\<exists>x\<in>set xs. numpy x))"
  by (induction xs arbitrary: a) auto

lemma net_cashflow_total_ready:
  assumes "\<forall>q\<in>set d. cashflow_ready q"
  shows "\<exists>a. net_cashflow_total d = Inr a \<and> numpy a = (\<exists>q\<in>set d. reads_numpy q)"
proof -
  obtain cf where cf: "calculate_cashflow d 0 = Inr cf"
    using for_each_total [of d "\<lambda>q. quarter_cashflow q 0"] assms quarter_cashflow_total
    unfolding calculate_cashflow_def by blast
  have "list_all2 (\<lambda>q e. numpy (netCashflow e) = reads_numpy q) d cf"
  proof (rule for_each_list_all2 [OF cf [unfolded calculate_cashflow_def]])
    fix q e assume "q \<in> set d" "quarter_cashflow q 0 = Inr e"
    then show "numpy (netCashflow e) = reads_numpy q"
      using quarter_cashflow_ready [of q 0] assms by auto
  qed
  then have "(\<exists>e\<in>set cf. numpy (netCashflow e)) = (\<exists>q\<in>set d. reads_numpy q)"
    by (rule list_all2_ex_iff)
  then show ?thesis
    using cf by (simp add: net_cashflow_total_def total_net_cashflow_def numpy_foldl_plus)
qed

text \<open>The value stored for a parameter, from the three totals: line 113 raises only when
  the base total is the Python number 0 and the increased total is a Python number.\<close>

lemma param_impact_Inr:
  assumes "increased_data base p v = Inr di" and "decreased_data base p v = Inr dd"
    and "net_cashflow_total base = Inr b" and "net_cashflow_total di = Inr ai"
    and "net_cashflow_total dd = Inr ad" and "b \<noteq> py 0"
  shows "param_impact base v p =
         Inr \<lparr>increased = (ai - b) / b * py 100, decreased = (ad - b) / b * py 100\<rparr>"
  using assms
  by (auto simp: param_impact_def percentage_impacts_def net_cashflow_total_def and_then_def
      truediv_Inr Let_def split: sum.splits)

lemma param_impact_zero_base:
  assumes "increased_data base p v = Inr di" and "decreased_data base p v = Inr dd"
    and "net_cashflow_total base = Inr (py 0)" and "net_cashflow_total di = Inr ai"
    and "net_cashflow_total dd = Inr ad" and "\<not> numpy ai"
  shows "param_impact base v p = Inl ZeroDivisionError"
  using assms
  by (auto simp: param_impact_def percentage_impacts_def net_cashflow_total_def and_then_def
      truediv_py_zero Let_def split: sum.splits)

lemma cashflow_param_impact:
  assumes "\<forall>q\<in>set base. cashflow_ready q"
    and "1 + v / 100 \<noteq> 0" and "1 - v / 100 \<noteq> 0"
    and "net_cashflow_total base = Inr b" and "b \<noteq> py 0"
    and "p \<in> set cashflow_parameters"
  shows "\<exists>di dd ai ad.
     increased_data base p v = Inr di \<and> decreased_data base p v = Inr dd \<and>
     net_cashflow_total di = Inr ai \<and> net_cashflow_total dd = Inr ad \<and>
     param_impact base v p =
       Inr \<lparr>increased = (ai - b) / b * py 100, decreased = (ad - b) / b * py 100\<rparr>"
proof -
  obtain di where di: "increased_data base p v = Inr di"
    using scaled_data_total [OF assms(1,6)] unfolding increased_data_def by blast
  obtain dd where dd: "decreased_data base p v = Inr dd"
    using scaled_data_total [OF assms(1,6)] unfolding decreased_data_def by blast
  have "\<forall>q\<in>set di. cashflow_ready q"
    using scaled_data_ready [OF assms(1,2)] di unfolding increased_data_def by blast
  then obtain ai where ai: "net_cashflow_total di = Inr ai"
    using net_cashflow_total_ready by blast
  have "\<forall>q\<in>set dd. cashflow_ready q"
    using scaled_data_ready [OF assms(1,3)] dd unfolding decreased_data_def by blast
  then obtain ad where ad: "net_cashflow_total dd = Inr ad"
    using net_cashflow_total_ready by blast
  show ?thesis
    using param_impact_Inr [OF di dd assms(4) ai ad assms(5)] di dd ai ad by blast
qed

lemma cashflow_table:
  assumes "\<forall>q\<in>set base. cashflow_ready q"
    and "1 + v / 100 \<noteq> 0" and "1 - v / 100 \<noteq> 0"
    and "net_cashflow_total base = Inr b" and "b \<noteq> py 0"
  shows "cashflow_sensitivity_analysis base v =
     Inr (\<lambda>k. if k \<in> set cashflow_parameters then Some (projr (param_impact base v k)) else None)"
proof -
  have "collect_results (param_impact base v) cashflow_parameters Map.empty =
     Inr (\<lambda>k. if k \<in> set cashflow_parameters then Some (projr (param_impact base v k))
               else Map.empty k)"
  proof (rule collect_results_Inr)
    fix p assume "p \<in> set cashflow_parameters"
    from cashflow_param_impact [OF assms this]
    show "param_impact base v p = Inr (projr (param_impact base v p))" by auto
  qed
  then show ?thesis by (simp add: cashflow_sensitivity_analysis_def)
qed

text \<open>With a base total that is the Python number 0, the first iteration (for
  \<^verbatim>\<open>salesRevenue\<close>) raises, whatever the variation.\<close>

lemma cashflow_zero_python:
  assumes "\<forall>q\<in>set base. cashflow_ready q" and "net_cashflow_total base = Inr (py 0)"
  shows "cashflow_sensitivity_analysis base v = Inl ZeroDivisionError"
proof -
  have p: "''salesRevenue'' \<in> set cashflow_parameters" by (simp add: cashflow_parameters_def)
  obtain di where di: "increased_data base ''salesRevenue'' v = Inr di"
    using scaled_data_total [OF assms(1) p] unfolding increased_data_def by blast
  obtain dd where dd: "decreased_data base ''salesRevenue'' v = Inr dd"
    using scaled_data_total [OF assms(1) p] unfolding decreased_data_def by blast
  have "\<forall>q\<in>set di. cashflow_ready q"
    by (rule scaled_data_ready_amount [OF assms(1) _ _ di [unfolded increased_data_def]]) simp_all
  then obtain ai where ai: "net_cashflow_total di = Inr ai"
    and nai: "numpy ai = (\<exists>q\<in>set di. reads_numpy q)"
    using net_cashflow_total_ready by blast
  have "\<forall>q\<in>set dd. cashflow_ready q"
    by (rule scaled_data_ready_amount [OF assms(1) _ _ dd [unfolded decreased_data_def]]) simp_all
  then obtain ad where ad: "net_cashflow_total dd = Inr ad"
    using net_cashflow_total_ready by blast
  have "numpy (py 0) = (\<exists>q\<in>set base. reads_numpy q)"
    using net_cashflow_total_ready [OF assms(1)] assms(2) by auto
  then have "\<not> numpy ai"
    using nai scaled_data_numpy [OF di [unfolded increased_data_def]] by simp
  then have "param_impact base v ''salesRevenue'' = Inl ZeroDivisionError"
    by (rule param_impact_zero_base [OF di dd assms(2) ai ad])
  then show ?thesis
    by (simp add: cashflow_sensitivity_analysis_def cashflow_parameters_def)
qed

lemma quarter_cashflow_unused:
  assumes "p \<in> {''inventoryTurnover'', ''seasonalFactor'', ''supplierCreditDays'', ''fxRate''}"
  shows "quarter_cashflow (q\<lparr>nums := (nums q)(p \<mapsto> x)\<rparr>) vp = quarter_cashflow q vp"
  using assms by (elim insertE emptyE) (simp_all add: quarter_cashflow_def item_def)

lemma net_cashflow_total_unused:
  assumes "p \<in> {''inventoryTurnover'', ''seasonalFactor'', ''supplierCreditDays'', ''fxRate''}"
    and "for_each (scaled_quarter p f) base = Inr d"
  shows "net_cashflow_total d = net_cashflow_total base"
proof -
  have "for_each (\<lambda>q. quarter_cashflow q 0) d = for_each (\<lambda>q. quarter_cashflow q 0) base"
  proof (rule for_each_cong_Inr [OF assms(2)])
    fix q q' assume "scaled_quarter p f q = Inr q'"
    then obtain x where "q' = q\<lparr>nums := (nums q)(p \<mapsto> x)\<rparr>"
      using scaled_quarter_Inr_D by blast
    then show "quarter_cashflow q' 0 = quarter_cashflow q 0"
      using quarter_cashflow_unused [OF assms(1)] by simp
  qed
  then show ?thesis by (simp add: net_cashflow_total_def calculate_cashflow_def)
qed

lemma unused_in_parameters:
  "p \<in> {''inventoryTurnover'', ''seasonalFactor'', ''supplierCreditDays'', ''fxRate''}
   \<Longrightarrow> p \<in> set cashflow_parameters"
  by (elim insertE emptyE) (simp_all add: cashflow_parameters_def)

text \<open>The percentage of a finite nonzero base total, and of the numpy scalar 0.\<close>

lemma percentage_finite:
  assumes "amount a = Finite x" and "amount b = Finite r" and "r \<noteq> 0"
  shows "(a - b) / b * py 100 = Number (numpy a \<or> numpy b) (Finite ((x - r) / r * 100))"
  using assms
  by (simp add: minus_number_def divide_number_def times_number_def py_def minus_npfloat_def
      np_truediv_def)

lemma percentage_of_zero:
  assumes "amount b = Finite 0"
  shows "amount ((a - b) / b * py 100) \<in> {NaN, PosInf, NegInf}"
  using assms
  by (cases "amount a")
    (simp_all add: minus_number_def divide_number_def times_number_def py_def minus_npfloat_def
      np_truediv_def)

subsection \<open>The sample quarters\<close>

lemma flat_quarter_ready: "cashflow_ready (flat_quarter l r c)"
  by (simp add: cashflow_ready_def cashflow_parameters_def flat_quarter_def)

lemma flat_quarter_cashflow:
  "quarter_cashflow (flat_quarter l (py r) (py c)) 0 = Inr \<lparr>entry_quarter = l, netCashflow = py (r - c)\<rparr>"
  "quarter_cashflow (flat_quarter l (np r) (py c)) 0 = Inr \<lparr>entry_quarter = l, netCashflow = np (r - c)\<rparr>"
  by (simp_all add: quarter_cashflow_def flat_quarter_def item_def truediv_py_py py_arith)

lemma flat_quarter_scaled:
  "scaled_quarter ''salesRevenue'' f (flat_quarter l r c) = Inr (flat_quarter l (r * py f) c)"
  "scaled_quarter ''rawMaterialCosts'' f (flat_quarter l r c) = Inr (flat_quarter l r (c * py f))"
  by (simp_all add: scaled_quarter_def flat_quarter_def item_def fun_upd_twist)

lemma scenario_total: "net_cashflow_total scenario_data = Inr (py 120)"
  by (simp add: net_cashflow_total_def calculate_cashflow_def scenario_data_def
      flat_quarter_cashflow total_net_cashflow_def py_arith)

lemma scenario_revenue:
  "param_impact scenario_data 10 ''salesRevenue'' =
     Inr \<lparr>increased = py (50 / 3), decreased = py (- (50 / 3))\<rparr>"
  by (simp add: param_impact_def percentage_impacts_def increased_data_def decreased_data_def
      scenario_data_def flat_quarter_scaled calculate_cashflow_def flat_quarter_cashflow
      total_net_cashflow_def py_arith truediv_py_py)

lemma scenario_cost:
  "param_impact scenario_data 10 ''rawMaterialCosts'' =
     Inr \<lparr>increased = py (- (20 / 3)), decreased = py (20 / 3)\<rparr>"
  by (simp add: param_impact_def percentage_impacts_def increased_data_def decreased_data_def
      scenario_data_def flat_quarter_scaled calculate_cashflow_def flat_quarter_cashflow
      total_net_cashflow_def py_arith truediv_py_py)

lemma break_even_total: "net_cashflow_total break_even_data = Inr (py 0)"
  by (simp add: net_cashflow_total_def calculate_cashflow_def break_even_data_def
      flat_quarter_cashflow total_net_cashflow_def py_arith)

lemma numpy_break_even_total: "net_cashflow_total numpy_break_even_data = Inr (np 0)"
  by (simp add: net_cashflow_total_def calculate_cashflow_def numpy_break_even_data_def
      flat_quarter_cashflow total_net_cashflow_def py_arith)

lemma scaled_quarter_other:
  "scaled_quarter A f q = Inr q' \<Longrightarrow> B \<noteq> A \<Longrightarrow> nums q' B = nums q B \<and> quarter q' = quarter q"
  by (auto simp: scaled_quarter_def item_def and_then_def split: option.splits)

subsection \<open>The perturbed series of the specification\<close>

lemma sum_list_weighted:
  "length ms = length ts \<Longrightarrow> length ns = length ts \<Longrightarrow>
   sum_list (map (\<lambda>(t, m, n). t + 3 * m + n) (zip ts (zip ms ns)))
     = sum_list ts + 3 * sum_list ms + sum_list (ns :: real list)"
proof (induction ts arbitrary: ms ns)
  case Nil
  then show ?case by simp
next
  case (Cons t ts)
  then obtain m ms' n ns' where "ms = m # ms'" "ns = n # ns'"
    by (metis length_Suc_conv)
  with Cons show ?case by (simp add: algebra_simps)
qed

lemma revenue_aggregate_columns:
  assumes "df ''topChannelValue'' = Some tcv" "df ''monthlyRecurringRevenue'' = Some mrr"
    "df ''newPromotionRevenue'' = Some npr" "length mrr = length tcv" "length npr = length tcv"
  shows "revenue_aggregate df = series_sum tcv + 3 * series_sum mrr + series_sum npr"
  using assms by (simp add: revenue_aggregate_def column_def series_sum_def sum_list_weighted)

lemma revenue_aggregate_frame:
  assumes "revenue_frame df tcv mrr npr"
  shows "revenue_aggregate df = series_sum tcv + 3 * series_sum mrr + series_sum npr"
  using assms by (intro revenue_aggregate_columns) (simp_all add: revenue_frame_def)

lemma revenue_aggregate_perturbed:
  assumes "revenue_frame df tcv mrr npr"
    and "b = series_sum tcv + 3 * series_sum mrr + series_sum npr"
  shows "revenue_aggregate (perturbed_frame df ''topChannelValue'' L) = b + L * series_sum tcv / 100"
    and "revenue_aggregate (perturbed_frame df ''monthlyRecurringRevenue'' L)
           = b + L * (3 * series_sum mrr) / 100"
    and "revenue_aggregate (perturbed_frame df ''newPromotionRevenue'' L) = b + L * series_sum npr / 100"
proof -
  have c: "df ''topChannelValue'' = Some tcv" "df ''monthlyRecurringRevenue'' = Some mrr"
    "df ''newPromotionRevenue'' = Some npr" "length mrr = length tcv" "length npr = length tcv"
    using assms(1) by (simp_all add: revenue_frame_def)
  have s: "series_sum (map (\<lambda>x. x * k) xs) = series_sum xs * k" for k xs
    by (simp add: series_sum_def sum_list_scaled)
  have "revenue_aggregate (perturbed_frame df ''topChannelValue'' L)
          = series_sum (map (\<lambda>x. x * (1 + L / 100)) tcv) + 3 * series_sum mrr + series_sum npr"
    by (rule revenue_aggregate_columns) (use c in \<open>simp_all add: perturbed_frame_def\<close>)
  then show "revenue_aggregate (perturbed_frame df ''topChannelValue'' L) = b + L * series_sum tcv / 100"
    unfolding s assms(2) by (simp add: algebra_simps)
  have "revenue_aggregate (perturbed_frame df ''monthlyRecurringRevenue'' L)
          = series_sum tcv + 3 * series_sum (map (\<lambda>x. x * (1 + L / 100)) mrr) + series_sum npr"
    by (rule revenue_aggregate_columns) (use c in \<open>simp_all add: perturbed_frame_def\<close>)
  then show "revenue_aggregate (perturbed_frame df ''monthlyRecurringRevenue'' L)
           = b + L * (3 * series_sum mrr) / 100"
    unfolding s assms(2) by (simp add: algebra_simps)
  have "revenue_aggregate (perturbed_frame df ''newPromotionRevenue'' L)
          = series_sum tcv + 3 * series_sum mrr + series_sum (map (\<lambda>x. x * (1 + L / 100)) npr)"
    by (rule revenue_aggregate_columns) (use c in \<open>simp_all add: perturbed_frame_def\<close>)
  then show "revenue_aggregate (perturbed_frame df ''newPromotionRevenue'' L) = b + L * series_sum npr / 100"
    unfolding s assms(2) by (simp add: algebra_simps)
qed

lemma scaled_data_perturbed:
  assumes "\<forall>q\<in>set base. nums q p \<noteq> None" and "f = 1 + L / 100"
  shows "for_each (scaled_quarter p f) base = Inr (perturbed_series base p L)"
  unfolding perturbed_series_def
proof (rule for_each_Inr)
  fix q assume "q \<in> set base"
  then obtain x where x: "nums q p = Some x" using assms(1) by auto
  have "(nums q)(p \<mapsto> x * py f)
          = (\<lambda>k. if k = p then map_option (\<lambda>x. x * py (1 + L / 100)) (nums q k) else nums q k)"
    using x assms(2) by (auto simp: fun_eq_iff)
  then show "scaled_quarter p f q
        = Inr (q\<lparr>nums := (\<lambda>k. if k = p then map_option (\<lambda>x. x * py (1 + L / 100)) (nums q k)
                               else nums q k)\<rparr>)"
    using x by (simp add: scaled_quarter_Some)
qed

lemma increased_data_perturbed:
  assumes "\<forall>q\<in>set base. cashflow_ready q" and "p \<in> set cashflow_parameters"
  shows "increased_data base p v = Inr (perturbed_series base p v)"
    and "decreased_data base p v = Inr (perturbed_series base p (- v))"
proof -
  have k: "\<forall>q\<in>set base. nums q p \<noteq> None"
    using assms by (auto simp: cashflow_ready_def)
  show "increased_data base p v = Inr (perturbed_series base p v)"
    unfolding increased_data_def by (rule scaled_data_perturbed [OF k]) simp
  show "decreased_data base p v = Inr (perturbed_series base p (- v))"
    unfolding decreased_data_def by (rule scaled_data_perturbed [OF k]) simp
qed

lemma scenario_perturbed:
  "perturbed_series scenario_data ''salesRevenue'' 10
     = [flat_quarter ''Q3 2024'' (py 110) (py 40), flat_quarter ''Q4 2024'' (py 110) (py 40)]"
  "perturbed_series scenario_data ''rawMaterialCosts'' 10
     = [flat_quarter ''Q3 2024'' (py 100) (py 44), flat_quarter ''Q4 2024'' (py 100) (py 44)]"
proof -
  have r: "\<forall>q\<in>set scenario_data. cashflow_ready q"
    by (simp add: scenario_data_def flat_quarter_ready)
  have "Inr (perturbed_series scenario_data ''salesRevenue'' 10)
          = increased_data scenario_data ''salesRevenue'' 10"
    by (rule increased_data_perturbed(1) [symmetric, OF r]) (simp add: cashflow_parameters_def)
  also have "\<dots> = Inr [flat_quarter ''Q3 2024'' (py 110) (py 40),
                       flat_quarter ''Q4 2024'' (py 110) (py 40)]"
    by (simp add: increased_data_def scenario_data_def flat_quarter_scaled py_arith)
  finally show "perturbed_series scenario_data ''salesRevenue'' 10
     = [flat_quarter ''Q3 2024'' (py 110) (py 40), flat_quarter ''Q4 2024'' (py 110) (py 40)]"
    by simp
  have "Inr (perturbed_series scenario_data ''rawMaterialCosts'' 10)
          = increased_data scenario_data ''rawMaterialCosts'' 10"
    by (rule increased_data_perturbed(1) [symmetric, OF r]) (simp add: cashflow_parameters_def)
  also have "\<dots> = Inr [flat_quarter ''Q3 2024'' (py 100) (py 44),
                       flat_quarter ''Q4 2024'' (py 100) (py 44)]"
    by (simp add: increased_data_def scenario_data_def flat_quarter_scaled py_arith)
  finally show "perturbed_series scenario_data ''rawMaterialCosts'' 10
     = [flat_quarter ''Q3 2024'' (py 100) (py 44), flat_quarter ''Q4 2024'' (py 100) (py 44)]"
    by simp
qed

lemma scenario_perturbed_totals:
  "net_cashflow_total (perturbed_series scenario_data ''salesRevenue'' 10) = Inr (py 140)"
  "net_cashflow_total (perturbed_series scenario_data ''rawMaterialCosts'' 10) = Inr (py 112)"
  by (simp_all add: scenario_perturbed net_cashflow_total_def calculate_cashflow_def
      flat_quarter_cashflow total_net_cashflow_def py_arith)

text \<open>At a variation of 100 percent the decreased day counts are 0: the second
  iteration of the loop over the parameters raises.\<close>

lemma scenario_full_variation:
  "cashflow_sensitivity_analysis scenario_data 100 = Inl ZeroDivisionError"
proof -
  obtain i where 1: "param_impact scenario_data 100 ''salesRevenue'' = Inr i"
    by (simp add: param_impact_def percentage_impacts_def increased_data_def decreased_data_def
        scenario_data_def flat_quarter_scaled calculate_cashflow_def flat_quarter_cashflow
        total_net_cashflow_def py_arith truediv_py_py)
  have 2: "param_impact scenario_data 100 ''accountsReceivableDays'' = Inl ZeroDivisionError"
    by (simp add: param_impact_def increased_data_def decreased_data_def scenario_data_def
        scaled_quarter_def calculate_cashflow_def quarter_cashflow_def flat_quarter_def
        item_def py_arith truediv_py_py truediv_py_zero)
  show ?thesis
    by (simp add: cashflow_sensitivity_analysis_def cashflow_parameters_def 1 2)
qed

subsection \<open>A frame whose forecast column is not the sum of the revenue columns\<close>

lemma scaled_revenue_columns:
  assumes "df ''topChannelValue'' = Some tcv" "df ''monthlyRecurringRevenue'' = Some mrr"
    "df ''newPromotionRevenue'' = Some npr" "length mrr = length tcv" "length npr = length tcv"
  shows "and_then (imul_column df ''topChannelValue'' k) revenue_sum =
           Inr (series_sum tcv * k + 3 * series_sum mrr + series_sum npr)"
    and "and_then (imul_column df ''monthlyRecurringRevenue'' k) revenue_sum =
           Inr (series_sum tcv + 3 * (series_sum mrr * k) + series_sum npr)"
    and "and_then (imul_column df ''newPromotionRevenue'' k) revenue_sum =
           Inr (series_sum tcv + 3 * series_sum mrr + series_sum npr * k)"
proof -
  have "revenue_sum (df(''topChannelValue'' \<mapsto> series_mul tcv k)) =
        Inr (series_sum (series_mul tcv k) + 3 * series_sum mrr + series_sum npr)"
    using assms by (intro revenue_sum_columns) simp_all
  then show "and_then (imul_column df ''topChannelValue'' k) revenue_sum =
           Inr (series_sum tcv * k + 3 * series_sum mrr + series_sum npr)"
    using assms(1) by (simp add: imul_column_Some)
  have "revenue_sum (df(''monthlyRecurringRevenue'' \<mapsto> series_mul mrr k)) =
        Inr (series_sum tcv + 3 * series_sum (series_mul mrr k) + series_sum npr)"
    using assms by (intro revenue_sum_columns) simp_all
  then show "and_then (imul_column df ''monthlyRecurringRevenue'' k) revenue_sum =
           Inr (series_sum tcv + 3 * (series_sum mrr * k) + series_sum npr)"
    using assms(2) by (simp add: imul_column_Some)
  have "revenue_sum (df(''newPromotionRevenue'' \<mapsto> series_mul npr k)) =
        Inr (series_sum tcv + 3 * series_sum mrr + series_sum (series_mul npr k))"
    using assms by (intro revenue_sum_columns) simp_all
  then show "and_then (imul_column df ''newPromotionRevenue'' k) revenue_sum =
           Inr (series_sum tcv + 3 * series_sum mrr + series_sum npr * k)"
    using assms(3) by (simp add: imul_column_Some)
qed

lemma modified_revenue_columns:
  assumes "df ''topChannelValue'' = Some tcv" "df ''monthlyRecurringRevenue'' = Some mrr"
    "df ''newPromotionRevenue'' = Some npr" "length mrr = length tcv" "length npr = length tcv"
    and "p \<in> set revenue_parameters"
  shows "modified_revenue df p v = Inr (projr (modified_revenue df p v))"
  using assms(6) scaled_revenue_columns [OF assms(1-5)]
  by (auto simp: revenue_parameters_def modified_revenue_def modified_data_def
      perturbation_simps)

lemma forecast_table:
  assumes "df ''topChannelValue'' = Some tcv" "df ''monthlyRecurringRevenue'' = Some mrr"
    "df ''newPromotionRevenue'' = Some npr" "length mrr = length tcv" "length npr = length tcv"
    and "df ''revenueForecast'' = Some fc"
  shows "perform_sensitivity_analysis df =
     Inr (\<lambda>k. if k \<in> set revenue_parameters
               then Some (map (\<lambda>v. percent_change (projr (modified_revenue df k v))
                                      (series_sum fc)) variations)
               else None)"
proof -
  have "collect_results (param_results df (series_sum fc)) revenue_parameters Map.empty =
     Inr (\<lambda>k. if k \<in> set revenue_parameters
               then Some (map (\<lambda>v. percent_change (projr (modified_revenue df k v))
                                      (series_sum fc)) variations)
               else Map.empty k)"
    by (rule collect_results_Inr, rule param_results_closed)
       (rule modified_revenue_columns [OF assms(1-5)])
  then show ?thesis
    using assms(6) by (simp add: perform_sensitivity_analysis_def)
qed

lemma unbalanced_results:
  "\<exists>t. perform_sensitivity_analysis unbalanced_frame = Inr t \<and>
      t ''topChannelValue''
        = Some [Finite (- 30), Finite (- 25), Finite (- 20), Finite (- 15), Finite (- 10)]"
proof -
  have c: "unbalanced_frame ''topChannelValue'' = Some [100]"
    "unbalanced_frame ''monthlyRecurringRevenue'' = Some [10]"
    "unbalanced_frame ''newPromotionRevenue'' = Some [30]"
    "length [10 :: real] = length [100 :: real]" "length [30 :: real] = length [100 :: real]"
    and fc: "unbalanced_frame ''revenueForecast'' = Some [200]"
    by (simp_all add: unbalanced_frame_def)
  have m: "modified_revenue unbalanced_frame ''topChannelValue'' v = Inr (160 + v)" for v
    using scaled_revenue_columns(1) [OF c, of "1 + v / 100"]
    by (simp add: modified_revenue_def modified_data_def perturbation_simps series_sum_def
        algebra_simps)
  show ?thesis
    unfolding forecast_table [OF c fc]
    by (simp add: in_revenue_parameters m variations_def series_sum_def percent_change_nonzero)
qed

subsection \<open>The analyses that draw random numbers\<close>

lemma expense_effect_eq:
  "expense_effect v g =
     (max (-50) (min 50 (v * (0.5 + shd g) + (shd (stl g) - 0.5) * 20)), stl (stl g))"
  by (simp add: expense_effect_def np_random_def)

lemma for_each_rng_fixed:
  assumes "\<And>x. f x g = (h x, g)"
  shows "for_each_rng f xs g = (map h xs, g)"
  by (induction xs) (simp_all add: assms)

lemma collect_results_rng_fixed:
  assumes "\<And>p. body p g = (row p, g)"
  shows "collect_results_rng body ps results g =
     (\<lambda>k. if k \<in> set ps then Some (row k) else results k, g)"
proof (induction ps arbitrary: results)
  case Nil
  then show ?case by simp
next
  case (Cons p ps)
  have "(\<lambda>k. if k \<in> set ps then Some (row k) else (results(p \<mapsto> row p)) k) =
        (\<lambda>k. if k \<in> set (p # ps) then Some (row k) else results k)"
    by (rule ext) simp
  then show ?case by (simp add: assms Cons.IH)
qed

lemma expense_table_sconst:
  "perform_expense_sensitivity_analysis (sconst c) =
     (\<lambda>k. if k \<in> set expense_parameters
           then Some (map (\<lambda>v. max (-50) (min 50 (v * (0.5 + c) + (c - 0.5) * 20))) variations)
           else None,
      sconst c)"
proof -
  have "expense_effect v (sconst c) =
      (max (-50) (min 50 (v * (0.5 + c) + (c - 0.5) * 20)), sconst c)" for v
    by (simp add: expense_effect_eq)
  then have row: "for_each_rng expense_effect variations (sconst c) =
      (map (\<lambda>v. max (-50) (min 50 (v * (0.5 + c) + (c - 0.5) * 20))) variations, sconst c)"
    by (rule for_each_rng_fixed)
  have "collect_results_rng (\<lambda>param. for_each_rng expense_effect variations)
      expense_parameters Map.empty (sconst c) =
     (\<lambda>k. if k \<in> set expense_parameters
           then Some (map (\<lambda>v. max (-50) (min 50 (v * (0.5 + c) + (c - 0.5) * 20))) variations)
           else Map.empty k,
      sconst c)"
    by (rule collect_results_rng_fixed
        [where body = "\<lambda>param. for_each_rng expense_effect variations"
           and row = "\<lambda>k. map (\<lambda>v. max (-50) (min 50 (v * (0.5 + c) + (c - 0.5) * 20))) variations"])
       (rule row)
  then show ?thesis
    by (simp add: perform_expense_sensitivity_analysis_def)
qed

lemma in_expense_parameters: "''payrollCosts'' \<in> set expense_parameters"
  by (simp add: expense_parameters_def)

lemma stake_add_eq:
  assumes "stake (m + n) g = stake (m + n) g'"
  shows "stake m g = stake m g'" and "stake n (sdrop m g) = stake n (sdrop m g')"
proof -
  have "stake m g @ stake n (sdrop m g) = stake m g' @ stake n (sdrop m g')"
    unfolding stake_add by (rule assms)
  then show "stake m g = stake m g'" and "stake n (sdrop m g) = stake n (sdrop m g')"
    by (simp_all del: stake_add)
qed

lemma for_each_rng_draws:
  assumes s: "\<And>x g. snd (f x g) = sdrop k g"
    and p: "\<And>x g g'. stake k g = stake k g' \<Longrightarrow> fst (f x g) = fst (f x g')"
  shows "snd (for_each_rng f xs g) = sdrop (k * length xs) g"
    and "stake (k * length xs) g = stake (k * length xs) g' \<Longrightarrow>
         fst (for_each_rng f xs g) = fst (for_each_rng f xs g')"
proof (induction xs arbitrary: g g')
  case Nil
  { case 1 show ?case by simp }
  { case 2 show ?case by simp }
next
  case (Cons x xs)
  { case 1
    show ?case using Cons.IH(1) [of "sdrop k g"]
      by (simp add: case_prod_beta s add.commute) }
  { case 2
    then have e: "stake (k + k * length xs) g = stake (k + k * length xs) g'" by simp
    have "fst (for_each_rng f xs (sdrop k g)) = fst (for_each_rng f xs (sdrop k g'))"
      by (rule Cons.IH(2)) (rule stake_add_eq(2) [OF e])
    moreover have "fst (f x g) = fst (f x g')"
      by (rule p) (rule stake_add_eq(1) [OF e])
    ultimately show ?case by (simp add: case_prod_beta s) }
qed

lemma collect_results_rng_draws:
  assumes s: "\<And>x g. snd (body x g) = sdrop k g"
    and p: "\<And>x g g'. stake k g = stake k g' \<Longrightarrow> fst (body x g) = fst (body x g')"
  shows "snd (collect_results_rng body ps results g) = sdrop (k * length ps) g"
    and "stake (k * length ps) g = stake (k * length ps) g' \<Longrightarrow>
         fst (collect_results_rng body ps results g) = fst (collect_results_rng body ps results g')"
proof (induction ps arbitrary: g g' results)
  case Nil
  { case 1 show ?case by simp }
  { case 2 show ?case by simp }
next
  case (Cons x xs)
  { case 1
    show ?case using Cons.IH(1) [of _ "sdrop k g"]
      by (simp add: case_prod_beta s add.commute) }
  { case 2
    then have e: "stake (k + k * length xs) g = stake (k + k * length xs) g'" by simp
    have "fst (body x g) = fst (body x g')"
      by (rule p) (rule stake_add_eq(1) [OF e])
    moreover have "fst (collect_results_rng body xs (results(x \<mapsto> fst (body x g'))) (sdrop k g)) =
          fst (collect_results_rng body xs (results(x \<mapsto> fst (body x g'))) (sdrop k g'))"
      by (rule Cons.IH(2)) (rule stake_add_eq(2) [OF e])
    ultimately show ?case by (simp add: case_prod_beta s) }
qed

lemma expense_effect_draws:
  "snd (expense_effect v g) = sdrop 2 g"
  "stake 2 g = stake 2 g' \<Longrightarrow> fst (expense_effect v g) = fst (expense_effect v g')"
  by (simp_all add: expense_effect_eq numeral_2_eq_2)

lemma expense_row_draws:
  "snd (for_each_rng expense_effect variations g) = sdrop 10 g"
  "stake 10 g = stake 10 g' \<Longrightarrow>
     fst (for_each_rng expense_effect variations g) = fst (for_each_rng expense_effect variations g')"
proof -
  have l: "2 * length variations = 10" by (simp add: variations_def)
  have "snd (for_each_rng expense_effect variations g) = sdrop (2 * length variations) g"
    by (rule for_each_rng_draws(1)) (rule expense_effect_draws)+
  then show "snd (for_each_rng expense_effect variations g) = sdrop 10 g"
    by (simp only: l)
  have "stake (2 * length variations) g = stake (2 * length variations) g' \<Longrightarrow>
     fst (for_each_rng expense_effect variations g) = fst (for_each_rng expense_effect variations g')"
    by (rule for_each_rng_draws(2)) (rule expense_effect_draws | assumption)+
  then show "stake 10 g = stake 10 g' \<Longrightarrow>
     fst (for_each_rng expense_effect variations g) = fst (for_each_rng expense_effect variations g')"
    by (simp only: l)
qed

lemma expense_table_draws:
  "snd (perform_expense_sensitivity_analysis g) = sdrop 70 g"
  "stake 70 g = stake 70 g' \<Longrightarrow>
     fst (perform_expense_sensitivity_analysis g) = fst (perform_expense_sensitivity_analysis g')"
proof -
  have l: "10 * length expense_parameters = 70" by (simp add: expense_parameters_def)
  have "snd (collect_results_rng (\<lambda>param. for_each_rng expense_effect variations)
               expense_parameters Map.empty g) = sdrop (10 * length expense_parameters) g"
    by (rule collect_results_rng_draws(1)) (rule expense_row_draws | assumption)+
  then show "snd (perform_expense_sensitivity_analysis g) = sdrop 70 g"
    by (simp only: l perform_expense_sensitivity_analysis_def)
  have "stake (10 * length expense_parameters) g = stake (10 * length expense_parameters) g' \<Longrightarrow>
     fst (collect_results_rng (\<lambda>param. for_each_rng expense_effect variations)
               expense_parameters Map.empty g) =
     fst (collect_results_rng (\<lambda>param. for_each_rng expense_effect variations)
               expense_parameters Map.empty g')"
    by (rule collect_results_rng_draws(2)) (rule expense_row_draws | assumption)+
  then show "stake 70 g = stake 70 g' \<Longrightarrow>
     fst (perform_expense_sensitivity_analysis g) = fst (perform_expense_sensitivity_analysis g')"
    by (simp only: l perform_expense_sensitivity_analysis_def)
qed

lemma random_impact_draws:
  "snd (random_impact g) = sdrop 2 g"
  "stake 2 g = stake 2 g' \<Longrightarrow> fst (random_impact g) = fst (random_impact g')"
  by (simp_all add: random_impact_def np_random_def numeral_2_eq_2)

lemma balance_sheet_impact_draws:
  "snd (balance_sheet_impact param g) = sdrop 4 g"
  "stake 4 g = stake 4 g' \<Longrightarrow>
     fst (balance_sheet_impact param g) = fst (balance_sheet_impact param g')"
proof -
  show "snd (balance_sheet_impact param g) = sdrop 4 g"
    by (simp add: balance_sheet_impact_def case_prod_beta random_impact_draws(1))
  assume a: "stake 4 g = stake 4 g'"
  have e: "(2 :: nat) + 2 = 4" by simp
  note h = stake_add_eq [of 2 2 g g', unfolded e, OF a]
  have "fst (random_impact g) = fst (random_impact g')"
    by (rule random_impact_draws(2)) (rule h(1))
  moreover have "fst (random_impact (sdrop 2 g)) = fst (random_impact (sdrop 2 g'))"
    by (rule random_impact_draws(2)) (rule h(2))
  ultimately show "fst (balance_sheet_impact param g) = fst (balance_sheet_impact param g')"
    by (simp add: balance_sheet_impact_def case_prod_beta random_impact_draws(1))
qed

lemma balance_sheet_table_draws:
  "snd (balance_sheet_sensitivity_analysis g) = sdrop 40 g"
  "stake 40 g = stake 40 g' \<Longrightarrow>
     fst (balance_sheet_sensitivity_analysis g) = fst (balance_sheet_sensitivity_analysis g')"
proof -
  have l: "4 * length balance_sheet_parameters = 40" by (simp add: balance_sheet_parameters_def)
  have "snd (collect_results_rng balance_sheet_impact balance_sheet_parameters Map.empty g)
        = sdrop (4 * length balance_sheet_parameters) g"
    by (rule collect_results_rng_draws(1)) (rule balance_sheet_impact_draws | assumption)+
  then show "snd (balance_sheet_sensitivity_analysis g) = sdrop 40 g"
    by (simp only: l balance_sheet_sensitivity_analysis_def)
  have "stake (4 * length balance_sheet_parameters) g
          = stake (4 * length balance_sheet_parameters) g' \<Longrightarrow>
     fst (collect_results_rng balance_sheet_impact balance_sheet_parameters Map.empty g) =
     fst (collect_results_rng balance_sheet_impact balance_sheet_parameters Map.empty g')"
    by (rule collect_results_rng_draws(2)) (rule balance_sheet_impact_draws | assumption)+
  then show "stake 40 g = stake 40 g' \<Longrightarrow>
     fst (balance_sheet_sensitivity_analysis g) = fst (balance_sheet_sensitivity_analysis g')"
    by (simp only: l balance_sheet_sensitivity_analysis_def)
qed

subsection \<open>The sample data of the revenue dashboard\<close>

lemma those_map_Some:
  "(\<And>x. x \<in> set xs \<Longrightarrow> f x = Some (g x)) \<Longrightarrow> those (map f xs) = Some (map g xs)"
  by (induction xs) simp_all

lemma for_each_rng_invariant:
  assumes "\<And>x g. Q g \<Longrightarrow> P (fst (f x g)) \<and> Q (snd (f x g))"
  shows "Q g \<Longrightarrow> length (fst (for_each_rng f xs g)) = length xs \<and>
                   (\<forall>r\<in>set (fst (for_each_rng f xs g)). P r)"
proof (induction xs arbitrary: g)
  case Nil
  then show ?case by simp
next
  case (Cons x xs)
  from assms [OF Cons.prems, of x] have "P (fst (f x g))" "Q (snd (f x g))" by simp_all
  with Cons.IH [of "snd (f x g)"] show ?case
    by (simp add: case_prod_beta)
qed

text \<open>A row of the sample data: the three revenue values, all positive, and the forecast
  computed from them.\<close>

lemma quarter_data_row:
  assumes "\<forall>x\<in>sset g. 0 \<le> x"
  shows "(\<exists>a b c. fst (quarter_data g) ''topChannelValue'' = Some a \<and>
            fst (quarter_data g) ''monthlyRecurringRevenue'' = Some b \<and>
            fst (quarter_data g) ''newPromotionRevenue'' = Some c \<and>
            fst (quarter_data g) ''revenueForecast'' = Some (a + b * 3 + c) \<and>
            0 < a \<and> 0 < b \<and> 0 < c) \<and>
         (\<forall>x\<in>sset (snd (quarter_data g)). 0 \<le> x)"
proof -
  have s: "snd (quarter_data g) = sdrop 6 g"
    by (simp add: quarter_data_def np_uniform_def eval_nat_numeral)
  have "x \<in> sset g" if "x \<in> sset (sdrop 6 g)" for x
    using that by (metis sdrop_snth snth_sset sset_range imageE)
  then have 1: "\<forall>x\<in>sset (snd (quarter_data g)). 0 \<le> x"
    using assms s by auto
  have d: "0 \<le> shd g" "0 \<le> shd (stl g)" "0 \<le> shd (stl (stl g))"
    using assms by (simp_all add: shd_sset stl_sset)
  have "0 < 800000000 + (1000000000 - 800000000) * shd g"
    "0 < 200000000 + (300000000 - 200000000) * shd (stl g)"
    "0 < 50000000 + (100000000 - 50000000) * shd (stl (stl g))"
    using d by (simp_all add: add_pos_nonneg)
  then show ?thesis
    using 1 by (simp add: quarter_data_def np_uniform_def)
qed

lemma sum_list_positive:
  "xs \<noteq> [] \<Longrightarrow> (\<forall>x\<in>set xs. 0 < x) \<Longrightarrow> 0 < sum_list (xs :: real list)"
  by (induction xs) (auto simp: add_pos_nonneg sum_list_nonneg less_imp_le)

text \<open>For at least one quarter and draws that are not negative, the frame that
  \<^verbatim>\<open>generate_sample_data\<close> returns has the shape the statements about the revenue
  dashboard assume, and its base revenue is positive.\<close>

lemma generated_frame:
  assumes "0 < quarters" and "\<forall>x\<in>sset g. 0 \<le> x"
  shows "\<exists>tcv mrr npr. revenue_frame (fst (generate_sample_data quarters g)) tcv mrr npr \<and>
           0 < series_sum tcv + 3 * series_sum mrr + series_sum npr"
proof -
  define rows where "rows = fst (for_each_rng (\<lambda>i. quarter_data) [0..<quarters] g)"
  define P where "P = (\<lambda>row :: string \<rightharpoonup> real.
      \<exists>a b c. row ''topChannelValue'' = Some a \<and> row ''monthlyRecurringRevenue'' = Some b \<and>
              row ''newPromotionRevenue'' = Some c \<and>
              row ''revenueForecast'' = Some (a + b * 3 + c) \<and> 0 < a \<and> 0 < b \<and> 0 < c)"
  have "length rows = length [0..<quarters] \<and> (\<forall>r\<in>set rows. P r)"
    unfolding rows_def
    by (rule for_each_rng_invariant [where Q = "\<lambda>g. \<forall>x\<in>sset g. 0 \<le> x"])
       (use quarter_data_row assms(2) in \<open>auto simp: P_def\<close>)
  then have len: "rows \<noteq> []" and P: "\<And>r. r \<in> set rows \<Longrightarrow> P r"
    using assms(1) by auto
  define tcv where "tcv = map (\<lambda>r. the (r ''topChannelValue'')) rows"
  define mrr where "mrr = map (\<lambda>r. the (r ''monthlyRecurringRevenue'')) rows"
  define npr where "npr = map (\<lambda>r. the (r ''newPromotionRevenue'')) rows"
  have df: "fst (generate_sample_data quarters g) = data_frame rows"
    by (simp add: generate_sample_data_def rows_def case_prod_beta)
  have pt: "r ''topChannelValue'' = Some (the (r ''topChannelValue''))"
      "r ''monthlyRecurringRevenue'' = Some (the (r ''monthlyRecurringRevenue''))"
      "r ''newPromotionRevenue'' = Some (the (r ''newPromotionRevenue''))"
      "r ''revenueForecast'' = Some (the (r ''topChannelValue'')
          + the (r ''monthlyRecurringRevenue'') * 3 + the (r ''newPromotionRevenue''))"
      "0 < the (r ''topChannelValue'')" "0 < the (r ''monthlyRecurringRevenue'')"
      "0 < the (r ''newPromotionRevenue'')"
    if "r \<in> set rows" for r
    using P [OF that] unfolding P_def by auto
  have t1: "those (map (\<lambda>r. r ''topChannelValue'') rows)
              = Some (map (\<lambda>r. the (r ''topChannelValue'')) rows)"
    by (rule those_map_Some) (rule pt(1))
  have t2: "those (map (\<lambda>r. r ''monthlyRecurringRevenue'') rows)
              = Some (map (\<lambda>r. the (r ''monthlyRecurringRevenue'')) rows)"
    by (rule those_map_Some) (rule pt(2))
  have t3: "those (map (\<lambda>r. r ''newPromotionRevenue'') rows)
              = Some (map (\<lambda>r. the (r ''newPromotionRevenue'')) rows)"
    by (rule those_map_Some) (rule pt(3))
  have t4: "those (map (\<lambda>r. r ''revenueForecast'') rows)
              = Some (map (\<lambda>r. the (r ''topChannelValue'')
                                + the (r ''monthlyRecurringRevenue'') * 3
                                + the (r ''newPromotionRevenue'')) rows)"
    by (rule those_map_Some) (rule pt(4))
  have c1: "data_frame rows ''topChannelValue'' = Some tcv"
    using len t1 by (simp add: data_frame_def tcv_def)
  have c2: "data_frame rows ''monthlyRecurringRevenue'' = Some mrr"
    using len t2 by (simp add: data_frame_def mrr_def)
  have c3: "data_frame rows ''newPromotionRevenue'' = Some npr"
    using len t3 by (simp add: data_frame_def npr_def)
  have "data_frame rows ''revenueForecast'' =
        Some (map (\<lambda>r. the (r ''topChannelValue'') + the (r ''monthlyRecurringRevenue'') * 3
                         + the (r ''newPromotionRevenue'')) rows)"
    using len t4 by (simp add: data_frame_def)
  moreover have "series_add (series_add tcv (series_mul mrr 3)) npr =
        map (\<lambda>r. the (r ''topChannelValue'') + the (r ''monthlyRecurringRevenue'') * 3
                         + the (r ''newPromotionRevenue'')) rows"
    by (simp add: series_add_def series_mul_def tcv_def mrr_def npr_def map2_map_map comp_def)
  ultimately have c4: "data_frame rows ''revenueForecast'' =
        Some (series_add (series_add tcv (series_mul mrr 3)) npr)"
    by simp
  have frame: "revenue_frame (fst (generate_sample_data quarters g)) tcv mrr npr"
    unfolding df revenue_frame_def using c1 c2 c3 c4
    by (simp add: tcv_def mrr_def npr_def)
  have "0 < series_sum tcv" "0 < series_sum mrr" "0 < series_sum npr"
    unfolding series_sum_def tcv_def mrr_def npr_def
    using len pt(5,6,7) by (auto intro!: sum_list_positive)
  then have "0 < series_sum tcv + 3 * series_sum mrr + series_sum npr" by simp
  with frame show ?thesis by blast
qed

subsection \<open>The analyses over the store\<close>

lemma extends_refl [simp]: "extends h h"
  by (simp add: extends_def)

lemma extends_trans: "extends h h1 \<Longrightarrow> extends h1 h2 \<Longrightarrow> extends h h2"
  by (auto simp: extends_def)

lemma extends_cells: "extends h h' \<Longrightarrow> a < fresh h \<Longrightarrow> cells h' a = cells h a"
  by (simp add: extends_def)

lemma extends_map_cells:
  "extends h h' \<Longrightarrow> \<forall>a\<in>set refs. a < fresh h \<Longrightarrow> map (cells h') refs = map (cells h) refs"
  by (simp add: extends_def)

lemma variation_step_pure:
  "fst (variation_step a b p v h) =
     and_then (modified_revenue (cells h a) p v) (\<lambda>m. Inr (percent_change m b))"
  by (auto simp: variation_step_def then_heap_def copy_frame_def alloc_def imul_column_at_def
      modified_revenue_def modified_data_def and_then_def
      split: sum.splits prod.splits)

lemma variation_step_extends: "extends h (snd (variation_step a b p v h))"
  by (auto simp: variation_step_def then_heap_def copy_frame_def alloc_def imul_column_at_def
      extends_def split: sum.splits prod.splits)

lemma for_each_heap_stable:
  assumes ext: "\<And>x h. extends h (snd (f x h))"
    and pure: "\<And>x h. I h \<Longrightarrow> fst (f x h) = g x"
    and stable: "\<And>h h'. I h \<Longrightarrow> extends h h' \<Longrightarrow> I h'"
  shows "I h \<Longrightarrow> fst (for_each_heap f xs h) = for_each g xs \<and>
                   extends h (snd (for_each_heap f xs h))"
proof (induction xs arbitrary: h)
  case Nil
  then show ?case by simp
next
  case (Cons x xs)
  obtain r h1 where f: "f x h = (r, h1)" by (cases "f x h")
  have r: "r = g x" using pure [OF Cons.prems, of x] f by simp
  have e: "extends h h1" using ext [of h x] f by simp
  show ?case
  proof (cases r)
    case (Inl err)
    then show ?thesis using f r e by (simp add: then_heap_def)
  next
    case (Inr y)
    have "I h1" by (rule stable [OF Cons.prems e])
    from Cons.IH [OF this] obtain rs h2 where
      l: "for_each_heap f xs h1 = (rs, h2)" "for_each g xs = rs" "extends h1 h2"
      by (cases "for_each_heap f xs h1") auto
    have gx: "g x = Inr y" using r Inr by simp
    show ?thesis
      using extends_trans [OF e l(3)] e
      by (cases rs) (simp_all add: then_heap_def f gx l Inr)
  qed
qed

lemma collect_results_heap_stable:
  assumes ext: "\<And>x h. extends h (snd (body x h))"
    and pure: "\<And>x h. I h \<Longrightarrow> fst (body x h) = g x"
    and stable: "\<And>h h'. I h \<Longrightarrow> extends h h' \<Longrightarrow> I h'"
  shows "I h \<Longrightarrow> fst (collect_results_heap body ps results h) = collect_results g ps results \<and>
                   extends h (snd (collect_results_heap body ps results h))"
proof (induction ps arbitrary: h results)
  case Nil
  then show ?case by simp
next
  case (Cons p ps)
  obtain r h1 where f: "body p h = (r, h1)" by (cases "body p h")
  have r: "r = g p" using pure [OF Cons.prems, of p] f by simp
  have e: "extends h h1" using ext [of h p] f by simp
  show ?case
  proof (cases r)
    case (Inl err)
    then show ?thesis using f r e by (simp add: then_heap_def)
  next
    case (Inr y)
    have "I h1" by (rule stable [OF Cons.prems e])
    have gp: "g p = Inr y" using r Inr by simp
    have ih: "fst (collect_results_heap body ps (results(p \<mapsto> y)) h1) =
                collect_results g ps (results(p \<mapsto> y))"
      "extends h1 (snd (collect_results_heap body ps (results(p \<mapsto> y)) h1))"
      using Cons.IH [OF \<open>I h1\<close>] by blast+
    show ?thesis
      using extends_trans [OF e ih(2)] by (simp add: then_heap_def f gp Inr ih(1))
  qed
qed

lemma for_each_heap_extends:
  assumes "\<And>x h. extends h (snd (f x h))"
  shows "extends h (snd (for_each_heap f xs h))"
proof (induction xs arbitrary: h)
  case Nil
  then show ?case by simp
next
  case (Cons x xs)
  obtain r h1 where f: "f x h = (r, h1)" by (cases "f x h")
  have e: "extends h h1" using assms [of h x] f by simp
  show ?case
  proof (cases r)
    case (Inl err)
    then show ?thesis using f e by (simp add: then_heap_def)
  next
    case (Inr y)
    obtain rs h2 where l: "for_each_heap f xs h1 = (rs, h2)" by (cases "for_each_heap f xs h1")
    have "extends h1 h2" using Cons.IH [of h1] l by simp
    then have "extends h h2" by (rule extends_trans [OF e])
    then show ?thesis by (cases rs) (simp_all add: then_heap_def f Inr l)
  qed
qed

lemma revenue_at_run:
  assumes "a < fresh h"
  shows "fst (perform_sensitivity_analysis_at a h) = perform_sensitivity_analysis (cells h a)"
    and "extends h (snd (perform_sensitivity_analysis_at a h))"
proof -
  define I where "I = (\<lambda>h' :: dataframe heap. a < fresh h' \<and> cells h' a = cells h a)"
  have I: "I h" using assms by (simp add: I_def)
  have stable: "I h1 \<Longrightarrow> extends h1 h2 \<Longrightarrow> I h2" for h1 h2
    by (auto simp: I_def extends_def)
  have row: "fst (for_each_heap (variation_step a b p) variations h1) = param_results (cells h a) b p"
    if "I h1" for b p h1
  proof -
    have "fst (for_each_heap (variation_step a b p) variations h1) =
            for_each (\<lambda>v. and_then (modified_revenue (cells h a) p v)
                             (\<lambda>m. Inr (percent_change m b))) variations \<and>
          extends h1 (snd (for_each_heap (variation_step a b p) variations h1))"
    proof (rule for_each_heap_stable [where I = I])
      show "extends h2 (snd (variation_step a b p x h2))" for x h2
        by (rule variation_step_extends)
      show "fst (variation_step a b p x h2) =
            and_then (modified_revenue (cells h a) p x) (\<lambda>m. Inr (percent_change m b))"
        if "I h2" for x h2
        using that by (simp add: variation_step_pure I_def)
      show "I h2 \<Longrightarrow> extends h2 h3 \<Longrightarrow> I h3" for h2 h3 by (rule stable)
      show "I h1" by (rule that)
    qed
    then show ?thesis by (simp add: param_results_def)
  qed
  have loop: "fst (collect_results_heap
                (\<lambda>param. for_each_heap (variation_step a b param) variations)
                revenue_parameters Map.empty h) =
              collect_results (param_results (cells h a) b) revenue_parameters Map.empty \<and>
              extends h (snd (collect_results_heap
                (\<lambda>param. for_each_heap (variation_step a b param) variations)
                revenue_parameters Map.empty h))" for b
  proof (rule collect_results_heap_stable [where I = I])
    show "extends h2 (snd (for_each_heap (variation_step a b x) variations h2))" for x h2
      by (rule for_each_heap_extends) (rule variation_step_extends)
    show "I h2 \<Longrightarrow> fst (for_each_heap (variation_step a b x) variations h2)
            = param_results (cells h a) b x" for x h2
      by (rule row)
    show "I h2 \<Longrightarrow> extends h2 h3 \<Longrightarrow> I h3" for h2 h3 by (rule stable)
    show "I h" by (rule I)
  qed
  show "fst (perform_sensitivity_analysis_at a h) = perform_sensitivity_analysis (cells h a)"
    using loop
    by (cases "getitem (cells h a) ''revenueForecast''")
       (simp_all add: perform_sensitivity_analysis_at_def perform_sensitivity_analysis_def
          then_heap_def)
  show "extends h (snd (perform_sensitivity_analysis_at a h))"
    using loop
    by (cases "getitem (cells h a) ''revenueForecast''")
       (simp_all add: perform_sensitivity_analysis_at_def then_heap_def)
qed

lemma scaled_quarter_at_extends: "extends h (snd (scaled_quarter_at p f a h))"
  by (simp add: scaled_quarter_at_def alloc_def extends_def split: sum.splits)

lemma scaled_data_at:
  assumes "\<forall>a\<in>set refs. a < fresh h"
    and "for_each_heap (scaled_quarter_at p f) refs h = (r, h')"
  shows "case r of
           Inl e \<Rightarrow> for_each (scaled_quarter p f) (map (cells h) refs) = Inl e
         | Inr refs' \<Rightarrow>
             for_each (scaled_quarter p f) (map (cells h) refs) = Inr (map (cells h') refs') \<and>
             (\<forall>a\<in>set refs'. fresh h \<le> a \<and> a < fresh h')"
  using assms
proof (induction refs arbitrary: h r h')
  case Nil
  then show ?case by auto
next
  case (Cons a refs)
  show ?case
  proof (cases "scaled_quarter p f (cells h a)")
    case (Inl e)
    then have "for_each_heap (scaled_quarter_at p f) (a # refs) h = (Inl e, h)"
      by (simp add: then_heap_def scaled_quarter_at_def)
    then show ?thesis using Cons.prems(2) Inl by auto
  next
    case (Inr q)
    define h1 where "h1 = h\<lparr>cells := (cells h)(fresh h := q), fresh := Suc (fresh h)\<rparr>"
    have step: "scaled_quarter_at p f a h = (Inr (fresh h), h1)"
      by (simp add: scaled_quarter_at_def Inr alloc_def h1_def)
    have b1: "\<forall>a\<in>set refs. a < fresh h1" using Cons.prems(1) by (auto simp: h1_def)
    have same: "map (cells h1) refs = map (cells h) refs"
      using Cons.prems(1) by (auto simp: h1_def)
    obtain r2 h2 where l: "for_each_heap (scaled_quarter_at p f) refs h1 = (r2, h2)"
      by (cases "for_each_heap (scaled_quarter_at p f) refs h1")
    have e: "extends h1 h2"
      using for_each_heap_extends [of "scaled_quarter_at p f" h1 refs, OF scaled_quarter_at_extends] l
      by simp
    have q: "cells h2 (fresh h) = q" "fresh h < fresh h2"
      using e by (auto simp: extends_def h1_def)
    note ih = Cons.IH [OF b1 l]
    show ?thesis
    proof (cases r2)
      case (Inl e2)
      then have "for_each_heap (scaled_quarter_at p f) (a # refs) h = (Inl e2, h2)"
        by (simp add: then_heap_def step l)
      moreover have "for_each (scaled_quarter p f) (map (cells h) refs) = Inl e2"
        using ih Inl same by simp
      ultimately show ?thesis using Cons.prems(2) Inr by auto
    next
      case r2: (Inr refs')
      then have "for_each_heap (scaled_quarter_at p f) (a # refs) h = (Inr (fresh h # refs'), h2)"
        by (simp add: then_heap_def step l)
      moreover have "for_each (scaled_quarter p f) (map (cells h) refs) = Inr (map (cells h2) refs')"
        "\<forall>a\<in>set refs'. fresh h1 \<le> a \<and> a < fresh h2"
        using ih r2 same by simp_all
      moreover have "fresh h \<le> fresh h1" by (simp add: h1_def)
      ultimately show ?thesis using Cons.prems(2) Inr q by fastforce
    qed
  qed
qed

lemma param_impact_at_run:
  assumes "\<forall>a\<in>set refs. a < fresh h"
  shows "fst (param_impact_at refs v p h) = param_impact (map (cells h) refs) v p"
    and "extends h (snd (param_impact_at refs v p h))"
proof -
  let ?base = "map (cells h) refs"
  obtain r1 h1 where l1:
    "for_each_heap (scaled_quarter_at p (1 + v / 100)) refs h = (r1, h1)"
    by (cases "for_each_heap (scaled_quarter_at p (1 + v / 100)) refs h")
  have e1: "extends h h1"
    using for_each_heap_extends [of "scaled_quarter_at p (1 + v / 100)" h refs,
        OF scaled_quarter_at_extends] l1 by simp
  note d1 = scaled_data_at [OF assms l1]
  have "fst (param_impact_at refs v p h) = param_impact ?base v p \<and>
        extends h (snd (param_impact_at refs v p h))"
  proof (cases r1)
    case (Inl e)
    then show ?thesis
      using d1 e1 by (simp add: param_impact_at_def param_impact_def increased_data_def
          then_heap_def l1)
  next
    case r1: (Inr inc_refs)
    have inc: "increased_data ?base p v = Inr (map (cells h1) inc_refs)"
      and inc_b: "\<forall>a\<in>set inc_refs. a < fresh h1"
      using d1 r1 by (simp_all add: increased_data_def)
    have b1: "\<forall>a\<in>set refs. a < fresh h1" using assms e1 by (auto simp: extends_def)
    have base1: "map (cells h1) refs = ?base" by (rule extends_map_cells [OF e1 assms])
    obtain r2 h2 where l2:
      "for_each_heap (scaled_quarter_at p (1 - v / 100)) refs h1 = (r2, h2)"
      by (cases "for_each_heap (scaled_quarter_at p (1 - v / 100)) refs h1")
    have e2: "extends h1 h2"
      using for_each_heap_extends [of "scaled_quarter_at p (1 - v / 100)" h1 refs,
          OF scaled_quarter_at_extends] l2 by simp
    have e: "extends h h2" by (rule extends_trans [OF e1 e2])
    note d2 = scaled_data_at [OF b1 l2]
    show ?thesis
    proof (cases r2)
      case (Inl e')
      then show ?thesis
        using d2 e inc base1
        by (simp add: param_impact_at_def param_impact_def decreased_data_def then_heap_def
            l1 r1 l2)
    next
      case r2: (Inr dec_refs)
      have dec: "decreased_data ?base p v = Inr (map (cells h2) dec_refs)"
        using d2 r2 base1 by (simp add: decreased_data_def)
      have inc2: "map (cells h2) inc_refs = map (cells h1) inc_refs"
        by (rule extends_map_cells [OF e2 inc_b])
      have base2: "map (cells h2) refs = ?base"
        using extends_map_cells [OF e2 b1] base1 by simp
      have "param_impact_at refs v p h =
        (and_then (calculate_cashflow ?base 0) (\<lambda>base_cashflow.
         and_then (calculate_cashflow (map (cells h1) inc_refs) 0) (\<lambda>increased_cashflow.
         and_then (calculate_cashflow (map (cells h2) dec_refs) 0) (\<lambda>decreased_cashflow.
           percentage_impacts base_cashflow increased_cashflow decreased_cashflow))), h2)"
        by (simp add: param_impact_at_def then_heap_def l1 r1 l2 r2 calculate_cashflow_at_def
            base2 inc2 and_then_def split: sum.splits)
      then show ?thesis
        using e by (simp add: param_impact_def inc dec)
    qed
  qed
  then show "fst (param_impact_at refs v p h) = param_impact (map (cells h) refs) v p"
    and "extends h (snd (param_impact_at refs v p h))"
    by simp_all
qed

lemma collect_results_heap_extends:
  assumes "\<And>x h. extends h (snd (body x h))"
  shows "extends h (snd (collect_results_heap body ps results h))"
proof (induction ps arbitrary: h results)
  case Nil
  then show ?case by simp
next
  case (Cons p ps)
  obtain r h1 where f: "body p h = (r, h1)" by (cases "body p h")
  have e: "extends h h1" using assms [of h p] f by simp
  show ?case
  proof (cases r)
    case (Inl err)
    then show ?thesis using f e by (simp add: then_heap_def)
  next
    case (Inr y)
    have "extends h1 (snd (collect_results_heap body ps (results(p \<mapsto> y)) h1))"
      by (rule Cons.IH)
    then show ?thesis
      using extends_trans [OF e] by (simp add: then_heap_def f Inr)
  qed
qed

lemma cashflow_at_run:
  assumes "\<forall>a\<in>set refs. a < fresh h"
  shows "fst (cashflow_sensitivity_analysis_at refs v h)
           = cashflow_sensitivity_analysis (map (cells h) refs) v"
    and "extends h (snd (cashflow_sensitivity_analysis_at refs v h))"
proof -
  define I where
    "I = (\<lambda>h' :: period heap. (\<forall>a\<in>set refs. a < fresh h') \<and>
                               map (cells h') refs = map (cells h) refs)"
  have "fst (collect_results_heap (param_impact_at refs v) cashflow_parameters Map.empty h) =
          collect_results (param_impact (map (cells h) refs) v) cashflow_parameters Map.empty \<and>
        extends h (snd (collect_results_heap (param_impact_at refs v)
                          cashflow_parameters Map.empty h))"
  proof (rule collect_results_heap_stable [where I = I])
    show "extends h2 (snd (param_impact_at refs v x h2))" for x h2
    proof -
      obtain r1 h3 where l1:
        "for_each_heap (scaled_quarter_at x (1 + v / 100)) refs h2 = (r1, h3)"
        by (cases "for_each_heap (scaled_quarter_at x (1 + v / 100)) refs h2")
      have e1: "extends h2 h3"
        using for_each_heap_extends [of "scaled_quarter_at x (1 + v / 100)" h2 refs,
            OF scaled_quarter_at_extends] l1 by simp
      obtain r2 h4 where l2:
        "for_each_heap (scaled_quarter_at x (1 - v / 100)) refs h3 = (r2, h4)"
        by (cases "for_each_heap (scaled_quarter_at x (1 - v / 100)) refs h3")
      have e2: "extends h3 h4"
        using for_each_heap_extends [of "scaled_quarter_at x (1 - v / 100)" h3 refs,
            OF scaled_quarter_at_extends] l2 by simp
      show ?thesis
        using e1 extends_trans [OF e1 e2]
        by (auto simp: param_impact_at_def then_heap_def l1 l2 calculate_cashflow_at_def
            split: sum.splits)
    qed
    show "fst (param_impact_at refs v x h2) = param_impact (map (cells h) refs) v x"
      if "I h2" for x h2
    proof -
      from that have b: "\<forall>a\<in>set refs. a < fresh h2"
        and m: "map (cells h2) refs = map (cells h) refs"
        by (simp_all add: I_def)
      show ?thesis
        using param_impact_at_run(1) [OF b, of v x] unfolding m .
    qed
    show "I h2 \<Longrightarrow> extends h2 h3 \<Longrightarrow> I h3" for h2 h3
      by (auto simp: I_def extends_def)
    show "I h" using assms by (simp add: I_def)
  qed
  then show "fst (cashflow_sensitivity_analysis_at refs v h)
           = cashflow_sensitivity_analysis (map (cells h) refs) v"
    and "extends h (snd (cashflow_sensitivity_analysis_at refs v h))"
    by (simp_all add: cashflow_sensitivity_analysis_at_def cashflow_sensitivity_analysis_def)
qed

subsection \<open>The sample stores and the sample generator\<close>

lemma stake_sconst: "stake n (sconst c) = replicate n c"
  by (induction n) (simp_all del: stake_siterate)

lemma two_phase_prefix: "stake 70 two_phase_generator = stake 70 (sconst 0)"
  by (simp add: two_phase_generator_def stake_shift stake_sconst del: stake_siterate)

lemma two_phase_rest: "sdrop 70 two_phase_generator = sconst (1 / 2)"
  by (simp add: two_phase_generator_def sdrop_shift)

lemma sample_store_cells: "cells sample_store 0 = sample_frame" "fresh sample_store = 1"
  by (simp_all add: sample_store_def)

lemma scenario_store_cells:
  "map (cells scenario_store) [0, 1] = scenario_data" "fresh scenario_store = 2"
  by (simp_all add: scenario_store_def scenario_data_def)

lemma scaled_refs_new:
  assumes "\<forall>a\<in>set refs. a < fresh h"
    and "for_each_heap (scaled_quarter_at p f) refs h = (Inr r, h')"
  shows "set r \<inter> set refs = {}"
  using scaled_data_at [OF assms] assms(1) by fastforce


section \<open>The impact formula\<close>

text \<open>
  Claim C1 says that for every baseline with a nonzero aggregate, every parameter and every
  level, the result is \<open>(aggregate(perturbed) - aggregate(baseline)) / aggregate(baseline) * 100\<close>.
  The revenue analysis takes the base aggregate from the column \<^verbatim>\<open>revenueForecast\<close>
  and the perturbed aggregate from the three revenue columns: on a frame whose
  \<^verbatim>\<open>revenueForecast\<close> (200) is not the sum of these columns (160), the results for
  \<^verbatim>\<open>topChannelValue\<close> are -30, -25, -20, -15 and -10, and the result at level 0, where
  the perturbed series is the baseline and the formula gives 0, is -20. The cashflow analysis
  takes any level: at 100 percent, on the scenario of two quarters with revenue 100 and
  cost 40, whose aggregate is 120, the decreased day counts are 0 and the run raises
  \<^verbatim>\<open>ZeroDivisionError\<close>.
\<close>

theorem impact_formula_counterexample:
  "(\<exists>t. perform_sensitivity_analysis unbalanced_frame = Inr t \<and>
      t ''topChannelValue''
        = Some [Finite (- 30), Finite (- 25), Finite (- 20), Finite (- 15), Finite (- 10)]) \<and>
   variations ! 2 = 0 \<and>
   perturbed_frame unbalanced_frame ''topChannelValue'' 0 = unbalanced_frame \<and>
   net_cashflow_total scenario_data = Inr (py 120) \<and>
   cashflow_sensitivity_analysis scenario_data 100 = Inl ZeroDivisionError"
proof -
  have "perturbed_frame unbalanced_frame ''topChannelValue'' 0 = unbalanced_frame"
    by (auto simp: perturbed_frame_def unbalanced_frame_def fun_eq_iff)
  moreover have "variations ! 2 = 0" by (simp add: variations_def)
  ultimately show ?thesis
    using unbalanced_results scenario_total scenario_full_variation by simp
qed

text \<open>
  Claim C1, amended. Numbers are taken exactly, without the rounding of floats. The
  perturbed series is the one the specification describes: the value of the parameter
  times \<open>1 + level / 100\<close> on every record, everything else unchanged; the aggregate of the
  revenue dashboard is the total of
  \<open>topChannelValue + 3 * monthlyRecurringRevenue + newPromotionRevenue\<close>, that of the
  cashflow dashboard the total net cashflow.

  In the revenue dashboard, on a frame whose \<^verbatim>\<open>revenueForecast\<close> is the sum of the
  three revenue columns (as \<^verbatim>\<open>generate_sample_data\<close> builds it) with a nonzero
  aggregate, the result at every level \<open>L\<close> of \<open>[-20, -10, 0, 10, 20]\<close> is
  \<open>(aggregate(perturbed) - aggregate(baseline)) / aggregate(baseline) * 100\<close>, where for
  the three revenue columns the perturbed series is the one for that column and level; for
  \<^verbatim>\<open>customerAcquisitionCost\<close> it is the one for \<^verbatim>\<open>newPromotionRevenue\<close> at level
  \<open>- L\<close>, for \<^verbatim>\<open>customerLifetimeValue\<close> the one for \<^verbatim>\<open>monthlyRecurringRevenue\<close>
  at level \<open>L\<close>, and for \<^verbatim>\<open>inventoryTurnover\<close> the one for \<^verbatim>\<open>topChannelValue\<close> at
  level \<open>L / 2\<close>.

  In the cashflow dashboard, on quarters that have every key and day counts other than
  the Python number 0, with a base aggregate that is not 0 and a variation \<open>v\<close> other
  than 100 and -100 percent, the results of every one of the fifteen parameters are the
  formula on the aggregates of the series perturbed at level \<open>v\<close> (increased) and
  \<open>- v\<close> (decreased).

  The scenario of two quarters with revenue 100 and cost 40, at 10 percent: the base
  aggregate is 120, the aggregate with the revenue perturbed is 140 and the result
  \<open>50 / 3 = 16.66...\<close>, the aggregate with the cost perturbed is 112 and the result
  \<open>- 20 / 3 = -6.66...\<close>.
\<close>

theorem impact_formula:
  "(revenue_frame df tcv mrr npr \<longrightarrow> revenue_aggregate df \<noteq> 0 \<longrightarrow>
      (\<exists>t. perform_sensitivity_analysis df = Inr t \<and>
         (\<forall>p\<in>{''topChannelValue'', ''monthlyRecurringRevenue'', ''newPromotionRevenue''}.
            t p = Some (map (\<lambda>L. Finite ((revenue_aggregate (perturbed_frame df p L)
                                             - revenue_aggregate df)
                                            / revenue_aggregate df * 100)) variations)) \<and>
         t ''customerAcquisitionCost'' =
           Some (map (\<lambda>L. Finite ((revenue_aggregate
                                      (perturbed_frame df ''newPromotionRevenue'' (- L))
                                    - revenue_aggregate df)
                                   / revenue_aggregate df * 100)) variations) \<and>
         t ''customerLifetimeValue'' =
           Some (map (\<lambda>L. Finite ((revenue_aggregate
                                      (perturbed_frame df ''monthlyRecurringRevenue'' L)
                                    - revenue_aggregate df)
                                   / revenue_aggregate df * 100)) variations) \<and>
         t ''inventoryTurnover'' =
           Some (map (\<lambda>L. Finite ((revenue_aggregate
                                      (perturbed_frame df ''topChannelValue'' (L / 2))
                                    - revenue_aggregate df)
                                   / revenue_aggregate df * 100)) variations))) \<and>
   ((\<forall>q\<in>set base_data. cashflow_ready q) \<longrightarrow> 1 + v / 100 \<noteq> 0 \<longrightarrow> 1 - v / 100 \<noteq> 0 \<longrightarrow>
    net_cashflow_total base_data = Inr b \<longrightarrow> amount b \<noteq> Finite 0 \<longrightarrow>
      (\<exists>results. cashflow_sensitivity_analysis base_data v = Inr results \<and>
         (\<forall>p\<in>set cashflow_parameters. \<exists>ai ad.
            net_cashflow_total (perturbed_series base_data p v) = Inr ai \<and>
            net_cashflow_total (perturbed_series base_data p (- v)) = Inr ad \<and>
            results p = Some \<lparr>increased = (ai - b) / b * py 100,
                               decreased = (ad - b) / b * py 100\<rparr>))) \<and>
   net_cashflow_total scenario_data = Inr (py 120) \<and>
   net_cashflow_total (perturbed_series scenario_data ''salesRevenue'' 10) = Inr (py 140) \<and>
   net_cashflow_total (perturbed_series scenario_data ''rawMaterialCosts'' 10) = Inr (py 112) \<and>
   (py 140 - py 120) / py 120 * py 100 = py (50 / 3) \<and>
   (py 112 - py 120) / py 120 * py 100 = py (- (20 / 3)) \<and>
   (\<exists>results. cashflow_sensitivity_analysis scenario_data 10 = Inr results \<and>
      results ''salesRevenue'' = Some \<lparr>increased = py (50 / 3), decreased = py (- (50 / 3))\<rparr> \<and>
      results ''rawMaterialCosts'' = Some \<lparr>increased = py (- (20 / 3)), decreased = py (20 / 3)\<rparr>)"
proof (intro conjI impI)
  assume f: "revenue_frame df tcv mrr npr" and nz: "revenue_aggregate df \<noteq> 0"
  define b where "b = series_sum tcv + 3 * series_sum mrr + series_sum npr"
  have a: "revenue_aggregate df = b"
    unfolding b_def by (rule revenue_aggregate_frame [OF f])
  have nz': "b \<noteq> 0" using nz a by simp
  note m = modified_revenue_closed [OF f b_def]
  note s = revenue_aggregate_perturbed [OF f b_def]
  have h: "L / 2 * x / 100 = L * x / 200" for L x :: real by simp
  show "\<exists>t. perform_sensitivity_analysis df = Inr t \<and>
         (\<forall>p\<in>{''topChannelValue'', ''monthlyRecurringRevenue'', ''newPromotionRevenue''}.
            t p = Some (map (\<lambda>L. Finite ((revenue_aggregate (perturbed_frame df p L)
                                             - revenue_aggregate df)
                                            / revenue_aggregate df * 100)) variations)) \<and>
         t ''customerAcquisitionCost'' =
           Some (map (\<lambda>L. Finite ((revenue_aggregate
                                      (perturbed_frame df ''newPromotionRevenue'' (- L))
                                    - revenue_aggregate df)
                                   / revenue_aggregate df * 100)) variations) \<and>
         t ''customerLifetimeValue'' =
           Some (map (\<lambda>L. Finite ((revenue_aggregate
                                      (perturbed_frame df ''monthlyRecurringRevenue'' L)
                                    - revenue_aggregate df)
                                   / revenue_aggregate df * 100)) variations) \<and>
         t ''inventoryTurnover'' =
           Some (map (\<lambda>L. Finite ((revenue_aggregate
                                      (perturbed_frame df ''topChannelValue'' (L / 2))
                                    - revenue_aggregate df)
                                   / revenue_aggregate df * 100)) variations)"
    unfolding revenue_table [OF f b_def] a
    using nz' by (simp add: in_revenue_parameters m s percent_change_nonzero h)
next
  assume a: "\<forall>q\<in>set base_data. cashflow_ready q" "1 + v / 100 \<noteq> 0" "1 - v / 100 \<noteq> 0"
    "net_cashflow_total base_data = Inr b" and nz: "amount b \<noteq> Finite 0"
  have nz': "b \<noteq> py 0" using nz by (auto simp: py_zero_iff)
  have "\<exists>ai ad.
            net_cashflow_total (perturbed_series base_data p v) = Inr ai \<and>
            net_cashflow_total (perturbed_series base_data p (- v)) = Inr ad \<and>
            (if p \<in> set cashflow_parameters then Some (projr (param_impact base_data v p)) else None)
              = Some \<lparr>increased = (ai - b) / b * py 100, decreased = (ad - b) / b * py 100\<rparr>"
    if p: "p \<in> set cashflow_parameters" for p
    using cashflow_param_impact [OF a nz' p] increased_data_perturbed [OF a(1) p, of v] p
    by fastforce
  then show "\<exists>results. cashflow_sensitivity_analysis base_data v = Inr results \<and>
         (\<forall>p\<in>set cashflow_parameters. \<exists>ai ad.
            net_cashflow_total (perturbed_series base_data p v) = Inr ai \<and>
            net_cashflow_total (perturbed_series base_data p (- v)) = Inr ad \<and>
            results p = Some \<lparr>increased = (ai - b) / b * py 100,
                               decreased = (ad - b) / b * py 100\<rparr>)"
    unfolding cashflow_table [OF a nz'] by blast
next
  show "net_cashflow_total scenario_data = Inr (py 120)" by (rule scenario_total)
next
  show "net_cashflow_total (perturbed_series scenario_data ''salesRevenue'' 10) = Inr (py 140)"
    by (rule scenario_perturbed_totals)
next
  show "net_cashflow_total (perturbed_series scenario_data ''rawMaterialCosts'' 10) = Inr (py 112)"
    by (rule scenario_perturbed_totals)
next
  show "(py 140 - py 120) / py 120 * py 100 = py (50 / 3)"
    by (simp add: py_arith py_divide)
next
  show "(py 112 - py 120) / py 120 * py 100 = py (- (20 / 3))"
    by (simp add: py_arith py_divide)
next
  have r: "\<forall>q\<in>set scenario_data. cashflow_ready q"
    by (simp add: scenario_data_def flat_quarter_ready)
  have "cashflow_sensitivity_analysis scenario_data 10 =
     Inr (\<lambda>k. if k \<in> set cashflow_parameters
               then Some (projr (param_impact scenario_data 10 k)) else None)"
    by (rule cashflow_table [OF r _ _ scenario_total]) simp_all
  then show "\<exists>results. cashflow_sensitivity_analysis scenario_data 10 = Inr results \<and>
      results ''salesRevenue'' = Some \<lparr>increased = py (50 / 3), decreased = py (- (50 / 3))\<rparr> \<and>
      results ''rawMaterialCosts'' = Some \<lparr>increased = py (- (20 / 3)), decreased = py (20 / 3)\<rparr>"
    by (simp add: scenario_revenue scenario_cost cashflow_parameters_def)
qed

theorem impact_formula_witness:
  "revenue_frame sample_frame [100, 200] [10, 20] [30, 40] \<and>
   revenue_aggregate sample_frame = 460 \<and>
   (\<exists>t. perform_sensitivity_analysis sample_frame = Inr t \<and>
      (\<forall>p\<in>{''topChannelValue'', ''monthlyRecurringRevenue'', ''newPromotionRevenue''}.
         t p = Some (map (\<lambda>L. Finite ((revenue_aggregate (perturbed_frame sample_frame p L)
                                          - revenue_aggregate sample_frame)
                                         / revenue_aggregate sample_frame * 100)) variations)) \<and>
      t ''customerAcquisitionCost'' =
        Some (map (\<lambda>L. Finite ((revenue_aggregate
                                   (perturbed_frame sample_frame ''newPromotionRevenue'' (- L))
                                 - revenue_aggregate sample_frame)
                                / revenue_aggregate sample_frame * 100)) variations)) \<and>
   list_all cashflow_ready scenario_data \<and>
   net_cashflow_total scenario_data = Inr (py 120) \<and>
   amount (py 120) = Finite 120 \<and>
   (\<exists>results. cashflow_sensitivity_analysis scenario_data 10 = Inr results \<and>
      (\<forall>p\<in>set cashflow_parameters. \<exists>ai ad.
         net_cashflow_total (perturbed_series scenario_data p 10) = Inr ai \<and>
         net_cashflow_total (perturbed_series scenario_data p (- 10)) = Inr ad \<and>
         results p = Some \<lparr>increased = (ai - py 120) / py 120 * py 100,
                            decreased = (ad - py 120) / py 120 * py 100\<rparr>))"
proof -
  have f: "revenue_frame sample_frame [100, 200] [10, 20] [30, 40]"
    by (rule sample_frame_shape)
  have b: "revenue_aggregate sample_frame = 460"
    using revenue_aggregate_frame [OF f] by (simp add: series_sum_def)
  then have b': "revenue_aggregate sample_frame \<noteq> 0" by simp
  have r: "\<forall>q\<in>set scenario_data. cashflow_ready q"
    by (simp add: scenario_data_def flat_quarter_ready)
  have n: "1 + 10 / 100 \<noteq> (0 :: real)" "1 - 10 / 100 \<noteq> (0 :: real)"
    "amount (py 120) \<noteq> Finite 0" "amount (py 120) = Finite 120"
    by (simp_all add: py_def)
  note t = impact_formula [of sample_frame "[100, 200]" "[10, 20]" "[30, 40]" scenario_data 10
      "py 120"]
  have 1: "\<exists>t. perform_sensitivity_analysis sample_frame = Inr t \<and>
      (\<forall>p\<in>{''topChannelValue'', ''monthlyRecurringRevenue'', ''newPromotionRevenue''}.
         t p = Some (map (\<lambda>L. Finite ((revenue_aggregate (perturbed_frame sample_frame p L)
                                          - revenue_aggregate sample_frame)
                                         / revenue_aggregate sample_frame * 100)) variations)) \<and>
      t ''customerAcquisitionCost'' =
        Some (map (\<lambda>L. Finite ((revenue_aggregate
                                   (perturbed_frame sample_frame ''newPromotionRevenue'' (- L))
                                 - revenue_aggregate sample_frame)
                                / revenue_aggregate sample_frame * 100)) variations)"
    using t [THEN conjunct1, THEN mp, OF f, THEN mp, OF b'] by blast
  have 2: "\<exists>results. cashflow_sensitivity_analysis scenario_data 10 = Inr results \<and>
      (\<forall>p\<in>set cashflow_parameters. \<exists>ai ad.
         net_cashflow_total (perturbed_series scenario_data p 10) = Inr ai \<and>
         net_cashflow_total (perturbed_series scenario_data p (- 10)) = Inr ad \<and>
         results p = Some \<lparr>increased = (ai - py 120) / py 120 * py 100,
                            decreased = (ad - py 120) / py 120 * py 100\<rparr>)"
    by (rule t [THEN conjunct2, THEN conjunct1, THEN mp, OF r, THEN mp, OF n(1), THEN mp,
          OF n(2), THEN mp, OF scenario_total, THEN mp, OF n(3)])
  have l: "list_all cashflow_ready scenario_data" using r by (simp add: list_all_iff)
  show ?thesis
    by (intro conjI) (rule f b 1 2 l scenario_total n)+
qed

section \<open>What a result depends on\<close>

text \<open>
  Claim C2 says that the analyses are functions of their inputs, with no hidden
  randomness. The analyses of the expense and of the balance-sheet dashboard take no
  input and draw from the global random generator: two runs, one after the other, give
  different tables.
\<close>

theorem random_runs_counterexample:
  "fst (perform_expense_sensitivity_analysis two_phase_generator) \<noteq>
   fst (perform_expense_sensitivity_analysis
          (snd (perform_expense_sensitivity_analysis two_phase_generator)))"
proof -
  have 1: "fst (perform_expense_sensitivity_analysis two_phase_generator)
         = fst (perform_expense_sensitivity_analysis (sconst 0))"
    by (rule expense_table_draws(2)) (rule two_phase_prefix)
  have 2: "snd (perform_expense_sensitivity_analysis two_phase_generator) = sconst (1 / 2)"
    by (simp only: expense_table_draws(1) two_phase_rest)
  have "fst (perform_expense_sensitivity_analysis (sconst 0)) ''payrollCosts'' \<noteq>
        fst (perform_expense_sensitivity_analysis (sconst (1 / 2))) ''payrollCosts''"
    by (simp add: expense_table_sconst in_expense_parameters variations_def)
  then have "fst (perform_expense_sensitivity_analysis (sconst 0)) \<noteq>
        fst (perform_expense_sensitivity_analysis (sconst (1 / 2)))"
    by metis
  then show ?thesis unfolding 1 2 .
qed

text \<open>
  Claim C2, amended. The revenue and the cashflow analysis are functions of the baseline:
  two runs on equal baselines give equal results, whatever else the store holds (and a
  run changes no existing object). The expense analysis draws 70 numbers and the
  balance-sheet analysis 40 from the generator, which they leave advanced by as many
  draws (a side effect); two runs of the expense analysis that start from states of the
  generator with the same next 70 draws return the same table, and so do two runs of the
  balance-sheet analysis with the same next 40 draws.
\<close>

theorem determined_by_inputs:
  "(a < fresh h \<longrightarrow> a' < fresh h' \<longrightarrow> cells h a = cells h' a' \<longrightarrow>
      fst (perform_sensitivity_analysis_at a h) = fst (perform_sensitivity_analysis_at a' h')) \<and>
   ((\<forall>x\<in>set refs. x < fresh s) \<longrightarrow> (\<forall>x\<in>set refs'. x < fresh s') \<longrightarrow>
    map (cells s) refs = map (cells s') refs' \<longrightarrow>
      fst (cashflow_sensitivity_analysis_at refs v s)
        = fst (cashflow_sensitivity_analysis_at refs' v s')) \<and>
   snd (perform_expense_sensitivity_analysis g) = sdrop 70 g \<and>
   (stake 70 g = stake 70 g' \<longrightarrow>
      fst (perform_expense_sensitivity_analysis g) = fst (perform_expense_sensitivity_analysis g')) \<and>
   snd (balance_sheet_sensitivity_analysis g) = sdrop 40 g \<and>
   (stake 40 g = stake 40 g' \<longrightarrow>
      fst (balance_sheet_sensitivity_analysis g) = fst (balance_sheet_sensitivity_analysis g'))"
proof (intro conjI impI)
  assume "a < fresh h" "a' < fresh h'" "cells h a = cells h' a'"
  then show "fst (perform_sensitivity_analysis_at a h) = fst (perform_sensitivity_analysis_at a' h')"
    by (simp add: revenue_at_run(1))
next
  assume "\<forall>x\<in>set refs. x < fresh s" "\<forall>x\<in>set refs'. x < fresh s'"
    "map (cells s) refs = map (cells s') refs'"
  then show "fst (cashflow_sensitivity_analysis_at refs v s)
        = fst (cashflow_sensitivity_analysis_at refs' v s')"
    by (simp add: cashflow_at_run(1))
qed (rule expense_table_draws balance_sheet_table_draws, assumption?)+


theorem determined_by_inputs_witness:
  "fst (perform_sensitivity_analysis_at 0 sample_store)
     = fst (perform_sensitivity_analysis_at 0 (snd (perform_sensitivity_analysis_at 0 sample_store))) \<and>
   fst (cashflow_sensitivity_analysis_at [0, 1] 10 scenario_store)
     = fst (cashflow_sensitivity_analysis_at [0, 1] 10
              (snd (cashflow_sensitivity_analysis_at [0, 1] 10 scenario_store))) \<and>
   stake 70 two_phase_generator = stake 70 (sconst 0) \<and>
   fst (perform_expense_sensitivity_analysis two_phase_generator)
     = fst (perform_expense_sensitivity_analysis (sconst 0)) \<and>
   snd (perform_expense_sensitivity_analysis two_phase_generator) = sconst (1 / 2) \<and>
   stake 40 two_phase_generator = stake 40 (sconst 0) \<and>
   fst (balance_sheet_sensitivity_analysis two_phase_generator)
     = fst (balance_sheet_sensitivity_analysis (sconst 0)) \<and>
   snd (balance_sheet_sensitivity_analysis two_phase_generator) = sdrop 40 two_phase_generator"
proof -
  let ?h = "snd (perform_sensitivity_analysis_at 0 sample_store)"
  let ?s = "snd (cashflow_sensitivity_analysis_at [0, 1] 10 scenario_store)"
  have a: "0 < fresh sample_store" by (simp add: sample_store_cells)
  have a': "0 < fresh ?h" "cells sample_store 0 = cells ?h 0"
    using revenue_at_run(2) [OF a] a by (simp_all add: extends_def)
  have b: "\<forall>x\<in>set [0, 1]. x < fresh scenario_store" by (simp add: scenario_store_cells)
  have e: "extends scenario_store ?s" by (rule cashflow_at_run(2) [OF b])
  have b': "\<forall>x\<in>set [0, 1]. x < fresh ?s"
    using e b by (auto simp: extends_def)
  have m: "map (cells scenario_store) [0, 1] = map (cells ?s) [0, 1]"
    using extends_map_cells [OF e b] by simp
  have p40: "stake 40 two_phase_generator = stake 40 (sconst 0)"
    by (simp add: two_phase_generator_def stake_shift stake_sconst del: stake_siterate)
  note t1 = determined_by_inputs [of 0 sample_store 0 ?h "[0, 1]" scenario_store "[0, 1]" ?s 10
      two_phase_generator "sconst 0"]
  from t1 a a' b b' m two_phase_prefix have
    "fst (perform_sensitivity_analysis_at 0 sample_store) = fst (perform_sensitivity_analysis_at 0 ?h)"
    "fst (cashflow_sensitivity_analysis_at [0, 1] 10 scenario_store)
       = fst (cashflow_sensitivity_analysis_at [0, 1] 10 ?s)"
    "fst (perform_expense_sensitivity_analysis two_phase_generator)
       = fst (perform_expense_sensitivity_analysis (sconst 0))"
    "snd (perform_expense_sensitivity_analysis two_phase_generator) = sdrop 70 two_phase_generator"
    by blast+
  moreover from t1 p40 have
    "fst (balance_sheet_sensitivity_analysis two_phase_generator)
       = fst (balance_sheet_sensitivity_analysis (sconst 0))"
    "snd (balance_sheet_sensitivity_analysis two_phase_generator) = sdrop 40 two_phase_generator"
    by blast+
  ultimately show ?thesis
    using two_phase_prefix p40 two_phase_rest by simp
qed

section \<open>A baseline whose aggregate is zero\<close>

text \<open>
  Claim C3 says that a zero base aggregate makes the analysis fail with a division-by-zero
  error. The revenue dashboard divides numpy scalars: on a frame whose revenue is zero in
  every quarter it returns a table, and the entries are \<^verbatim>\<open>nan\<close>.
\<close>

theorem zero_revenue_counterexample:
  "revenue_sum zero_frame = Inr 0 \<and>
   getitem zero_frame ''revenueForecast'' = Inr [0, 0] \<and>
   \<not> isl (perform_sensitivity_analysis zero_frame) \<and>
   projr (perform_sensitivity_analysis zero_frame) ''topChannelValue''
     = Some [NaN, NaN, NaN, NaN, NaN]"
proof -
  have "revenue_sum zero_frame = Inr 0"
    using revenue_sum_columns [of zero_frame "[0, 0]" "[0, 0]" "[0, 0]"]
    by (simp add: zero_frame_def series_sum_def)
  moreover have "getitem zero_frame ''revenueForecast'' = Inr [0, 0]"
    by (simp add: zero_frame_def)
  moreover have "perform_sensitivity_analysis zero_frame =
     Inr (\<lambda>k. if k \<in> set revenue_parameters
               then Some (map (\<lambda>v. percent_change (projr (modified_revenue zero_frame k v)) 0) variations)
               else None)"
    by (rule revenue_table [OF zero_frame_shape]) (simp add: series_sum_def)
  moreover have "modified_revenue zero_frame ''topChannelValue'' v = Inr 0" for v
    using modified_revenue_closed(1) [OF zero_frame_shape refl, of v] by (simp add: series_sum_def)
  ultimately show ?thesis
    by (simp add: in_revenue_parameters percent_change_zero variations_def)
qed

text \<open>
  Claim C3, amended. Numbers are taken exactly, without the rounding of floats, so a zero
  aggregate is an exact zero. With a zero base aggregate, the revenue analysis, which
  divides numpy scalars, raises nothing, and every entry of its table is \<^verbatim>\<open>nan\<close>,
  \<^verbatim>\<open>inf\<close> or \<^verbatim>\<open>-inf\<close>. The cashflow analysis, on quarters that have every key and
  day counts other than the Python number 0, depends on the kind of its numbers. When the
  base total is the Python number 0 (no value read is a numpy scalar), it raises
  \<^verbatim>\<open>ZeroDivisionError\<close>, whatever the variation. When the base total is the numpy
  scalar 0 (some value read is a numpy scalar, as in the data of
  \<^verbatim>\<open>generate_realistic_sample_data\<close>), it raises nothing for a variation other than
  100 and -100 percent, and both results of every parameter are numpy scalars that are
  \<^verbatim>\<open>nan\<close>, \<^verbatim>\<open>inf\<close> or \<^verbatim>\<open>-inf\<close>.
\<close>

theorem zero_aggregate:
  "(revenue_frame df tcv mrr npr \<longrightarrow>
    series_sum tcv + 3 * series_sum mrr + series_sum npr = 0 \<longrightarrow>
      (\<exists>t. perform_sensitivity_analysis df = Inr t \<and>
         (\<forall>p\<in>set revenue_parameters. \<exists>r. t p = Some r \<and> length r = length variations \<and>
            set r \<subseteq> {NaN, PosInf, NegInf}))) \<and>
   ((\<forall>q\<in>set base_data. cashflow_ready q) \<longrightarrow>
    net_cashflow_total base_data = Inr (py 0) \<longrightarrow>
      cashflow_sensitivity_analysis base_data v = Inl ZeroDivisionError) \<and>
   ((\<forall>q\<in>set base_data. cashflow_ready q) \<longrightarrow> 1 + v / 100 \<noteq> 0 \<longrightarrow> 1 - v / 100 \<noteq> 0 \<longrightarrow>
    net_cashflow_total base_data = Inr (np 0) \<longrightarrow>
      (\<exists>results. cashflow_sensitivity_analysis base_data v = Inr results \<and>
         (\<forall>p\<in>set cashflow_parameters. \<exists>i. results p = Some i \<and>
            numpy (increased i) \<and> amount (increased i) \<in> {NaN, PosInf, NegInf} \<and>
            numpy (decreased i) \<and> amount (decreased i) \<in> {NaN, PosInf, NegInf})))"
proof (intro conjI impI)
  assume f: "revenue_frame df tcv mrr npr"
    and z: "series_sum tcv + 3 * series_sum mrr + series_sum npr = 0"
  show "\<exists>t. perform_sensitivity_analysis df = Inr t \<and>
         (\<forall>p\<in>set revenue_parameters. \<exists>r. t p = Some r \<and> length r = length variations \<and>
            set r \<subseteq> {NaN, PosInf, NegInf})"
    unfolding revenue_table [OF f z [symmetric]]
    using percent_change_zero_cases by auto
next
  assume "\<forall>q\<in>set base_data. cashflow_ready q" "net_cashflow_total base_data = Inr (py 0)"
  then show "cashflow_sensitivity_analysis base_data v = Inl ZeroDivisionError"
    by (rule cashflow_zero_python)
next
  assume a: "\<forall>q\<in>set base_data. cashflow_ready q" "1 + v / 100 \<noteq> 0" "1 - v / 100 \<noteq> 0"
    "net_cashflow_total base_data = Inr (np 0)"
  have nz: "np 0 \<noteq> py 0" by simp
  have "\<exists>i. (if p \<in> set cashflow_parameters then Some (projr (param_impact base_data v p)) else None)
               = Some i \<and>
            numpy (increased i) \<and> amount (increased i) \<in> {NaN, PosInf, NegInf} \<and>
            numpy (decreased i) \<and> amount (decreased i) \<in> {NaN, PosInf, NegInf}"
    if p: "p \<in> set cashflow_parameters" for p
  proof -
    from cashflow_param_impact [OF a nz p]
    obtain ai ad where *: "param_impact base_data v p =
         Inr \<lparr>increased = (ai - np 0) / np 0 * py 100, decreased = (ad - np 0) / np 0 * py 100\<rparr>"
      by blast
    have z: "amount (np 0) = Finite 0" by (simp add: np_def)
    show ?thesis
      using p percentage_of_zero [OF z, of ai] percentage_of_zero [OF z, of ad]
      unfolding * by simp
  qed
  then show "\<exists>results. cashflow_sensitivity_analysis base_data v = Inr results \<and>
         (\<forall>p\<in>set cashflow_parameters. \<exists>i. results p = Some i \<and>
            numpy (increased i) \<and> amount (increased i) \<in> {NaN, PosInf, NegInf} \<and>
            numpy (decreased i) \<and> amount (decreased i) \<in> {NaN, PosInf, NegInf})"
    unfolding cashflow_table [OF a nz] by blast
qed

theorem zero_aggregate_witness:
  "revenue_frame zero_frame [0, 0] [0, 0] [0, 0] \<and>
   (\<exists>t. perform_sensitivity_analysis zero_frame = Inr t \<and>
      (\<forall>p\<in>set revenue_parameters. \<exists>r. t p = Some r \<and> length r = length variations \<and>
         set r \<subseteq> {NaN, PosInf, NegInf})) \<and>
   list_all cashflow_ready break_even_data \<and>
   net_cashflow_total break_even_data = Inr (py 0) \<and>
   cashflow_sensitivity_analysis break_even_data 10 = Inl ZeroDivisionError \<and>
   list_all cashflow_ready numpy_break_even_data \<and>
   net_cashflow_total numpy_break_even_data = Inr (np 0) \<and>
   (\<exists>results. cashflow_sensitivity_analysis numpy_break_even_data 10 = Inr results \<and>
      (\<forall>p\<in>set cashflow_parameters. \<exists>i. results p = Some i \<and>
         numpy (increased i) \<and> amount (increased i) \<in> {NaN, PosInf, NegInf} \<and>
         numpy (decreased i) \<and> amount (decreased i) \<in> {NaN, PosInf, NegInf}))"
proof -
  have z: "series_sum [0, 0] + 3 * series_sum [0, 0] + series_sum [0, 0] = (0 :: real)"
    by (simp add: series_sum_def)
  have r: "\<forall>q\<in>set break_even_data. cashflow_ready q"
    by (simp add: break_even_data_def flat_quarter_ready)
  have r': "\<forall>q\<in>set numpy_break_even_data. cashflow_ready q"
    by (simp add: numpy_break_even_data_def flat_quarter_ready)
  have n: "1 + 10 / 100 \<noteq> (0 :: real)" "1 - 10 / 100 \<noteq> (0 :: real)"
    by simp_all
  note t = zero_aggregate [of zero_frame "[0, 0]" "[0, 0]" "[0, 0]" _ 10]
  from t [of break_even_data] zero_frame_shape z r break_even_total
  have 1: "\<exists>t. perform_sensitivity_analysis zero_frame = Inr t \<and>
      (\<forall>p\<in>set revenue_parameters. \<exists>r. t p = Some r \<and> length r = length variations \<and>
         set r \<subseteq> {NaN, PosInf, NegInf})"
    and 2: "cashflow_sensitivity_analysis break_even_data 10 = Inl ZeroDivisionError"
    by blast+
  from t [of numpy_break_even_data] r' n numpy_break_even_total
  have 3: "\<exists>results. cashflow_sensitivity_analysis numpy_break_even_data 10 = Inr results \<and>
      (\<forall>p\<in>set cashflow_parameters. \<exists>i. results p = Some i \<and>
         numpy (increased i) \<and> amount (increased i) \<in> {NaN, PosInf, NegInf} \<and>
         numpy (decreased i) \<and> amount (decreased i) \<in> {NaN, PosInf, NegInf})"
    by blast
  show ?thesis
    using zero_frame_shape 1 2 3 r r' break_even_total numpy_break_even_total
    by (simp add: list_all_iff)
qed

section \<open>One parameter at a time\<close>

text \<open>
  Claim C4 says that the series perturbed for a parameter \<open>A\<close> agrees with the baseline on
  every other parameter \<open>B\<close>. In the revenue dashboard the branch for
  \<^verbatim>\<open>customerAcquisitionCost\<close> rewrites the column \<^verbatim>\<open>newPromotionRevenue\<close> (and leaves
  the column \<^verbatim>\<open>customerAcquisitionCost\<close> as it was).
\<close>

theorem isolation_counterexample:
  "\<not> isl (modified_data sample_frame ''customerAcquisitionCost'' 10) \<and>
   projr (modified_data sample_frame ''customerAcquisitionCost'' 10) ''newPromotionRevenue''
     = Some [27, 36] \<and>
   sample_frame ''newPromotionRevenue'' = Some [30, 40] \<and>
   projr (modified_data sample_frame ''customerAcquisitionCost'' 10) ''customerAcquisitionCost''
     = sample_frame ''customerAcquisitionCost''"
  by (simp add: modified_data_def perturbation_simps imul_column_def getitem_def
      sample_frame_def series_mul_def)

text \<open>
  Claim C4, amended. In the cashflow dashboard, \<^verbatim>\<open>increased_data\<close> and
  \<^verbatim>\<open>decreased_data\<close> for a parameter \<open>A\<close> have one quarter per quarter of the baseline,
  each with the label of the baseline's quarter, under \<open>A\<close> the baseline's value times
  \<open>1 + v / 100\<close> (times \<open>1 - v / 100\<close>), and under every key \<open>B \<noteq> A\<close> the baseline's
  value. In the revenue dashboard, \<^verbatim>\<open>modified_data\<close> is the baseline with one column
  multiplied by the factor of the branch, and every other column is the baseline's: the
  parameter's own column times \<open>1 + L / 100\<close> for the three revenue columns,
  \<^verbatim>\<open>newPromotionRevenue\<close> times \<open>1 - L / 100\<close> for \<^verbatim>\<open>customerAcquisitionCost\<close>,
  \<^verbatim>\<open>monthlyRecurringRevenue\<close> times \<open>1 + L / 100\<close> for \<^verbatim>\<open>customerLifetimeValue\<close>
  and \<^verbatim>\<open>topChannelValue\<close> times \<open>1 + L / 200\<close> for \<^verbatim>\<open>inventoryTurnover\<close>. At
  level 0 the factor is 1 and \<^verbatim>\<open>modified_data\<close> equals the baseline.
\<close>

theorem one_at_a_time:
  "(increased_data base_data A v = Inr d \<longrightarrow>
      length d = length base_data \<and>
      (\<forall>i<length base_data.
         quarter (d ! i) = quarter (base_data ! i) \<and>
         nums (d ! i) A = map_option (\<lambda>x. x * py (1 + v / 100)) (nums (base_data ! i) A) \<and>
         (B \<noteq> A \<longrightarrow> nums (d ! i) B = nums (base_data ! i) B))) \<and>
   (decreased_data base_data A v = Inr d \<longrightarrow>
      length d = length base_data \<and>
      (\<forall>i<length base_data.
         quarter (d ! i) = quarter (base_data ! i) \<and>
         nums (d ! i) A = map_option (\<lambda>x. x * py (1 - v / 100)) (nums (base_data ! i) A) \<and>
         (B \<noteq> A \<longrightarrow> nums (d ! i) B = nums (base_data ! i) B))) \<and>
   (modified_data df A L = Inr md \<longrightarrow>
      A \<in> {''topChannelValue'', ''monthlyRecurringRevenue'', ''newPromotionRevenue''} \<longrightarrow>
      md A = map_option (\<lambda>s. series_mul s (1 + L / 100)) (df A) \<and>
      (B \<noteq> A \<longrightarrow> md B = df B)) \<and>
   (modified_data df ''customerAcquisitionCost'' L = Inr md \<longrightarrow>
      md ''newPromotionRevenue''
        = map_option (\<lambda>s. series_mul s (1 - L / 100)) (df ''newPromotionRevenue'') \<and>
      (B \<noteq> ''newPromotionRevenue'' \<longrightarrow> md B = df B)) \<and>
   (modified_data df ''customerLifetimeValue'' L = Inr md \<longrightarrow>
      md ''monthlyRecurringRevenue''
        = map_option (\<lambda>s. series_mul s (1 + L / 100)) (df ''monthlyRecurringRevenue'') \<and>
      (B \<noteq> ''monthlyRecurringRevenue'' \<longrightarrow> md B = df B)) \<and>
   (modified_data df ''inventoryTurnover'' L = Inr md \<longrightarrow>
      md ''topChannelValue''
        = map_option (\<lambda>s. series_mul s (1 + L / 200)) (df ''topChannelValue'') \<and>
      (B \<noteq> ''topChannelValue'' \<longrightarrow> md B = df B)) \<and>
   (modified_data df A 0 = Inr md \<longrightarrow> md = df)"
proof -
  have cash: "length d = length base_data \<and>
      (\<forall>i<length base_data.
         quarter (d ! i) = quarter (base_data ! i) \<and>
         nums (d ! i) A = map_option (\<lambda>x. x * py f) (nums (base_data ! i) A) \<and>
         (B \<noteq> A \<longrightarrow> nums (d ! i) B = nums (base_data ! i) B))"
    if d: "for_each (scaled_quarter A f) base_data = Inr d" for f
  proof (intro conjI allI impI)
    show "length d = length base_data" using for_each_Inr_D [OF d] by simp
  next
    fix i assume i: "i < length base_data"
    then have s: "scaled_quarter A f (base_data ! i) = Inr (d ! i)"
      using for_each_Inr_D [OF d] by simp
    then obtain x where x: "nums (base_data ! i) A = Some x"
      and q: "d ! i = (base_data ! i)\<lparr>nums := (nums (base_data ! i))(A \<mapsto> x * py f)\<rparr>"
      using scaled_quarter_Inr_D by blast
    show "quarter (d ! i) = quarter (base_data ! i)" unfolding q by simp
    show "nums (d ! i) A = map_option (\<lambda>x. x * py f) (nums (base_data ! i) A)"
      unfolding q using x by simp
    show "nums (d ! i) B = nums (base_data ! i) B" if "B \<noteq> A"
      unfolding q using that by simp
  qed
  have column: "md c = map_option (\<lambda>s. series_mul s k) (df c) \<and> (B \<noteq> c \<longrightarrow> md B = df B)"
    if "imul_column df c k = Inr md" for c k
    using that by (auto simp: imul_column_def getitem_def and_then_def split: option.splits)
  have direct: "md A = map_option (\<lambda>s. series_mul s (1 + L / 100)) (df A) \<and>
      (B \<noteq> A \<longrightarrow> md B = df B)"
    if "modified_data df A L = Inr md"
      "A \<in> {''topChannelValue'', ''monthlyRecurringRevenue'', ''newPromotionRevenue''}"
    using that column [of A "1 + L / 100"] by (simp add: modified_data_def perturbation_def)
  have indirect:
    "modified_data df ''customerAcquisitionCost'' L = Inr md \<longrightarrow>
      md ''newPromotionRevenue''
        = map_option (\<lambda>s. series_mul s (1 - L / 100)) (df ''newPromotionRevenue'') \<and>
      (B \<noteq> ''newPromotionRevenue'' \<longrightarrow> md B = df B)"
    "modified_data df ''customerLifetimeValue'' L = Inr md \<longrightarrow>
      md ''monthlyRecurringRevenue''
        = map_option (\<lambda>s. series_mul s (1 + L / 100)) (df ''monthlyRecurringRevenue'') \<and>
      (B \<noteq> ''monthlyRecurringRevenue'' \<longrightarrow> md B = df B)"
    "modified_data df ''inventoryTurnover'' L = Inr md \<longrightarrow>
      md ''topChannelValue''
        = map_option (\<lambda>s. series_mul s (1 + L / 200)) (df ''topChannelValue'') \<and>
      (B \<noteq> ''topChannelValue'' \<longrightarrow> md B = df B)"
    using column [of "''newPromotionRevenue''" "1 - L / 100"]
      column [of "''monthlyRecurringRevenue''" "1 + L / 100"]
      column [of "''topChannelValue''" "1 + L / 200"]
    by (simp_all add: modified_data_def perturbation_simps)
  have zero: "md = df" if m: "modified_data df A 0 = Inr md"
  proof -
    from m obtain c where c: "imul_column df c 1 = Inr md"
      by (auto simp: modified_data_def perturbation_def and_then_def split: if_splits)
    then obtain s where "df c = Some s" "md = df(c \<mapsto> series_mul s 1)"
      by (auto simp: imul_column_def getitem_def and_then_def split: option.splits)
    then show ?thesis by (auto simp: series_mul_def)
  qed
  show ?thesis
    using cash [of "1 + v / 100"] cash [of "1 - v / 100"] direct indirect zero
    unfolding increased_data_def decreased_data_def by blast
qed

theorem one_at_a_time_witness:
  "increased_data scenario_data ''salesRevenue'' 10 =
     Inr [flat_quarter ''Q3 2024'' (py 110) (py 40), flat_quarter ''Q4 2024'' (py 110) (py 40)] \<and>
   nums (flat_quarter ''Q4 2024'' (py 110) (py 40)) ''salesRevenue''
     = map_option (\<lambda>x. x * py (1 + 10 / 100)) (nums (scenario_data ! 1) ''salesRevenue'') \<and>
   nums (flat_quarter ''Q4 2024'' (py 110) (py 40)) ''rawMaterialCosts''
     = nums (scenario_data ! 1) ''rawMaterialCosts'' \<and>
   decreased_data scenario_data ''salesRevenue'' 10 =
     Inr [flat_quarter ''Q3 2024'' (py 90) (py 40), flat_quarter ''Q4 2024'' (py 90) (py 40)] \<and>
   nums (flat_quarter ''Q4 2024'' (py 90) (py 40)) ''salesRevenue''
     = map_option (\<lambda>x. x * py (1 - 10 / 100)) (nums (scenario_data ! 1) ''salesRevenue'') \<and>
   nums (flat_quarter ''Q4 2024'' (py 90) (py 40)) ''rawMaterialCosts''
     = nums (scenario_data ! 1) ''rawMaterialCosts'' \<and>
   modified_data sample_frame ''topChannelValue'' 10
     = Inr (sample_frame(''topChannelValue'' \<mapsto> [110, 220])) \<and>
   (sample_frame(''topChannelValue'' \<mapsto> [110, 220])) ''topChannelValue''
     = map_option (\<lambda>s. series_mul s (1 + 10 / 100)) (sample_frame ''topChannelValue'') \<and>
   (sample_frame(''topChannelValue'' \<mapsto> [110, 220])) ''newPromotionRevenue''
     = sample_frame ''newPromotionRevenue'' \<and>
   modified_data sample_frame ''customerAcquisitionCost'' 10
     = Inr (sample_frame(''newPromotionRevenue'' \<mapsto> [27, 36])) \<and>
   (sample_frame(''newPromotionRevenue'' \<mapsto> [27, 36])) ''topChannelValue''
     = sample_frame ''topChannelValue'' \<and>
   modified_data sample_frame ''customerLifetimeValue'' 10
     = Inr (sample_frame(''monthlyRecurringRevenue'' \<mapsto> [11, 22])) \<and>
   (sample_frame(''monthlyRecurringRevenue'' \<mapsto> [11, 22])) ''topChannelValue''
     = sample_frame ''topChannelValue'' \<and>
   modified_data sample_frame ''inventoryTurnover'' 10
     = Inr (sample_frame(''topChannelValue'' \<mapsto> [105, 210])) \<and>
   (sample_frame(''topChannelValue'' \<mapsto> [105, 210])) ''newPromotionRevenue''
     = sample_frame ''newPromotionRevenue'' \<and>
   modified_data sample_frame ''customerAcquisitionCost'' 0 = Inr sample_frame"
proof -
  let ?di = "[flat_quarter ''Q3 2024'' (py 110) (py 40), flat_quarter ''Q4 2024'' (py 110) (py 40)]"
  let ?dd = "[flat_quarter ''Q3 2024'' (py 90) (py 40), flat_quarter ''Q4 2024'' (py 90) (py 40)]"
  have i: "increased_data scenario_data ''salesRevenue'' 10 = Inr ?di"
    by (simp add: increased_data_def scenario_data_def flat_quarter_scaled py_arith)
  have d: "decreased_data scenario_data ''salesRevenue'' 10 = Inr ?dd"
    by (simp add: decreased_data_def scenario_data_def flat_quarter_scaled py_arith)
  have l: "(1 :: nat) < length scenario_data" "''rawMaterialCosts'' \<noteq> ''salesRevenue''"
    by (simp_all add: scenario_data_def)
  have m1: "modified_data sample_frame ''topChannelValue'' 10
     = Inr (sample_frame(''topChannelValue'' \<mapsto> [110, 220]))"
    by (simp add: modified_data_def perturbation_simps imul_column_def sample_frame_def
        series_mul_def)
  have m2: "modified_data sample_frame ''customerAcquisitionCost'' 10
     = Inr (sample_frame(''newPromotionRevenue'' \<mapsto> [27, 36]))"
    by (simp add: modified_data_def perturbation_simps imul_column_def sample_frame_def
        series_mul_def)
  have m3: "modified_data sample_frame ''customerLifetimeValue'' 10
     = Inr (sample_frame(''monthlyRecurringRevenue'' \<mapsto> [11, 22]))"
    by (simp add: modified_data_def perturbation_simps imul_column_def sample_frame_def
        series_mul_def)
  have m4: "modified_data sample_frame ''inventoryTurnover'' 10
     = Inr (sample_frame(''topChannelValue'' \<mapsto> [105, 210]))"
    by (simp add: modified_data_def perturbation_simps imul_column_def sample_frame_def
        series_mul_def)
  obtain md where m0: "modified_data sample_frame ''customerAcquisitionCost'' 0 = Inr md"
    by (simp add: modified_data_def perturbation_simps imul_column_def sample_frame_def)
  note t = one_at_a_time [of scenario_data "''salesRevenue''" 10 _ "''rawMaterialCosts''"
      sample_frame 0 md]
  have "quarter (?di ! 1) = quarter (scenario_data ! 1) \<and>
        nums (?di ! 1) ''salesRevenue''
          = map_option (\<lambda>x. x * py (1 + 10 / 100)) (nums (scenario_data ! 1) ''salesRevenue'') \<and>
        (''rawMaterialCosts'' \<noteq> ''salesRevenue'' \<longrightarrow>
           nums (?di ! 1) ''rawMaterialCosts'' = nums (scenario_data ! 1) ''rawMaterialCosts'')"
    by (rule t [of ?di, THEN conjunct1, rule_format, OF i, THEN conjunct2, rule_format, OF l(1)])
  then have a: "nums (flat_quarter ''Q4 2024'' (py 110) (py 40)) ''salesRevenue''
     = map_option (\<lambda>x. x * py (1 + 10 / 100)) (nums (scenario_data ! 1) ''salesRevenue'')"
    "nums (flat_quarter ''Q4 2024'' (py 110) (py 40)) ''rawMaterialCosts''
     = nums (scenario_data ! 1) ''rawMaterialCosts''"
    using l(2) by simp_all
  have "quarter (?dd ! 1) = quarter (scenario_data ! 1) \<and>
        nums (?dd ! 1) ''salesRevenue''
          = map_option (\<lambda>x. x * py (1 - 10 / 100)) (nums (scenario_data ! 1) ''salesRevenue'') \<and>
        (''rawMaterialCosts'' \<noteq> ''salesRevenue'' \<longrightarrow>
           nums (?dd ! 1) ''rawMaterialCosts'' = nums (scenario_data ! 1) ''rawMaterialCosts'')"
    by (rule t [of ?dd, THEN conjunct2, THEN conjunct1, rule_format, OF d, THEN conjunct2,
          rule_format, OF l(1)])
  then have b: "nums (flat_quarter ''Q4 2024'' (py 90) (py 40)) ''salesRevenue''
     = map_option (\<lambda>x. x * py (1 - 10 / 100)) (nums (scenario_data ! 1) ''salesRevenue'')"
    "nums (flat_quarter ''Q4 2024'' (py 90) (py 40)) ''rawMaterialCosts''
     = nums (scenario_data ! 1) ''rawMaterialCosts''"
    using l(2) by simp_all
  have "md = sample_frame"
    by (rule one_at_a_time [of scenario_data "''customerAcquisitionCost''" 10 ?di
          "''rawMaterialCosts''" sample_frame 0 md, THEN conjunct2, THEN conjunct2,
          THEN conjunct2, THEN conjunct2, THEN conjunct2, THEN conjunct2, rule_format, OF m0])
  then have z: "modified_data sample_frame ''customerAcquisitionCost'' 0 = Inr sample_frame"
    using m0 by simp
  have c: "(sample_frame(''topChannelValue'' \<mapsto> [110, 220])) ''topChannelValue''
     = map_option (\<lambda>s. series_mul s (1 + 10 / 100)) (sample_frame ''topChannelValue'')"
    by (simp add: sample_frame_def series_mul_def)
  have e: "(sample_frame(''topChannelValue'' \<mapsto> [110, 220])) ''newPromotionRevenue''
       = sample_frame ''newPromotionRevenue''"
    "(sample_frame(''newPromotionRevenue'' \<mapsto> [27, 36])) ''topChannelValue''
       = sample_frame ''topChannelValue''"
    "(sample_frame(''monthlyRecurringRevenue'' \<mapsto> [11, 22])) ''topChannelValue''
       = sample_frame ''topChannelValue''"
    "(sample_frame(''topChannelValue'' \<mapsto> [105, 210])) ''newPromotionRevenue''
       = sample_frame ''newPromotionRevenue''"
    by simp_all
  show ?thesis
    by (intro conjI) (rule i d m1 m2 m3 m4 a b z c e)+
qed

section \<open>The baseline is left as it was\<close>

text \<open>
  Claim C5. Over the store of objects, a run of the revenue analysis on an existing frame
  leaves that frame as it was: the frame at the baseline's address after the run is the
  frame before it, so the base aggregate read from it is the same, and so is every other
  object that existed before the run; each perturbation works on a copy at a fresh
  address, never on the baseline. A run of the cashflow analysis leaves every dictionary
  of the baseline, and with them the total net cashflow, as they were, and the perturbed
  series consist of new dictionaries only.
\<close>

theorem baseline_untouched:
  "(base_data < fresh h \<longrightarrow>
      cells (snd (perform_sensitivity_analysis_at base_data h)) base_data = cells h base_data \<and>
      getitem (cells (snd (perform_sensitivity_analysis_at base_data h)) base_data)
          ''revenueForecast''
        = getitem (cells h base_data) ''revenueForecast'' \<and>
      extends h (snd (perform_sensitivity_analysis_at base_data h)) \<and>
      fst (copy_frame base_data h) = Inr (fresh h) \<and> fresh h \<noteq> base_data) \<and>
   ((\<forall>a\<in>set refs. a < fresh s) \<longrightarrow>
      map (cells (snd (cashflow_sensitivity_analysis_at refs v s))) refs = map (cells s) refs \<and>
      net_cashflow_total (map (cells (snd (cashflow_sensitivity_analysis_at refs v s))) refs)
        = net_cashflow_total (map (cells s) refs) \<and>
      extends s (snd (cashflow_sensitivity_analysis_at refs v s)) \<and>
      (\<forall>p f r s'. for_each_heap (scaled_quarter_at p f) refs s = (Inr r, s') \<longrightarrow>
                   set r \<inter> set refs = {}))"
proof (intro conjI impI allI)
  assume a: "base_data < fresh h"
  note e = revenue_at_run(2) [OF a]
  show c: "cells (snd (perform_sensitivity_analysis_at base_data h)) base_data = cells h base_data"
    by (rule extends_cells [OF e a])
  show "getitem (cells (snd (perform_sensitivity_analysis_at base_data h)) base_data)
          ''revenueForecast''
        = getitem (cells h base_data) ''revenueForecast''"
    by (simp only: c)
  show "extends h (snd (perform_sensitivity_analysis_at base_data h))" by (rule e)
  show "fst (copy_frame base_data h) = Inr (fresh h)"
    by (simp add: copy_frame_def alloc_def)
  show "fresh h \<noteq> base_data" using a by simp
next
  assume b: "\<forall>a\<in>set refs. a < fresh s"
  note e = cashflow_at_run(2) [OF b]
  show m: "map (cells (snd (cashflow_sensitivity_analysis_at refs v s))) refs = map (cells s) refs"
    by (rule extends_map_cells [OF e b])
  show "net_cashflow_total (map (cells (snd (cashflow_sensitivity_analysis_at refs v s))) refs)
        = net_cashflow_total (map (cells s) refs)"
    by (simp only: m)
  show "extends s (snd (cashflow_sensitivity_analysis_at refs v s))" by (rule e)
  show "set r \<inter> set refs = {}"
    if "for_each_heap (scaled_quarter_at p f) refs s = (Inr r, s')" for p f r s'
    by (rule scaled_refs_new [OF b that])
qed

theorem baseline_untouched_witness:
  "0 < fresh sample_store \<and>
   cells (snd (perform_sensitivity_analysis_at 0 sample_store)) 0 = sample_frame \<and>
   getitem (cells (snd (perform_sensitivity_analysis_at 0 sample_store)) 0) ''revenueForecast''
     = Inr [160, 300] \<and>
   list_all (\<lambda>a. a < fresh scenario_store) [0, 1] \<and>
   map (cells (snd (cashflow_sensitivity_analysis_at [0, 1] 10 scenario_store))) [0, 1]
     = scenario_data \<and>
   net_cashflow_total
     (map (cells (snd (cashflow_sensitivity_analysis_at [0, 1] 10 scenario_store))) [0, 1])
     = Inr (py 120)"
proof -
  have a: "0 < fresh sample_store" by (simp add: sample_store_cells)
  have b: "\<forall>a\<in>set [0, 1]. a < fresh scenario_store" by (simp add: scenario_store_cells)
  have f: "getitem sample_frame ''revenueForecast'' = Inr [160, 300]"
    by (simp add: sample_frame_def)
  from baseline_untouched [of 0 sample_store "[0, 1]" scenario_store 10] a b
  have r: "cells (snd (perform_sensitivity_analysis_at 0 sample_store)) 0 = cells sample_store 0"
    "getitem (cells (snd (perform_sensitivity_analysis_at 0 sample_store)) 0) ''revenueForecast''
       = getitem (cells sample_store 0) ''revenueForecast''"
    "map (cells (snd (cashflow_sensitivity_analysis_at [0, 1] 10 scenario_store))) [0, 1]
       = map (cells scenario_store) [0, 1]"
    "net_cashflow_total
       (map (cells (snd (cashflow_sensitivity_analysis_at [0, 1] 10 scenario_store))) [0, 1])
       = net_cashflow_total (map (cells scenario_store) [0, 1])"
    by blast+
  have l: "list_all (\<lambda>a. a < fresh scenario_store) [0, 1]"
    using b by (simp only: list_all_iff)
  show ?thesis
    unfolding r sample_store_cells(1) scenario_store_cells(1) scenario_total f
    using a l by simp
qed

section \<open>Level zero\<close>

text \<open>
  Claim C6 says that the impact at level 0 is exactly 0 for every parameter and that level
  0 appears in every run with the default levels. The expense dashboard runs the default
  levels, and its value at level 0 is the random offset \<open>(r - 0.5) * 20\<close>: with every
  draw equal to \<open>1/4\<close> it is \<open>-5\<close>.
\<close>

theorem level_zero_counterexample:
  "variations ! 2 = 0 \<and>
   fst (perform_expense_sensitivity_analysis (sconst (1 / 4))) ''payrollCosts''
     = Some [-20, -25 / 2, -5, 5 / 2, 10]"
  by (simp add: expense_table_sconst in_expense_parameters variations_def)

text \<open>
  Claim C6, amended. In the revenue dashboard, on a frame as \<^verbatim>\<open>generate_sample_data\<close>
  builds it and with a nonzero base revenue, every parameter's list of results has one
  entry per level, level 0 is the third level, and the third entry is exactly 0.
\<close>

theorem level_zero_revenue:
  assumes "revenue_frame df tcv mrr npr"
    and "series_sum tcv + 3 * series_sum mrr + series_sum npr \<noteq> 0"
  shows "\<exists>t. perform_sensitivity_analysis df = Inr t \<and>
     (\<forall>p\<in>set revenue_parameters. \<exists>r. t p = Some r \<and> length r = length variations \<and>
        variations ! 2 = 0 \<and> r ! 2 = Finite 0)"
proof -
  have "percent_change (projr (modified_revenue df p 0)) b = Finite 0"
    if "p \<in> set revenue_parameters"
      and "b = series_sum tcv + 3 * series_sum mrr + series_sum npr" for p b
    using that assms(2) modified_revenue_closed [OF assms(1) that(2), of 0]
    by (auto simp: revenue_parameters_def percent_change_nonzero)
  then show ?thesis
    by (simp add: revenue_table [OF assms(1) refl] variations_def)
qed

theorem level_zero_revenue_witness:
  "revenue_frame sample_frame [100, 200] [10, 20] [30, 40] \<and>
   (\<exists>t. perform_sensitivity_analysis sample_frame = Inr t \<and>
     (\<forall>p\<in>set revenue_parameters. \<exists>r. t p = Some r \<and> length r = length variations \<and>
        variations ! 2 = 0 \<and> r ! 2 = Finite 0))"
proof -
  have b: "series_sum [100, 200] + 3 * series_sum [10, 20] + series_sum [30, 40] \<noteq> (0 :: real)"
    by (simp add: series_sum_def)
  show ?thesis
    using sample_frame_shape level_zero_revenue [OF sample_frame_shape b] by simp
qed

section \<open>Linearity in the level\<close>



section \<open>The indirect parameters of the revenue dashboard\<close>

text \<open>
  Claim C8. In \<^verbatim>\<open>perform_sensitivity_analysis\<close> of the revenue dashboard, the branch for
  \<^verbatim>\<open>customerAcquisitionCost\<close> at level \<open>L\<close> multiplies the column
  \<^verbatim>\<open>newPromotionRevenue\<close> by \<open>1 - L / 100\<close>, the branch for \<^verbatim>\<open>inventoryTurnover\<close>
  multiplies \<^verbatim>\<open>topChannelValue\<close> by \<open>1 + L / 200\<close>, and the value stored is the same
  percentage change of the total revenue against the base revenue.
\<close>

theorem indirect_parameters:
  assumes "revenue_frame df tcv mrr npr"
    and "b = series_sum tcv + 3 * series_sum mrr + series_sum npr"
    and "b \<noteq> 0"
  shows "modified_data df ''customerAcquisitionCost'' L =
           Inr (df(''newPromotionRevenue'' \<mapsto> series_mul npr (1 - L / 100))) \<and>
         modified_data df ''inventoryTurnover'' L =
           Inr (df(''topChannelValue'' \<mapsto> series_mul tcv (1 + L / 200))) \<and>
         (\<exists>t. perform_sensitivity_analysis df = Inr t \<and>
            t ''customerAcquisitionCost'' =
              Some (map (\<lambda>L. Finite ((series_sum tcv + 3 * series_sum mrr
                                        + series_sum npr * (1 - L / 100) - b) / b * 100))
                      variations) \<and>
            t ''inventoryTurnover'' =
              Some (map (\<lambda>L. Finite ((series_sum tcv * (1 + L / 200) + 3 * series_sum mrr
                                        + series_sum npr - b) / b * 100))
                      variations))"
proof (intro conjI)
  have c: "df ''newPromotionRevenue'' = Some npr" "df ''topChannelValue'' = Some tcv"
    using assms(1) by (simp_all add: revenue_frame_def)
  show "modified_data df ''customerAcquisitionCost'' L =
           Inr (df(''newPromotionRevenue'' \<mapsto> series_mul npr (1 - L / 100)))"
    using c by (simp add: modified_data_def perturbation_simps imul_column_Some)
  show "modified_data df ''inventoryTurnover'' L =
           Inr (df(''topChannelValue'' \<mapsto> series_mul tcv (1 + L / 200)))"
    using c by (simp add: modified_data_def perturbation_simps imul_column_Some)
  show "\<exists>t. perform_sensitivity_analysis df = Inr t \<and>
            t ''customerAcquisitionCost'' =
              Some (map (\<lambda>L. Finite ((series_sum tcv + 3 * series_sum mrr
                                        + series_sum npr * (1 - L / 100) - b) / b * 100))
                      variations) \<and>
            t ''inventoryTurnover'' =
              Some (map (\<lambda>L. Finite ((series_sum tcv * (1 + L / 200) + 3 * series_sum mrr
                                        + series_sum npr - b) / b * 100))
                      variations)"
    using assms(2,3)
    by (simp add: revenue_table [OF assms(1,2)] in_revenue_parameters
        modified_revenue_closed [OF assms(1,2)] percent_change_nonzero algebra_simps)
qed

theorem indirect_parameters_witness:
  "revenue_frame sample_frame [100, 200] [10, 20] [30, 40] \<and>
   modified_data sample_frame ''customerAcquisitionCost'' 10 =
     Inr (sample_frame(''newPromotionRevenue'' \<mapsto> [27, 36])) \<and>
   modified_data sample_frame ''inventoryTurnover'' 10 =
     Inr (sample_frame(''topChannelValue'' \<mapsto> [105, 210])) \<and>
   (\<exists>t. perform_sensitivity_analysis sample_frame = Inr t \<and>
      t ''customerAcquisitionCost'' =
        Some [Finite (70 / 23), Finite (35 / 23), Finite 0, Finite (- (35 / 23)), Finite (- (70 / 23))] \<and>
      t ''inventoryTurnover'' =
        Some [Finite (- (150 / 23)), Finite (- (75 / 23)), Finite 0, Finite (75 / 23), Finite (150 / 23)])"
proof -
  have b: "series_sum [100, 200] + 3 * series_sum [10, 20] + series_sum [30, 40] \<noteq> (0 :: real)"
    by (simp add: series_sum_def)
  show ?thesis
    using sample_frame_shape indirect_parameters [OF sample_frame_shape refl b, of 10]
    by (simp add: series_sum_def series_mul_def variations_def)
qed

section \<open>Parameters the cashflow never reads\<close>

text \<open>
  Claim C10. \<^verbatim>\<open>calculate_cashflow\<close> reads eleven keys of a quarter; it never reads
  \<^verbatim>\<open>inventoryTurnover\<close>, \<^verbatim>\<open>seasonalFactor\<close>, \<^verbatim>\<open>supplierCreditDays\<close> and
  \<^verbatim>\<open>fxRate\<close>. On quarters that have every key and nonzero day counts, with a nonzero
  total base net cashflow (and a variation other than 100 and -100 percent, which would
  scale a day count to zero), the analysis returns, and its results for these four
  parameters are exactly 0 for the increased and for the decreased variation: the number
  0 of the kind of the base total, a Python number or a numpy scalar.
\<close>

theorem unused_parameters_have_no_impact:
  assumes "\<forall>q\<in>set base_data. cashflow_ready q"
    and "1 + v / 100 \<noteq> 0" and "1 - v / 100 \<noteq> 0"
    and "net_cashflow_total base_data = Inr b" and "amount b = Finite r" and "r \<noteq> 0"
  shows "\<exists>results. cashflow_sensitivity_analysis base_data v = Inr results \<and>
     (\<forall>p\<in>{''inventoryTurnover'', ''seasonalFactor'', ''supplierCreditDays'', ''fxRate''}.
        results p = Some \<lparr>increased = Number (numpy b) (Finite 0),
                           decreased = Number (numpy b) (Finite 0)\<rparr>)"
proof -
  have nz: "b \<noteq> py 0" using assms(5,6) by (auto simp: py_zero_iff)
  note a = assms(1-4) nz
  have z: "(b - b) / b * py 100 = Number (numpy b) (Finite 0)"
    using percentage_finite [OF assms(5) assms(5) assms(6)] by simp
  have "projr (param_impact base_data v p)
          = \<lparr>increased = Number (numpy b) (Finite 0), decreased = Number (numpy b) (Finite 0)\<rparr>"
    if p: "p \<in> {''inventoryTurnover'', ''seasonalFactor'', ''supplierCreditDays'', ''fxRate''}" for p
  proof -
    from cashflow_param_impact [OF a unused_in_parameters [OF p]]
    obtain di dd ai ad where *: "increased_data base_data p v = Inr di"
      "decreased_data base_data p v = Inr dd"
      "net_cashflow_total di = Inr ai" "net_cashflow_total dd = Inr ad"
      "param_impact base_data v p =
         Inr \<lparr>increased = (ai - b) / b * py 100, decreased = (ad - b) / b * py 100\<rparr>"
      by blast
    have "net_cashflow_total di = net_cashflow_total base_data"
      using net_cashflow_total_unused [OF p] *(1) unfolding increased_data_def by blast
    then have "ai = b" using *(3) assms(4) by simp
    have "net_cashflow_total dd = net_cashflow_total base_data"
      using net_cashflow_total_unused [OF p] *(2) unfolding decreased_data_def by blast
    then have "ad = b" using *(4) assms(4) by simp
    show ?thesis using *(5) \<open>ai = b\<close> \<open>ad = b\<close> z by simp
  qed
  then have "\<forall>p\<in>{''inventoryTurnover'', ''seasonalFactor'', ''supplierCreditDays'', ''fxRate''}.
     (if p \<in> set cashflow_parameters then Some (projr (param_impact base_data v p)) else None)
       = Some \<lparr>increased = Number (numpy b) (Finite 0), decreased = Number (numpy b) (Finite 0)\<rparr>"
    using unused_in_parameters by auto
  then show ?thesis
    unfolding cashflow_table [OF a] by blast
qed

theorem unused_parameters_have_no_impact_witness:
  "list_all cashflow_ready scenario_data \<and>
   net_cashflow_total scenario_data = Inr (py 120) \<and>
   (\<exists>results. cashflow_sensitivity_analysis scenario_data 10 = Inr results \<and>
     (\<forall>p\<in>{''inventoryTurnover'', ''seasonalFactor'', ''supplierCreditDays'', ''fxRate''}.
        results p = Some \<lparr>increased = py 0, decreased = py 0\<rparr>))"
proof -
  have r: "\<forall>q\<in>set scenario_data. cashflow_ready q"
    by (simp add: scenario_data_def flat_quarter_ready)
  have n: "1 + 10 / 100 \<noteq> (0 :: real)" "1 - 10 / 100 \<noteq> (0 :: real)"
    "amount (py 120) = Finite 120" "(120 :: real) \<noteq> 0"
    by (simp_all add: py_def)
  from unused_parameters_have_no_impact [OF r n(1,2) scenario_total n(3,4)] r scenario_total
  show ?thesis by (simp add: list_all_iff py_def)
qed

end
